(* ===== verification/Prelude.thy ===== *)
theory Prelude
  imports Main
begin

text \<open>
  Shared vocabulary of the development: Go errors as values, Go maps (which may be
  nil), operations that talk to the API server as state-passing functions with an
  error result, and a small Hoare logic that carries the proofs about them.
  The collections \<open>io_simps\<close> (equations of the combinators) and \<open>triple_intros\<close>
  (rules of the logic) are what the component proofs hand to the automation.
\<close>

named_theorems io_simps
named_theorems triple_intros

section \<open>Errors\<close>

text \<open>
  A Go error is either one that came from outside the program (API server or library;
  its reason and its message), one made by \<open>fmt.Errorf\<close> (format string, the arguments
  that are not errors, and the error formatted by the last \<open>%v\<close>, whose dynamic type is
  lost) or by \<open>errors.New\<close>, or a run-time panic, which unwinds the call like an error.
\<close>

datatype goerr =
    ExtErr string string
  | Errorf string "string list" "goerr option"
  | Panic string

section \<open>Go maps\<close>

text \<open>
  A Go map value is nil or a finite map. Reading a nil map finds nothing, deleting from
  it does nothing, and writing to it panics.
\<close>

type_synonym gomap = "(string \<rightharpoonup> string) option"

fun mapGet :: "gomap \<Rightarrow> string \<Rightarrow> string option" where
  "mapGet None k = None"
| "mapGet (Some m) k = m k"

fun mapDelete :: "gomap \<Rightarrow> string \<Rightarrow> gomap" where
  "mapDelete None k = None"
| "mapDelete (Some m) k = Some (m(k := None))"

fun mapSet :: "gomap \<Rightarrow> string \<Rightarrow> string \<Rightarrow> goerr + gomap" where
  "mapSet None k v = Inl (Panic ''assignment to entry in nil map'')"
| "mapSet (Some m) k v = Inr (Some (m(k \<mapsto> v)))"

lemma mapGet_mapDelete [simp]: "mapGet (mapDelete m k) j = (if j = k then None else mapGet m j)"
  by (cases m) auto

lemma mapSet_Inr_iff:
  "mapSet m k v = Inr m' \<longleftrightarrow> (\<exists>f. m = Some f \<and> m' = Some (f(k \<mapsto> v)))"
  by (cases m) auto

section \<open>Operations on the API server\<close>

text \<open>
  \<open>'w\<close> is the world the program acts on (the API server and everything behind it). An
  operation is a function from the world to a result and the next world.
\<close>

type_synonym ('w, 'a) io = "'w \<Rightarrow> (goerr + 'a) \<times> 'w"

definition ret :: "'a \<Rightarrow> ('w, 'a) io" where
  "ret x = (\<lambda>w. (Inr x, w))"

definition fail :: "goerr \<Rightarrow> ('w, 'a) io" where
  "fail e = (\<lambda>w. (Inl e, w))"

text \<open>\<open>bindE m f\<close> is \<open>x, err := m; if err != nil { return err }; f(x)\<close>.\<close>

definition bindE :: "('w, 'a) io \<Rightarrow> ('a \<Rightarrow> ('w, 'b) io) \<Rightarrow> ('w, 'b) io" where
  "bindE m f = (\<lambda>w. case m w of (Inl e, w') \<Rightarrow> (Inl e, w') | (Inr x, w') \<Rightarrow> f x w')"

text \<open>\<open>tryE m h f\<close> is \<open>x, err := m; if err != nil { h(err) } else { f(x) }\<close>.\<close>

definition tryE :: "('w, 'a) io \<Rightarrow> (goerr \<Rightarrow> ('w, 'b) io) \<Rightarrow> ('a \<Rightarrow> ('w, 'b) io) \<Rightarrow> ('w, 'b) io"
  where "tryE m h f = (\<lambda>w. case m w of (Inl e, w') \<Rightarrow> h e w' | (Inr x, w') \<Rightarrow> f x w')"

text \<open>
  \<open>wrapE g m\<close> returns \<open>g(err)\<close> where \<open>m\<close> returns \<open>err\<close>; a panic of \<open>m\<close> is not an error and
  goes through.
\<close>

fun onError :: "(goerr \<Rightarrow> goerr) \<Rightarrow> goerr \<Rightarrow> goerr" where
  "onError g (Panic s) = Panic s"
| "onError g (ExtErr r s) = g (ExtErr r s)"
| "onError g (Errorf s xs e) = g (Errorf s xs e)"

definition wrapE :: "(goerr \<Rightarrow> goerr) \<Rightarrow> ('w, 'a) io \<Rightarrow> ('w, 'a) io" where
  "wrapE g m = tryE m (\<lambda>e. fail (onError g e)) ret"

text \<open>A pure computation that may fail, run as an operation.\<close>

definition liftE :: "goerr + 'a \<Rightarrow> ('w, 'a) io" where
  "liftE r = (\<lambda>w. (r, w))"

lemma ret_apply [simp, io_simps]: "ret x w = (Inr x, w)"
  by (simp add: ret_def)

lemma fail_apply [simp, io_simps]: "fail e w = (Inl e, w)"
  by (simp add: fail_def)

lemma liftE_apply [simp, io_simps]: "liftE r w = (r, w)"
  by (simp add: liftE_def)

lemma liftE_simps [simp]: "liftE (Inr x) = ret x" "liftE (Inl e) = fail e"
  by (simp_all add: liftE_def ret_def fail_def)

lemma bindE_simps [simp]:
  "bindE (ret x) f = f x" "bindE (fail e) f = fail e" "bindE m ret = m"
  by (auto simp: bindE_def ret_def fail_def fun_eq_iff split: prod.splits sum.splits)

lemma wrapE_simps [simp]: "wrapE g (ret x) = ret x" "wrapE g (fail e) = fail (onError g e)"
  by (auto simp: wrapE_def tryE_def fun_eq_iff)

lemma bindE_assoc: "bindE (bindE m f) g = bindE m (\<lambda>x. bindE (f x) g)"
  by (auto simp: bindE_def fun_eq_iff split: prod.splits sum.splits)

lemma bindE_Inr_iff [io_simps]:
  "bindE m f w = (Inr y, w') \<longleftrightarrow> (\<exists>x v. m w = (Inr x, v) \<and> f x v = (Inr y, w'))"
  by (auto simp: bindE_def split: prod.splits sum.splits)

lemma bindE_Inl_iff [io_simps]:
  "bindE m f w = (Inl e, w') \<longleftrightarrow>
     m w = (Inl e, w') \<or> (\<exists>x v. m w = (Inr x, v) \<and> f x v = (Inl e, w'))"
  by (auto simp: bindE_def split: prod.splits sum.splits)

lemma wrapE_Inr_iff [io_simps]: "wrapE g m w = (Inr x, w') \<longleftrightarrow> m w = (Inr x, w')"
  by (auto simp: wrapE_def tryE_def split: prod.splits sum.splits)

lemma wrapE_Inl_iff [io_simps]:
  "wrapE g m w = (Inl e, w') \<longleftrightarrow> (\<exists>e0. m w = (Inl e0, w') \<and> e = onError g e0)"
  by (auto simp: wrapE_def tryE_def split: prod.splits sum.splits)

section \<open>Triples\<close>

text \<open>
  \<open>triple P m Q E\<close>: from a world with \<open>P\<close>, the operation \<open>m\<close> ends in \<open>Q x\<close> when it returns
  \<open>x\<close> and in \<open>E e\<close> when it returns the error \<open>e\<close>. Operations are total functions, so this
  is a total-correctness statement.
\<close>

definition triple ::
  "('w \<Rightarrow> bool) \<Rightarrow> ('w, 'a) io \<Rightarrow> ('a \<Rightarrow> 'w \<Rightarrow> bool) \<Rightarrow> (goerr \<Rightarrow> 'w \<Rightarrow> bool) \<Rightarrow> bool"
  where "triple P m Q E \<longleftrightarrow>
    (\<forall>w. P w \<longrightarrow> (case m w of (Inr x, w') \<Rightarrow> Q x w' | (Inl e, w') \<Rightarrow> E e w'))"

text \<open>An invariant of an operation: kept whatever the outcome.\<close>

definition keeps :: "('w \<Rightarrow> bool) \<Rightarrow> ('w, 'a) io \<Rightarrow> bool" where
  "keeps I m \<longleftrightarrow> (\<forall>w. I w \<longrightarrow> I (snd (m w)))"

lemma triple_Inr: "triple P m Q E \<Longrightarrow> P w \<Longrightarrow> m w = (Inr x, w') \<Longrightarrow> Q x w'"
  by (fastforce simp: triple_def split: prod.splits sum.splits)

lemma triple_Inl: "triple P m Q E \<Longrightarrow> P w \<Longrightarrow> m w = (Inl e, w') \<Longrightarrow> E e w'"
  by (fastforce simp: triple_def split: prod.splits sum.splits)

lemma tripleI:
  "(\<And>w x w'. P w \<Longrightarrow> m w = (Inr x, w') \<Longrightarrow> Q x w') \<Longrightarrow>
   (\<And>w e w'. P w \<Longrightarrow> m w = (Inl e, w') \<Longrightarrow> E e w') \<Longrightarrow> triple P m Q E"
  by (auto simp: triple_def split: prod.splits sum.splits)

lemma triple_ret [triple_intros]: "(\<And>w. P w \<Longrightarrow> Q x w) \<Longrightarrow> triple P (ret x) Q E"
  by (auto simp: triple_def)

lemma triple_fail [triple_intros]: "(\<And>w. P w \<Longrightarrow> E e w) \<Longrightarrow> triple P (fail e) Q E"
  by (auto simp: triple_def)

lemma triple_bind:
  "triple P m R E \<Longrightarrow> (\<And>x. triple (R x) (f x) Q E) \<Longrightarrow> triple P (bindE m f) Q E"
  by (fastforce simp: triple_def bindE_def split: prod.splits sum.splits)

lemma triple_wrap: "triple P m Q (\<lambda>e. E (onError g e)) \<Longrightarrow> triple P (wrapE g m) Q E"
  by (fastforce simp: triple_def wrapE_def tryE_def split: prod.splits sum.splits)

lemma triple_try:
  "triple P m R S \<Longrightarrow> (\<And>e. triple (S e) (h e) Q E) \<Longrightarrow> (\<And>x. triple (R x) (f x) Q E)
   \<Longrightarrow> triple P (tryE m h f) Q E"
  by (fastforce simp: triple_def tryE_def split: prod.splits sum.splits)

lemma triple_if:
  "(b \<Longrightarrow> triple P m Q E) \<Longrightarrow> (\<not> b \<Longrightarrow> triple P n Q E) \<Longrightarrow> triple P (if b then m else n) Q E"
  by simp

lemma triple_conseq:
  "triple P m Q E \<Longrightarrow> (\<And>w. P' w \<Longrightarrow> P w) \<Longrightarrow> (\<And>x w. Q x w \<Longrightarrow> Q' x w) \<Longrightarrow>
   (\<And>e w. E e w \<Longrightarrow> E' e w) \<Longrightarrow> triple P' m Q' E'"
  by (fastforce simp: triple_def split: prod.splits sum.splits)

text \<open>A fact that does not depend on the world is a hypothesis of the triple.\<close>

lemma triple_pure: "(b \<Longrightarrow> triple P m Q E) \<Longrightarrow> triple (\<lambda>w. b \<and> P w) m Q E"
  by (auto simp: triple_def)

lemma keeps_triple: "keeps I m \<longleftrightarrow> triple I m (\<lambda>_. I) (\<lambda>_. I)"
  unfolding keeps_def triple_def
  by (rule all_cong1) (auto split: prod.splits sum.splits)

text \<open>What an operation keeps can be carried along with what it establishes.\<close>

lemma triple_and:
  "keeps I m \<Longrightarrow> triple (\<lambda>_. True) m Q (\<lambda>_ _. True) \<Longrightarrow> triple I m (\<lambda>x w. I w \<and> Q x w) (\<lambda>_ _. True)"
  unfolding keeps_triple by (fastforce simp: triple_def split: prod.splits sum.splits)

lemma keeps_ret [simp, triple_intros]: "keeps I (ret x)"
  by (simp add: keeps_def)

lemma keeps_fail [simp, triple_intros]: "keeps I (fail e)"
  by (simp add: keeps_def)

lemma keeps_liftE [simp, triple_intros]: "keeps I (liftE r)"
  by (simp add: keeps_def)

lemma keeps_bind [triple_intros]:
  "keeps I m \<Longrightarrow> (\<And>x. keeps I (f x)) \<Longrightarrow> keeps I (bindE m f)"
  unfolding keeps_triple by (rule triple_bind)

lemma keeps_try [triple_intros]:
  "keeps I m \<Longrightarrow> (\<And>e. keeps I (h e)) \<Longrightarrow> (\<And>x. keeps I (f x)) \<Longrightarrow> keeps I (tryE m h f)"
  unfolding keeps_triple by (rule triple_try)

lemma keeps_if [triple_intros]:
  "(b \<Longrightarrow> keeps I m) \<Longrightarrow> (\<not> b \<Longrightarrow> keeps I n) \<Longrightarrow> keeps I (if b then m else n)"
  by simp

lemma keeps_wrap [triple_intros]: "keeps I m \<Longrightarrow> keeps I (wrapE g m)"
  by (simp add: wrapE_def keeps_try)

section \<open>Lists\<close>

text \<open>The last element that satisfies a predicate, and the first one.\<close>

definition find_last :: "('a \<Rightarrow> bool) \<Rightarrow> 'a list \<Rightarrow> 'a option" where
  "find_last p xs = find p (rev xs)"

lemma find_last_Nil [simp]: "find_last p [] = None"
  by (simp add: find_last_def)

lemma find_append: "find p (xs @ ys) = (case find p xs of None \<Rightarrow> find p ys | Some x \<Rightarrow> Some x)"
  by (induction xs) auto

lemma find_last_Cons [simp]:
  "find_last p (x # xs) = (case find_last p xs of None \<Rightarrow> if p x then Some x else None | Some y \<Rightarrow> Some y)"
  by (cases "find p (rev xs)") (simp_all add: find_last_def find_append)

lemma find_SomeD: "find p xs = Some x \<Longrightarrow> x \<in> set xs \<and> p x"
  by (induction xs) (auto split: if_splits)

lemma find_None: "find p xs = None \<longleftrightarrow> (\<forall>x \<in> set xs. \<not> p x)"
  by (auto simp: find_None_iff)

lemma find_last_SomeD: "find_last p xs = Some x \<Longrightarrow> x \<in> set xs \<and> p x"
  by (auto simp: find_last_def dest: find_SomeD)

lemma find_last_None: "find_last p xs = None \<longleftrightarrow> (\<forall>x \<in> set xs. \<not> p x)"
  by (simp add: find_last_def find_None)


section \<open>Options\<close>

lemma rel_option_trans:
  "(\<And>a b c. R a b \<Longrightarrow> S b c \<Longrightarrow> T a c) \<Longrightarrow> rel_option R x y \<Longrightarrow> rel_option S y z \<Longrightarrow>
   rel_option T x z"
  by (cases x; cases y; cases z) auto

section \<open>Rounds that get nearer to an end\<close>

text \<open>
  A process that goes round after round: each round keeps an invariant and either brings
  the measure down or finds it at 0 and leaves it there. Then a number of rounds that the
  first state bounds is enough.
\<close>

locale measured_rounds =
  fixes step :: "'s \<Rightarrow> 's \<Rightarrow> bool" and inv :: "'s \<Rightarrow> bool" and left :: "'s \<Rightarrow> nat"
  assumes nearer: "step s t \<Longrightarrow> inv s \<Longrightarrow> inv t \<and> (left t < left s \<or> (left s = 0 \<and> left t = 0))"
begin

lemma rounds: "(step ^^ k) s t \<Longrightarrow> inv s \<Longrightarrow> inv t \<and> left t \<le> left s - k"
proof (induction k arbitrary: t)
  case 0
  then show ?case by simp
next
  case (Suc k)
  then obtain u where "(step ^^ k) s u" and last: "step u t" by auto
  with Suc have "inv u" "left u \<le> left s - k" by blast+
  with nearer [OF last] show ?case by auto
qed

lemma enough_rounds: "(step ^^ k) s t \<Longrightarrow> inv s \<Longrightarrow> left s \<le> k \<Longrightarrow> inv t \<and> left t = 0"
  using rounds by fastforce

end

end
