(* ===== verification/Objects.thy ===== *)
theory Objects
  imports Prelude
begin

text \<open>
  The Kubernetes and KMM objects the operator reads and writes, with the fields its code
  touches (the types are those of k8s.io/api and of the KMM API; a field no code of the
  repository reads or writes is left out). A composite literal of the source that omits
  fields leaves them at their zero value: each type has its zero constant, and a literal
  is an update of it. A pointer field is an option, a nil-able map a \<open>gomap\<close>.
\<close>

section \<open>Metadata, nodes\<close>

text \<open>A namespaced name: namespace first. Cluster-scoped objects have the empty namespace.\<close>

datatype nsname = NN string string

record OwnerReference =
  or_APIVersion :: string
  or_Kind :: string
  or_Name :: string
  or_UID :: string
  or_Controller :: "bool option"
  or_BlockOwnerDeletion :: "bool option"

record ObjectMeta =
  om_Name :: string
  om_Namespace :: string
  om_Labels :: gomap
  om_Finalizers :: "string list"
  om_OwnerReferences :: "OwnerReference list"
  om_DeletionTimestamp :: "string option"

definition zeroMeta :: ObjectMeta where
  "zeroMeta = \<lparr>om_Name = [], om_Namespace = [], om_Labels = None, om_Finalizers = [],
     om_OwnerReferences = [], om_DeletionTimestamp = None\<rparr>"

definition keyOf :: "ObjectMeta \<Rightarrow> nsname" where
  "keyOf m = NN (om_Namespace m) (om_Name m)"

lemma keyOf_update [simp]:
  "keyOf (m\<lparr>om_Labels := ls\<rparr>) = keyOf m" "keyOf (m\<lparr>om_Finalizers := fs\<rparr>) = keyOf m"
  "keyOf (m\<lparr>om_OwnerReferences := os\<rparr>) = keyOf m" "keyOf (m\<lparr>om_DeletionTimestamp := t\<rparr>) = keyOf m"
  by (simp_all add: keyOf_def)

lemma keyOf_zeroMeta [simp]: "keyOf (zeroMeta\<lparr>om_Namespace := ns, om_Name := nm\<rparr>) = NN ns nm"
  by (simp add: keyOf_def)

record Taint =
  taint_Key :: string
  taint_Value :: string
  taint_Effect :: string

definition TaintEffectNoExecute :: string where "TaintEffectNoExecute = ''NoExecute''"
definition TaintEffectNoSchedule :: string where "TaintEffectNoSchedule = ''NoSchedule''"

record Node =
  node_Meta :: ObjectMeta
  node_Taints :: "Taint list"

abbreviation node_Name :: "Node \<Rightarrow> string" where
  "node_Name n \<equiv> om_Name (node_Meta n)"

abbreviation node_Labels :: "Node \<Rightarrow> gomap" where
  "node_Labels n \<equiv> om_Labels (node_Meta n)"

definition nodeSetLabels :: "gomap \<Rightarrow> Node \<Rightarrow> Node" where
  "nodeSetLabels ls n = n\<lparr>node_Meta := (node_Meta n)\<lparr>om_Labels := ls\<rparr>\<rparr>"

lemma nodeSetLabels_simps [simp]:
  "node_Labels (nodeSetLabels ls n) = ls" "node_Name (nodeSetLabels ls n) = node_Name n"
  "node_Taints (nodeSetLabels ls n) = node_Taints n"
  "keyOf (node_Meta (nodeSetLabels ls n)) = keyOf (node_Meta n)"
  by (simp_all add: nodeSetLabels_def keyOf_def)

record Toleration =
  tol_Key :: string
  tol_Operator :: string
  tol_Value :: string
  tol_Effect :: string

definition zeroToleration :: Toleration where
  "zeroToleration = \<lparr>tol_Key = [], tol_Operator = [], tol_Value = [], tol_Effect = []\<rparr>"

section \<open>Pods\<close>

record VolumeMount =
  vm_Name :: string
  vm_MountPath :: string
  vm_SubPath :: string
  vm_ReadOnly :: bool

definition zeroVolumeMount :: VolumeMount where
  "zeroVolumeMount = \<lparr>vm_Name = [], vm_MountPath = [], vm_SubPath = [], vm_ReadOnly = False\<rparr>"

text \<open>Projections and volume sources: exactly one of the pointers of the struct is set.\<close>

datatype VolumeProjection =
    ServiceAccountToken string int
  | ConfigMapItems string "(string \<times> string) list"
  | DownwardAPI "(string \<times> string) list"

datatype VolumeSource =
    HostPath string string
  | ConfigMapVolume string
  | Projected int "VolumeProjection list"

record Volume =
  vol_Name :: string
  vol_Source :: VolumeSource

text \<open>An environment variable: a value, or the path of a field of the pod.\<close>

record EnvVar =
  env_Name :: string
  env_Value :: string
  env_FieldPath :: "string option"

record Probe =
  probe_InitialDelaySeconds :: int
  probe_Path :: string
  probe_Port :: int
  probe_Scheme :: string

record SecurityContext =
  sc_Privileged :: "bool option"
  sc_RunAsUser :: "int option"

record ContainerPort =
  port_Name :: string
  port_HostPort :: int
  port_ContainerPort :: int
  port_Protocol :: string

text \<open>\<open>resource.MustParse\<close> is library code: a quantity is kept as the text it parses.\<close>

datatype Quantity = MustParse string

record ResourceRequirements =
  res_Requests :: "string \<rightharpoonup> Quantity"
  res_Limits :: "string \<rightharpoonup> Quantity"

record Container =
  c_Name :: string
  c_Image :: string
  c_Command :: "string list"
  c_Args :: "string list"
  c_Env :: "EnvVar list"
  c_ImagePullPolicy :: string
  c_LivenessProbe :: "Probe option"
  c_ReadinessProbe :: "Probe option"
  c_Resources :: ResourceRequirements
  c_SecurityContext :: "SecurityContext option"
  c_VolumeMounts :: "VolumeMount list"
  c_Ports :: "ContainerPort list"

definition zeroContainer :: Container where
  "zeroContainer = \<lparr>c_Name = [], c_Image = [], c_Command = [], c_Args = [], c_Env = [],
     c_ImagePullPolicy = [], c_LivenessProbe = None, c_ReadinessProbe = None,
     c_Resources = \<lparr>res_Requests = Map.empty, res_Limits = Map.empty\<rparr>,
     c_SecurityContext = None, c_VolumeMounts = [], c_Ports = []\<rparr>"

record PodSpec =
  pod_Containers :: "Container list"
  pod_NodeSelector :: gomap
  pod_ServiceAccountName :: string
  pod_Volumes :: "Volume list"
  pod_PriorityClassName :: string
  pod_SchedulerName :: string

definition zeroPodSpec :: PodSpec where
  "zeroPodSpec = \<lparr>pod_Containers = [], pod_NodeSelector = None, pod_ServiceAccountName = [],
     pod_Volumes = [], pod_PriorityClassName = [], pod_SchedulerName = []\<rparr>"

record PodTemplateSpec =
  tmpl_Labels :: gomap
  tmpl_Spec :: PodSpec

definition zeroTemplate :: PodTemplateSpec where
  "zeroTemplate = \<lparr>tmpl_Labels = None, tmpl_Spec = zeroPodSpec\<rparr>"

section \<open>Workloads and config maps\<close>

text \<open>A label selector holds its \<open>MatchLabels\<close> only (no code sets expressions).\<close>

record DaemonSetSpec =
  dss_Selector :: "gomap option"
  dss_Template :: PodTemplateSpec

definition zeroDaemonSetSpec :: DaemonSetSpec where
  "zeroDaemonSetSpec = \<lparr>dss_Selector = None, dss_Template = zeroTemplate\<rparr>"

record DaemonSet =
  ds_Meta :: ObjectMeta
  ds_Spec :: DaemonSetSpec

record DeploymentSpec =
  dps_Replicas :: "int option"
  dps_Strategy :: string
  dps_Selector :: "gomap option"
  dps_Template :: PodTemplateSpec

definition zeroDeploymentSpec :: DeploymentSpec where
  "zeroDeploymentSpec = \<lparr>dps_Replicas = None, dps_Strategy = [], dps_Selector = None,
     dps_Template = zeroTemplate\<rparr>"

record Deployment =
  dep_Meta :: ObjectMeta
  dep_Spec :: DeploymentSpec

record ConfigMap =
  cm_Meta :: ObjectMeta
  cm_Data :: gomap

section \<open>KMM modules\<close>

text \<open>A build: the config map with the dockerfile, and the build arguments.\<close>

record Build =
  build_DockerfileConfigMap :: "string option"
  build_BuildArgs :: "(string \<times> string) list"

record KernelMapping =
  km_Regexp :: string
  km_ContainerImage :: string
  km_InTreeModulesToRemove :: "string list"
  km_Build :: "Build option"

record ModuleLoaderSpec =
  ml_ModuleName :: string
  ml_KernelMappings :: "KernelMapping list"
  ml_ImagePullPolicy :: string
  ml_Version :: string
  ml_ServiceAccountName :: string

record DevicePluginSpec =
  dp_ServiceAccountName :: string
  dp_Image :: string
  dp_Env :: "EnvVar list"
  dp_VolumeMounts :: "VolumeMount list"
  dp_Volumes :: "Volume list"
  dp_AutomountServiceAccountToken :: "bool option"

text \<open>
  A device selector holds its CEL expression; a device class configuration is only
  copied and stands here as its serialised form.
\<close>

datatype DeviceSelector = CEL string

type_synonym DeviceClassConfiguration = string

record DeviceClass =
  cls_Name :: string
  cls_Selectors :: "DeviceSelector list"
  cls_Config :: "DeviceClassConfiguration list"

record DRASpec =
  dra_Image :: string
  dra_Command :: "string list"
  dra_Resources :: ResourceRequirements
  dra_ServiceAccountName :: string
  dra_DriverName :: string
  dra_DeviceClasses :: "DeviceClass list"

record ModuleSpec =
  ms_ModuleLoader :: "ModuleLoaderSpec option"
  ms_DevicePlugin :: "DevicePluginSpec option"
  ms_DRA :: "DRASpec option"
  ms_ImageRepoSecret :: "string option"
  ms_Selector :: gomap
  ms_Tolerations :: "Toleration list"

definition zeroModuleSpec :: ModuleSpec where
  "zeroModuleSpec = \<lparr>ms_ModuleLoader = None, ms_DevicePlugin = None, ms_DRA = None,
     ms_ImageRepoSecret = None, ms_Selector = None, ms_Tolerations = []\<rparr>"

record Module =
  mod_Meta :: ObjectMeta
  mod_Spec :: ModuleSpec

end
