(* ===== verification/Api_V1beta1.thy ===== *)
theory Api_V1beta1
  imports Objects
begin

text \<open>
  The operator's own API (api/v1beta1/deviceconfig_types.go): the DeviceConfig resource
  and the validation rules its types carry for the API server.
\<close>

definition PCIVendorID :: string where "PCIVendorID = ''1d0f''"

record DeviceClassSpec =
  dcs_Name :: string
  dcs_Selectors :: "DeviceSelector list"
  dcs_Config :: "DeviceClassConfiguration list"

record DeviceConfigSpec =
  UseInTreeDrivers :: bool
  DriversImage :: string
  DriverVersion :: string
  DevicePluginImage :: string
  CustomSchedulerImage :: string
  SchedulerExtensionImage :: string
  DRADriverImage :: string
  DeviceClasses :: "DeviceClassSpec list"
  NodeMetricsImage :: string
  ImageRepoSecret :: "string option"
  Selector :: gomap

record DeploymentStatus =
  NodesMatchingSelectorNumber :: int
  DesiredNumber :: int
  AvailableNumber :: int

record DeviceConfigStatus =
  st_DevicePlugin :: DeploymentStatus
  st_Drivers :: DeploymentStatus

record DeviceConfig =
  dc_Meta :: ObjectMeta
  dc_Spec :: DeviceConfigSpec
  dc_Status :: DeviceConfigStatus

abbreviation dc_Name :: "DeviceConfig \<Rightarrow> string" where
  "dc_Name d \<equiv> om_Name (dc_Meta d)"

abbreviation dc_Namespace :: "DeviceConfig \<Rightarrow> string" where
  "dc_Namespace d \<equiv> om_Namespace (dc_Meta d)"

definition zeroSpec :: DeviceConfigSpec where
  "zeroSpec = \<lparr>UseInTreeDrivers = False, DriversImage = [], DriverVersion = [],
     DevicePluginImage = [], CustomSchedulerImage = [], SchedulerExtensionImage = [],
     DRADriverImage = [], DeviceClasses = [], NodeMetricsImage = [], ImageRepoSecret = None,
     Selector = None\<rparr>"

definition zeroStatus :: DeploymentStatus where
  "zeroStatus = \<lparr>NodesMatchingSelectorNumber = 0, DesiredNumber = 0, AvailableNumber = 0\<rparr>"

definition zeroDeviceConfig :: DeviceConfig where
  "zeroDeviceConfig = \<lparr>dc_Meta = zeroMeta, dc_Spec = zeroSpec,
     dc_Status = \<lparr>st_DevicePlugin = zeroStatus, st_Drivers = zeroStatus\<rparr>\<rparr>"

section \<open>Admission\<close>

text \<open>
  The two validation rules on the type: the DRA driver image excludes the three
  device-plugin images, and of those three either all or none are set. (A field that is
  absent and a field of size 0 count alike.)
\<close>

definition draExclusive :: "DeviceConfigSpec \<Rightarrow> bool" where
  "draExclusive s \<longleftrightarrow> \<not> (0 < length (DRADriverImage s) \<and>
     (0 < length (DevicePluginImage s) \<or> 0 < length (CustomSchedulerImage s) \<or>
      0 < length (SchedulerExtensionImage s)))"

definition pluginImagesTogether :: "DeviceConfigSpec \<Rightarrow> bool" where
  "pluginImagesTogether s \<longleftrightarrow>
     (if 0 < length (DevicePluginImage s) \<or> 0 < length (CustomSchedulerImage s) \<or>
         0 < length (SchedulerExtensionImage s)
      then 0 < length (DevicePluginImage s) \<and> 0 < length (CustomSchedulerImage s) \<and>
         0 < length (SchedulerExtensionImage s)
      else True)"

definition admitted :: "DeviceConfigSpec \<Rightarrow> bool" where
  "admitted s \<longleftrightarrow> draExclusive s \<and> pluginImagesTogether s"

text \<open>The modes an admitted spec can be in.\<close>

datatype mode = DRAMode | PluginMode | DriverOnly

definition modeOf :: "DeviceConfigSpec \<Rightarrow> mode" where
  "modeOf s = (if DRADriverImage s \<noteq> [] then DRAMode
     else if DevicePluginImage s \<noteq> [] then PluginMode else DriverOnly)"

lemma admitted_modes:
  "admitted s \<Longrightarrow> modeOf s = DRAMode \<Longrightarrow>
     DevicePluginImage s = [] \<and> CustomSchedulerImage s = [] \<and> SchedulerExtensionImage s = []"
  "admitted s \<Longrightarrow> modeOf s = PluginMode \<Longrightarrow>
     DRADriverImage s = [] \<and> CustomSchedulerImage s \<noteq> [] \<and> SchedulerExtensionImage s \<noteq> []"
  "admitted s \<Longrightarrow> modeOf s = DriverOnly \<Longrightarrow> DRADriverImage s = [] \<and>
     DevicePluginImage s = [] \<and> CustomSchedulerImage s = [] \<and> SchedulerExtensionImage s = []"
  by (auto simp: admitted_def draExclusive_def pluginImagesTogether_def modeOf_def
      split: if_splits)

end
