(* ===== verification/Client.thy ===== *)
theory Client
  imports Api_V1beta1
begin

text \<open>
  What the operator calls and does not contain. The Kubernetes client
  (sigs.k8s.io/controller-runtime) and the helper functions of controller-runtime, of
  k8s.io/apimachinery and of the KMM label package are parameters: the records
  \<open>client\<close> and \<open>library\<close> below, which every definition that uses them takes as an
  argument. What the code relies on is stated by the predicates \<open>lawful...\<close>, which are
  hypotheses of the theorems that need them. Theory Memory gives one concrete instance, an
  API server in memory, that satisfies all of them.
\<close>

section \<open>The parameters\<close>

text \<open>
  The client for one kind of object. Get reads one object, List the objects whose labels
  match, CreateOrPatch and CreateOrUpdate (controllerutil) take the object to start from
  and the mutate function, Patch takes the object and the base its merge patch is
  computed from and returns the object as the server answered it.
\<close>

record ('w, 'o) api =
  apiGet :: "nsname \<Rightarrow> ('w, 'o) io"
  apiList :: "gomap \<Rightarrow> ('w, 'o list) io"
  apiCreateOrPatch :: "'o \<Rightarrow> ('o \<Rightarrow> goerr + 'o) \<Rightarrow> ('w, 'o) io"
  apiCreateOrUpdate :: "'o \<Rightarrow> ('o \<Rightarrow> goerr + 'o) \<Rightarrow> ('w, 'o) io"
  apiPatch :: "'o \<Rightarrow> 'o \<Rightarrow> ('w, 'o) io"
  apiDelete :: "'o \<Rightarrow> ('w, unit) io"

record 'w client =
  Nodes :: "('w, Node) api"
  Modules :: "('w, Module) api"
  DaemonSets :: "('w, DaemonSet) api"
  Deployments :: "('w, Deployment) api"
  ConfigMaps :: "('w, ConfigMap) api"
  DeviceConfigs :: "('w, DeviceConfig) api"

record library =
  isNotFound :: "goerr \<Rightarrow> bool"
  setControllerReference :: "DeviceConfig \<Rightarrow> ObjectMeta \<Rightarrow> goerr + ObjectMeta"
  containsFinalizer :: "string list \<Rightarrow> string \<Rightarrow> bool"
  addFinalizer :: "string list \<Rightarrow> string \<Rightarrow> string list"
  removeFinalizer :: "string list \<Rightarrow> string \<Rightarrow> string list"
  getModuleVersionLabelName :: "string \<Rightarrow> string \<Rightarrow> string"
  getKernelModuleVersionReadyNodeLabel :: "string \<Rightarrow> string \<Rightarrow> string"
  getKernelModuleReadyNodeLabel :: "string \<Rightarrow> string \<Rightarrow> string"

section \<open>The cluster behind the client\<close>

record cluster =
  cl_Nodes :: "nsname \<rightharpoonup> Node"
  cl_Modules :: "nsname \<rightharpoonup> Module"
  cl_DaemonSets :: "nsname \<rightharpoonup> DaemonSet"
  cl_Deployments :: "nsname \<rightharpoonup> Deployment"
  cl_ConfigMaps :: "nsname \<rightharpoonup> ConfigMap"
  cl_DeviceConfigs :: "nsname \<rightharpoonup> DeviceConfig"

text \<open>Equality-based label selection: a nil or empty selector selects everything.\<close>

definition selects :: "gomap \<Rightarrow> gomap \<Rightarrow> bool" where
  "selects sel ls \<longleftrightarrow> (\<forall>k. mapGet sel k \<noteq> None \<longrightarrow> mapGet ls k = mapGet sel k)"

lemma selects_None [simp]: "selects None ls"
  by (simp add: selects_def)

lemma selects_empty [simp]: "selects (Some Map.empty) ls"
  by (simp add: selects_def)

lemma selects_upd [simp]:
  "selects (Some (m(k \<mapsto> v))) ls \<longleftrightarrow> mapGet ls k = Some v \<and> selects (Some (m(k := None))) ls"
  by (auto simp: selects_def)

lemma selects_cong: "(\<And>k. mapGet ls k = mapGet ls' k) \<Longrightarrow> selects sel ls = selects sel ls'"
  by (simp add: selects_def)

text \<open>
  A merge patch (RFC 7386) computed from \<open>base\<close> to \<open>obj\<close> and applied to the server's
  object: a label that differs between the two is set or removed, every other label stays
  as the server has it; a list that differs is replaced as a whole.
\<close>

definition mergedLabel :: "gomap \<Rightarrow> gomap \<Rightarrow> gomap \<Rightarrow> string \<Rightarrow> string option" where
  "mergedLabel base obj srv k =
     (if mapGet obj k = mapGet base k then mapGet srv k else mapGet obj k)"

definition mergedList :: "'a list \<Rightarrow> 'a list \<Rightarrow> 'a list \<Rightarrow> 'a list" where
  "mergedList base obj srv = (if obj = base then srv else obj)"

definition nodeMerged :: "Node \<Rightarrow> Node \<Rightarrow> Node \<Rightarrow> Node \<Rightarrow> bool" where
  "nodeMerged base obj srv new \<longleftrightarrow>
     (\<forall>k. mapGet (node_Labels new) k =
          mergedLabel (node_Labels base) (node_Labels obj) (node_Labels srv) k) \<and>
     new = srv\<lparr>node_Meta := (node_Meta srv)\<lparr>om_Labels := node_Labels new\<rparr>,
       node_Taints := mergedList (node_Taints base) (node_Taints obj) (node_Taints srv)\<rparr>"

definition dcMerged :: "DeviceConfig \<Rightarrow> DeviceConfig \<Rightarrow> DeviceConfig \<Rightarrow> DeviceConfig" where
  "dcMerged base obj srv = srv\<lparr>dc_Meta := (dc_Meta srv)\<lparr>om_Finalizers :=
     mergedList (om_Finalizers (dc_Meta base)) (om_Finalizers (dc_Meta obj))
       (om_Finalizers (dc_Meta srv))\<rparr>\<rparr>"

section \<open>What the code relies on\<close>

text \<open>
  Reads change nothing; a read that succeeds returns what is stored, and a not-found
  error means that nothing is.
\<close>

definition lawfulGet ::
  "library \<Rightarrow> (nsname \<Rightarrow> ('w, 'o) io) \<Rightarrow> ('w \<Rightarrow> cluster) \<Rightarrow> (cluster \<Rightarrow> nsname \<rightharpoonup> 'o) \<Rightarrow> bool"
  where "lawfulGet lib op cl sel \<longleftrightarrow> (\<forall>k w.
    cl (snd (op k w)) = cl w \<and>
    (case fst (op k w) of Inr x \<Rightarrow> sel (cl w) k = Some x
       | Inl e \<Rightarrow> isNotFound lib e \<longrightarrow> sel (cl w) k = None))"

definition lawfulList ::
  "(gomap \<Rightarrow> ('w, 'o list) io) \<Rightarrow> ('o \<Rightarrow> ObjectMeta) \<Rightarrow> ('w \<Rightarrow> cluster) \<Rightarrow>
   (cluster \<Rightarrow> nsname \<rightharpoonup> 'o) \<Rightarrow> bool"
  where "lawfulList op meta cl sel \<longleftrightarrow> (\<forall>s w.
    cl (snd (op s w)) = cl w \<and>
    (case fst (op s w) of Inl e \<Rightarrow> True | Inr xs \<Rightarrow>
       distinct (map (\<lambda>x. keyOf (meta x)) xs) \<and>
       set xs = {x. sel (cl w) (keyOf (meta x)) = Some x \<and> selects s (om_Labels (meta x))}))"

text \<open>
  A write that succeeds has taken effect; one that returns an error may or may not have
  (the request can be lost, or its answer).
\<close>

definition lawfulPatchNode :: "('w, Node) api \<Rightarrow> ('w \<Rightarrow> cluster) \<Rightarrow> bool" where
  "lawfulPatchNode a cl \<longleftrightarrow> (\<forall>obj base w. let k = keyOf (node_Meta obj);
     done = (\<lambda>w' new. \<exists>srv. cl_Nodes (cl w) k = Some srv \<and> nodeMerged base obj srv new \<and>
       cl w' = (cl w)\<lparr>cl_Nodes := (cl_Nodes (cl w))(k \<mapsto> new)\<rparr>)
     in case apiPatch a obj base w of (Inr new, w') \<Rightarrow> done w' new
        | (Inl e, w') \<Rightarrow> cl w' = cl w \<or> (\<exists>new. done w' new))"

text \<open>
  The server removes an object that is marked for deletion once its last finalizer is
  gone.
\<close>

definition storeDC :: "DeviceConfig \<Rightarrow> cluster \<Rightarrow> cluster" where
  "storeDC d c = c\<lparr>cl_DeviceConfigs := (cl_DeviceConfigs c)(keyOf (dc_Meta d) :=
     (if om_Finalizers (dc_Meta d) = [] \<and> om_DeletionTimestamp (dc_Meta d) \<noteq> None
      then None else Some d))\<rparr>"

definition lawfulPatchDC :: "('w, DeviceConfig) api \<Rightarrow> ('w \<Rightarrow> cluster) \<Rightarrow> bool" where
  "lawfulPatchDC a cl \<longleftrightarrow> (\<forall>obj base w. let k = keyOf (dc_Meta obj);
     done = (\<lambda>w' new. \<exists>srv. cl_DeviceConfigs (cl w) k = Some srv \<and>
       new = dcMerged base obj srv \<and> cl w' = storeDC new (cl w))
     in case apiPatch a obj base w of (Inr new, w') \<Rightarrow> done w' new
        | (Inl e, w') \<Rightarrow> cl w' = cl w \<or> (\<exists>new. done w' new))"

text \<open>
  CreateOrPatch and CreateOrUpdate run the mutate function on the stored object, or on
  the given one when none is stored, and store its result under the same key. The server
  fills in no defaults for fields that are left empty: what is said of stored objects holds
  up to such defaults.
\<close>

definition lawfulUpsert ::
  "('o \<Rightarrow> ('o \<Rightarrow> goerr + 'o) \<Rightarrow> ('w, 'o) io) \<Rightarrow> ('o \<Rightarrow> ObjectMeta) \<Rightarrow> ('w \<Rightarrow> cluster) \<Rightarrow>
   (cluster \<Rightarrow> nsname \<rightharpoonup> 'o) \<Rightarrow> ((nsname \<rightharpoonup> 'o) \<Rightarrow> cluster \<Rightarrow> cluster) \<Rightarrow> bool"
  where "lawfulUpsert op meta cl sel put \<longleftrightarrow> (\<forall>x f w. let k = keyOf (meta x);
     cur = (case sel (cl w) k of None \<Rightarrow> x | Some y \<Rightarrow> y);
     done = (\<lambda>w' new. f cur = Inr new \<and> keyOf (meta new) = k \<and>
       cl w' = put ((sel (cl w))(k \<mapsto> new)) (cl w))
     in case op x f w of (Inr new, w') \<Rightarrow> done w' new
        | (Inl e, w') \<Rightarrow> cl w' = cl w \<or> (\<exists>new. done w' new))"

text \<open>
  Delete removes the object, or marks it when finalizers hold it back, and touches
  nothing else; a not-found error means that the object is gone.
\<close>

definition lawfulDelete ::
  "library \<Rightarrow> ('o \<Rightarrow> ('w, unit) io) \<Rightarrow> ('o \<Rightarrow> ObjectMeta) \<Rightarrow> ('w \<Rightarrow> cluster) \<Rightarrow>
   (cluster \<Rightarrow> nsname \<rightharpoonup> 'o) \<Rightarrow> ((nsname \<rightharpoonup> 'o) \<Rightarrow> cluster \<Rightarrow> cluster) \<Rightarrow> bool"
  where "lawfulDelete lib op meta cl sel put \<longleftrightarrow> (\<forall>x w. let k = keyOf (meta x);
     done = (\<lambda>w'. \<exists>r. cl w' = put ((sel (cl w))(k := r)) (cl w) \<and>
       (case r of None \<Rightarrow> True | Some y \<Rightarrow> keyOf (meta y) = k \<and> om_DeletionTimestamp (meta y) \<noteq> None))
     in case op x w of (Inr u, w') \<Rightarrow> done w'
        | (Inl e, w') \<Rightarrow> (cl w' = cl w \<or> done w') \<and> (isNotFound lib e \<longrightarrow> sel (cl w') k = None))"

text \<open>All objects the cluster holds are stored under their own name.\<close>

definition keyed :: "('o \<Rightarrow> ObjectMeta) \<Rightarrow> (nsname \<rightharpoonup> 'o) \<Rightarrow> bool" where
  "keyed meta m \<longleftrightarrow> (\<forall>k x. m k = Some x \<longrightarrow> keyOf (meta x) = k)"

definition wellKeyed :: "cluster \<Rightarrow> bool" where
  "wellKeyed c \<longleftrightarrow> keyed node_Meta (cl_Nodes c) \<and> keyed mod_Meta (cl_Modules c) \<and>
     keyed ds_Meta (cl_DaemonSets c) \<and> keyed dep_Meta (cl_Deployments c) \<and>
     keyed cm_Meta (cl_ConfigMaps c) \<and> keyed dc_Meta (cl_DeviceConfigs c)"

lemma keyedD: "keyed meta m \<Longrightarrow> m k = Some x \<Longrightarrow> keyOf (meta x) = k"
  by (simp add: keyed_def)

lemma wellKeyed_key:
  "wellKeyed c \<Longrightarrow> cl_Nodes c k = Some n \<Longrightarrow> keyOf (node_Meta n) = k"
  "wellKeyed c \<Longrightarrow> cl_Modules c k = Some m \<Longrightarrow> keyOf (mod_Meta m) = k"
  "wellKeyed c \<Longrightarrow> cl_DaemonSets c k = Some s \<Longrightarrow> keyOf (ds_Meta s) = k"
  "wellKeyed c \<Longrightarrow> cl_DeviceConfigs c k = Some d \<Longrightarrow> keyOf (dc_Meta d) = k"
  by (auto simp: wellKeyed_def dest: keyedD)

definition lawfulClient :: "library \<Rightarrow> 'w client \<Rightarrow> ('w \<Rightarrow> cluster) \<Rightarrow> bool" where
  "lawfulClient lib c cl \<longleftrightarrow>
     (\<forall>w. wellKeyed (cl w)) \<and>
     lawfulList (apiList (Nodes c)) node_Meta cl cl_Nodes \<and>
     lawfulPatchNode (Nodes c) cl \<and>
     lawfulGet lib (apiGet (DaemonSets c)) cl cl_DaemonSets \<and>
     lawfulGet lib (apiGet (Modules c)) cl cl_Modules \<and>
     lawfulGet lib (apiGet (ConfigMaps c)) cl cl_ConfigMaps \<and>
     lawfulList (apiList (DeviceConfigs c)) dc_Meta cl cl_DeviceConfigs \<and>
     lawfulPatchDC (DeviceConfigs c) cl \<and>
     lawfulDelete lib (apiDelete (DaemonSets c)) ds_Meta cl cl_DaemonSets (\<lambda>m. cl_DaemonSets_update (\<lambda>_. m)) \<and>
     lawfulDelete lib (apiDelete (Modules c)) mod_Meta cl cl_Modules (\<lambda>m. cl_Modules_update (\<lambda>_. m)) \<and>
     lawfulUpsert (apiCreateOrPatch (ConfigMaps c)) cm_Meta cl cl_ConfigMaps (\<lambda>m. cl_ConfigMaps_update (\<lambda>_. m)) \<and>
     lawfulUpsert (apiCreateOrUpdate (ConfigMaps c)) cm_Meta cl cl_ConfigMaps (\<lambda>m. cl_ConfigMaps_update (\<lambda>_. m)) \<and>
     lawfulUpsert (apiCreateOrPatch (Modules c)) mod_Meta cl cl_Modules (\<lambda>m. cl_Modules_update (\<lambda>_. m)) \<and>
     lawfulUpsert (apiCreateOrPatch (Deployments c)) dep_Meta cl cl_Deployments (\<lambda>m. cl_Deployments_update (\<lambda>_. m)) \<and>
     lawfulUpsert (apiCreateOrPatch (DaemonSets c)) ds_Meta cl cl_DaemonSets (\<lambda>m. cl_DaemonSets_update (\<lambda>_. m))"

lemma lawfulClientD:
  assumes "lawfulClient lib c cl"
  shows "wellKeyed (cl w)"
    and "lawfulList (apiList (Nodes c)) node_Meta cl cl_Nodes"
    and "lawfulPatchNode (Nodes c) cl"
    and "lawfulGet lib (apiGet (DaemonSets c)) cl cl_DaemonSets"
    and "lawfulGet lib (apiGet (Modules c)) cl cl_Modules"
    and "lawfulGet lib (apiGet (ConfigMaps c)) cl cl_ConfigMaps"
    and "lawfulList (apiList (DeviceConfigs c)) dc_Meta cl cl_DeviceConfigs"
    and "lawfulPatchDC (DeviceConfigs c) cl"
    and "lawfulDelete lib (apiDelete (DaemonSets c)) ds_Meta cl cl_DaemonSets (\<lambda>m. cl_DaemonSets_update (\<lambda>_. m))"
    and "lawfulDelete lib (apiDelete (Modules c)) mod_Meta cl cl_Modules (\<lambda>m. cl_Modules_update (\<lambda>_. m))"
    and "lawfulUpsert (apiCreateOrPatch (ConfigMaps c)) cm_Meta cl cl_ConfigMaps (\<lambda>m. cl_ConfigMaps_update (\<lambda>_. m))"
    and "lawfulUpsert (apiCreateOrUpdate (ConfigMaps c)) cm_Meta cl cl_ConfigMaps (\<lambda>m. cl_ConfigMaps_update (\<lambda>_. m))"
    and "lawfulUpsert (apiCreateOrPatch (Modules c)) mod_Meta cl cl_Modules (\<lambda>m. cl_Modules_update (\<lambda>_. m))"
    and "lawfulUpsert (apiCreateOrPatch (Deployments c)) dep_Meta cl cl_Deployments (\<lambda>m. cl_Deployments_update (\<lambda>_. m))"
    and "lawfulUpsert (apiCreateOrPatch (DaemonSets c)) ds_Meta cl cl_DaemonSets (\<lambda>m. cl_DaemonSets_update (\<lambda>_. m))"
  using assms by (simp_all add: lawfulClient_def)

text \<open>The pure helpers: finalizer lists, owner references, and KMM's label names.\<close>

definition lawfulFinalizers :: "library \<Rightarrow> bool" where
  "lawfulFinalizers lib \<longleftrightarrow> (\<forall>fs f.
     (containsFinalizer lib fs f \<longleftrightarrow> f \<in> set fs) \<and>
     set (addFinalizer lib fs f) = insert f (set fs) \<and>
     set (removeFinalizer lib fs f) = set fs - {f})"

definition lawfulOwner :: "library \<Rightarrow> bool" where
  "lawfulOwner lib \<longleftrightarrow> (\<forall>d m m'. setControllerReference lib d m = Inr m' \<longrightarrow>
     keyOf m' = keyOf m \<and> setControllerReference lib d m' = Inr m')"

definition lawfulLabels :: "library \<Rightarrow> bool" where
  "lawfulLabels lib \<longleftrightarrow> (\<forall>ns nm.
     getModuleVersionLabelName lib ns nm \<noteq> getKernelModuleVersionReadyNodeLabel lib ns nm)"

end
