(* ===== verification/Memory.thy ===== *)
theory Memory
  imports Client
begin

text \<open>
  A concrete instance of the parameters: an API server that keeps its objects in lists in
  memory, and the helper functions of the library. It satisfies every assumption of
  theory Client, so these are consistent, and the theorems that need them are applied to
  it at concrete inputs.
\<close>

section \<open>Objects in a list\<close>

text \<open>The first object of a name is the one stored under it.\<close>

definition lookup :: "('o \<Rightarrow> ObjectMeta) \<Rightarrow> 'o list \<Rightarrow> nsname \<rightharpoonup> 'o" where
  "lookup meta xs k = find (\<lambda>x. keyOf (meta x) = k) xs"

definition removeKey :: "('o \<Rightarrow> ObjectMeta) \<Rightarrow> nsname \<Rightarrow> 'o list \<Rightarrow> 'o list" where
  "removeKey meta k xs = filter (\<lambda>x. keyOf (meta x) \<noteq> k) xs"

definition putObj :: "('o \<Rightarrow> ObjectMeta) \<Rightarrow> 'o \<Rightarrow> 'o list \<Rightarrow> 'o list" where
  "putObj meta x xs = x # removeKey meta (keyOf (meta x)) xs"

lemma lookup_Nil [simp]: "lookup meta [] k = None"
  by (simp add: lookup_def)

lemma lookup_Cons [simp]:
  "lookup meta (x # xs) k = (if keyOf (meta x) = k then Some x else lookup meta xs k)"
  by (simp add: lookup_def)

lemma lookup_key: "lookup meta xs k = Some x \<Longrightarrow> keyOf (meta x) = k"
  by (auto simp: lookup_def dest: find_SomeD)

lemma lookup_mem: "lookup meta xs k = Some x \<Longrightarrow> x \<in> set xs"
  by (auto simp: lookup_def dest: find_SomeD)

lemma lookup_removeKey: "lookup meta (removeKey meta k xs) = (lookup meta xs)(k := None)"
proof
  show "lookup meta (removeKey meta k xs) j = ((lookup meta xs)(k := None)) j" for j
    by (induction xs) (auto simp: removeKey_def)
qed

lemma lookup_putObj: "lookup meta (putObj meta x xs) = (lookup meta xs)(keyOf (meta x) \<mapsto> x)"
  by (auto simp: putObj_def lookup_removeKey fun_eq_iff)

definition listing :: "('o \<Rightarrow> ObjectMeta) \<Rightarrow> gomap \<Rightarrow> 'o list \<Rightarrow> 'o list" where
  "listing meta s xs =
     remdups (filter (\<lambda>x. lookup meta xs (keyOf (meta x)) = Some x \<and> selects s (om_Labels (meta x))) xs)"

lemma set_listing: "set (listing meta s xs) =
    {x. lookup meta xs (keyOf (meta x)) = Some x \<and> selects s (om_Labels (meta x))}"
  by (auto simp: listing_def dest: lookup_mem)

lemma distinct_listing: "distinct (map (\<lambda>x. keyOf (meta x)) (listing meta s xs))"
proof -
  have "inj_on (\<lambda>x. keyOf (meta x)) (set (listing meta s xs))"
  proof (rule inj_onI)
    fix x y assume "x \<in> set (listing meta s xs)" "y \<in> set (listing meta s xs)"
      and "keyOf (meta x) = keyOf (meta y)"
    then have "Some x = Some y" unfolding set_listing by (metis (mono_tags, lifting) mem_Collect_eq)
    then show "x = y" by simp
  qed
  then show ?thesis by (simp add: distinct_map listing_def)
qed

section \<open>The server\<close>

record mem =
  m_Nodes :: "Node list"
  m_Modules :: "Module list"
  m_DaemonSets :: "DaemonSet list"
  m_Deployments :: "Deployment list"
  m_ConfigMaps :: "ConfigMap list"
  m_DeviceConfigs :: "DeviceConfig list"

definition emptyMem :: mem where
  "emptyMem = \<lparr>m_Nodes = [], m_Modules = [], m_DaemonSets = [], m_Deployments = [],
     m_ConfigMaps = [], m_DeviceConfigs = []\<rparr>"

definition memCluster :: "mem \<Rightarrow> cluster" where
  "memCluster w = \<lparr>cl_Nodes = lookup node_Meta (m_Nodes w), cl_Modules = lookup mod_Meta (m_Modules w),
     cl_DaemonSets = lookup ds_Meta (m_DaemonSets w), cl_Deployments = lookup dep_Meta (m_Deployments w),
     cl_ConfigMaps = lookup cm_Meta (m_ConfigMaps w),
     cl_DeviceConfigs = lookup dc_Meta (m_DeviceConfigs w)\<rparr>"

definition notFoundErr :: goerr where "notFoundErr = ExtErr ''NotFound'' []"
definition invalidErr :: goerr where "invalidErr = ExtErr ''Invalid'' []"

definition memGet :: "('o \<Rightarrow> ObjectMeta) \<Rightarrow> (mem \<Rightarrow> 'o list) \<Rightarrow> nsname \<Rightarrow> (mem, 'o) io" where
  "memGet meta field k = (\<lambda>w. (case lookup meta (field w) k of
     None \<Rightarrow> Inl notFoundErr | Some x \<Rightarrow> Inr x, w))"

definition memList :: "('o \<Rightarrow> ObjectMeta) \<Rightarrow> (mem \<Rightarrow> 'o list) \<Rightarrow> gomap \<Rightarrow> (mem, 'o list) io" where
  "memList meta field s = (\<lambda>w. (Inr (listing meta s (field w)), w))"

definition memUpsert ::
  "('o \<Rightarrow> ObjectMeta) \<Rightarrow> (mem \<Rightarrow> 'o list) \<Rightarrow> ('o list \<Rightarrow> mem \<Rightarrow> mem) \<Rightarrow>
   'o \<Rightarrow> ('o \<Rightarrow> goerr + 'o) \<Rightarrow> (mem, 'o) io" where
  "memUpsert meta field store x f = (\<lambda>w.
     case f (case lookup meta (field w) (keyOf (meta x)) of None \<Rightarrow> x | Some y \<Rightarrow> y) of
       Inl e \<Rightarrow> (Inl e, w)
     | Inr new \<Rightarrow> if keyOf (meta new) = keyOf (meta x)
         then (Inr new, store (putObj meta new (field w)) w) else (Inl invalidErr, w))"

definition memDelete ::
  "('o \<Rightarrow> ObjectMeta) \<Rightarrow> (ObjectMeta \<Rightarrow> 'o \<Rightarrow> 'o) \<Rightarrow> (mem \<Rightarrow> 'o list) \<Rightarrow> ('o list \<Rightarrow> mem \<Rightarrow> mem) \<Rightarrow>
   'o \<Rightarrow> (mem, unit) io" where
  "memDelete meta setMeta field store x = (\<lambda>w.
     case lookup meta (field w) (keyOf (meta x)) of
       None \<Rightarrow> (Inl notFoundErr, w)
     | Some y \<Rightarrow> (Inr (), store
         (if om_Finalizers (meta y) = [] then removeKey meta (keyOf (meta y)) (field w)
          else putObj meta (setMeta ((meta y)\<lparr>om_DeletionTimestamp := Some ''now''\<rparr>) y) (field w)) w))"

definition memPatchNode :: "Node \<Rightarrow> Node \<Rightarrow> (mem, Node) io" where
  "memPatchNode obj base = (\<lambda>w. case lookup node_Meta (m_Nodes w) (keyOf (node_Meta obj)) of
     None \<Rightarrow> (Inl notFoundErr, w)
   | Some srv \<Rightarrow>
       let new = (nodeSetLabels (Some (mergedLabel (node_Labels base) (node_Labels obj) (node_Labels srv))) srv)
             \<lparr>node_Taints := mergedList (node_Taints base) (node_Taints obj) (node_Taints srv)\<rparr>
       in (Inr new, w\<lparr>m_Nodes := putObj node_Meta new (m_Nodes w)\<rparr>))"

definition memPatchDC :: "DeviceConfig \<Rightarrow> DeviceConfig \<Rightarrow> (mem, DeviceConfig) io" where
  "memPatchDC obj base = (\<lambda>w. case lookup dc_Meta (m_DeviceConfigs w) (keyOf (dc_Meta obj)) of
     None \<Rightarrow> (Inl notFoundErr, w)
   | Some srv \<Rightarrow>
       let new = dcMerged base obj srv
       in (Inr new, w\<lparr>m_DeviceConfigs :=
            (if om_Finalizers (dc_Meta new) = [] \<and> om_DeletionTimestamp (dc_Meta new) \<noteq> None
             then removeKey dc_Meta (keyOf (dc_Meta new)) (m_DeviceConfigs w)
             else putObj dc_Meta new (m_DeviceConfigs w))\<rparr>))"

definition memApi ::
  "('o \<Rightarrow> ObjectMeta) \<Rightarrow> (ObjectMeta \<Rightarrow> 'o \<Rightarrow> 'o) \<Rightarrow> (mem \<Rightarrow> 'o list) \<Rightarrow> ('o list \<Rightarrow> mem \<Rightarrow> mem) \<Rightarrow>
   ('o \<Rightarrow> 'o \<Rightarrow> (mem, 'o) io) \<Rightarrow> (mem, 'o) api" where
  "memApi meta setMeta field store patch = \<lparr>apiGet = memGet meta field, apiList = memList meta field,
     apiCreateOrPatch = memUpsert meta field store, apiCreateOrUpdate = memUpsert meta field store,
     apiPatch = patch, apiDelete = memDelete meta setMeta field store\<rparr>"

definition noPatch :: "'o \<Rightarrow> 'o \<Rightarrow> (mem, 'o) io" where
  "noPatch obj base = fail invalidErr"

definition memClient :: "mem client" where
  "memClient = \<lparr>
     Nodes = memApi node_Meta (\<lambda>m x. x\<lparr>node_Meta := m\<rparr>) m_Nodes (\<lambda>xs. m_Nodes_update (\<lambda>_. xs)) memPatchNode,
     Modules = memApi mod_Meta (\<lambda>m x. x\<lparr>mod_Meta := m\<rparr>) m_Modules (\<lambda>xs. m_Modules_update (\<lambda>_. xs)) noPatch,
     DaemonSets = memApi ds_Meta (\<lambda>m x. x\<lparr>ds_Meta := m\<rparr>) m_DaemonSets (\<lambda>xs. m_DaemonSets_update (\<lambda>_. xs)) noPatch,
     Deployments = memApi dep_Meta (\<lambda>m x. x\<lparr>dep_Meta := m\<rparr>) m_Deployments (\<lambda>xs. m_Deployments_update (\<lambda>_. xs)) noPatch,
     ConfigMaps = memApi cm_Meta (\<lambda>m x. x\<lparr>cm_Meta := m\<rparr>) m_ConfigMaps (\<lambda>xs. m_ConfigMaps_update (\<lambda>_. xs)) noPatch,
     DeviceConfigs = memApi dc_Meta (\<lambda>m x. x\<lparr>dc_Meta := m\<rparr>) m_DeviceConfigs
       (\<lambda>xs. m_DeviceConfigs_update (\<lambda>_. xs)) memPatchDC\<rparr>"

section \<open>The helper functions\<close>

definition controllerOf :: "DeviceConfig \<Rightarrow> OwnerReference" where
  "controllerOf d = \<lparr>or_APIVersion = ''k8s.aws/v1beta1'', or_Kind = ''DeviceConfig'', or_Name = dc_Name d,
     or_UID = [], or_Controller = Some True, or_BlockOwnerDeletion = Some True\<rparr>"

definition memLib :: library where
  "memLib = \<lparr>isNotFound = (\<lambda>e. e = notFoundErr),
     setControllerReference = (\<lambda>d m. if om_OwnerReferences m = [] \<or> om_OwnerReferences m = [controllerOf d]
        then Inr (m\<lparr>om_OwnerReferences := [controllerOf d]\<rparr>) else Inl (ExtErr ''AlreadyOwned'' [])),
     containsFinalizer = (\<lambda>fs f. f \<in> set fs),
     addFinalizer = (\<lambda>fs f. if f \<in> set fs then fs else fs @ [f]),
     removeFinalizer = (\<lambda>fs f. filter (\<lambda>g. g \<noteq> f) fs),
     getModuleVersionLabelName = (\<lambda>ns nm. ''kmm.node.kubernetes.io/version-module.'' @ ns @ ''.'' @ nm),
     getKernelModuleVersionReadyNodeLabel = (\<lambda>ns nm. ''kmm.node.kubernetes.io/'' @ ns @ ''.'' @ nm @ ''.version.ready''),
     getKernelModuleReadyNodeLabel = (\<lambda>ns nm. ''kmm.node.kubernetes.io/'' @ ns @ ''.'' @ nm @ ''.ready'')\<rparr>"

lemma lawfulFinalizers_mem: "lawfulFinalizers memLib"
  by (auto simp: lawfulFinalizers_def memLib_def)

lemma lawfulOwner_mem: "lawfulOwner memLib"
  by (auto simp: lawfulOwner_def memLib_def keyOf_def)

lemma lawfulLabels_mem: "lawfulLabels memLib"
  unfolding lawfulLabels_def memLib_def library.simps
proof (intro allI notI)
  fix ns nm :: string
  assume "''kmm.node.kubernetes.io/version-module.'' @ ns @ ''.'' @ nm =
    ''kmm.node.kubernetes.io/'' @ ns @ ''.'' @ nm @ ''.version.ready''"
  from arg_cong [OF this, of length] show False by simp
qed

section \<open>The server is lawful\<close>

lemma lawful_memGet:
  assumes "\<And>w. sel (memCluster w) = lookup meta (field w)"
  shows "lawfulGet memLib (memGet meta field) memCluster sel"
  by (auto simp: lawfulGet_def memGet_def assms split: option.splits)

lemma lawful_memList:
  assumes "\<And>w. sel (memCluster w) = lookup meta (field w)"
  shows "lawfulList (memList meta field) meta memCluster sel"
  by (simp add: lawfulList_def memList_def assms set_listing distinct_listing)

lemma lawful_memUpsert:
  assumes "\<And>w. sel (memCluster w) = lookup meta (field w)"
    and "\<And>xs w. memCluster (store xs w) = put (lookup meta xs) (memCluster w)"
  shows "lawfulUpsert (memUpsert meta field store) meta memCluster sel put"
  unfolding lawfulUpsert_def Let_def
proof (intro allI)
  fix x f w
  let ?cur = "case sel (memCluster w) (keyOf (meta x)) of None \<Rightarrow> x | Some y \<Rightarrow> y"
  show "case memUpsert meta field store x f w of
      (Inl e, w') \<Rightarrow> memCluster w' = memCluster w \<or> (\<exists>new. f ?cur = Inr new \<and>
        keyOf (meta new) = keyOf (meta x) \<and>
        memCluster w' = put ((sel (memCluster w))(keyOf (meta x) \<mapsto> new)) (memCluster w))
    | (Inr new, w') \<Rightarrow> f ?cur = Inr new \<and> keyOf (meta new) = keyOf (meta x) \<and>
        memCluster w' = put ((sel (memCluster w))(keyOf (meta x) \<mapsto> new)) (memCluster w)"
    by (cases "f ?cur") (simp_all add: memUpsert_def assms lookup_putObj)
qed

lemma lawful_memDelete:
  assumes "\<And>w. sel (memCluster w) = lookup meta (field w)"
    and "\<And>xs w. memCluster (store xs w) = put (lookup meta xs) (memCluster w)"
    and "\<And>m x. meta (setMeta m x) = m"
  shows "lawfulDelete memLib (memDelete meta setMeta field store) meta memCluster sel put"
  unfolding lawfulDelete_def Let_def
proof (intro allI)
  fix x w
  let ?k = "keyOf (meta x)"
  let ?done = "\<lambda>w'. \<exists>r. memCluster w' = put ((sel (memCluster w))(?k := r)) (memCluster w) \<and>
    (case r of None \<Rightarrow> True | Some y \<Rightarrow> keyOf (meta y) = ?k \<and> om_DeletionTimestamp (meta y) \<noteq> None)"
  show "case memDelete meta setMeta field store x w of
      (Inl e, w') \<Rightarrow> (memCluster w' = memCluster w \<or> ?done w') \<and>
        (isNotFound memLib e \<longrightarrow> sel (memCluster w') ?k = None)
    | (Inr u, w') \<Rightarrow> ?done w'"
  proof (cases "lookup meta (field w) ?k")
    case None
    then show ?thesis by (simp add: memDelete_def assms(1))
  next
    case (Some y)
    let ?z = "setMeta ((meta y)\<lparr>om_DeletionTimestamp := Some ''now''\<rparr>) y"
    have k: "keyOf (meta y) = ?k" by (rule lookup_key [OF Some])
    have z: "keyOf (meta ?z) = ?k" using k by (simp add: assms(3) keyOf_def)
    show ?thesis
    proof (cases "om_Finalizers (meta y) = []")
      case True
      with Some k show ?thesis
        by (auto simp: memDelete_def assms lookup_removeKey intro!: exI [of _ None])
    next
      case False
      with Some k z show ?thesis
        by (auto simp: memDelete_def assms lookup_putObj keyOf_def intro!: exI [of _ "Some ?z"])
    qed
  qed
qed

lemma memCluster_simps [simp]:
  "cl_Nodes (memCluster w) = lookup node_Meta (m_Nodes w)"
  "cl_Modules (memCluster w) = lookup mod_Meta (m_Modules w)"
  "cl_DaemonSets (memCluster w) = lookup ds_Meta (m_DaemonSets w)"
  "cl_Deployments (memCluster w) = lookup dep_Meta (m_Deployments w)"
  "cl_ConfigMaps (memCluster w) = lookup cm_Meta (m_ConfigMaps w)"
  "cl_DeviceConfigs (memCluster w) = lookup dc_Meta (m_DeviceConfigs w)"
  by (simp_all add: memCluster_def)

lemma memCluster_update:
  "memCluster (w\<lparr>m_Nodes := xs1\<rparr>) = (memCluster w)\<lparr>cl_Nodes := lookup node_Meta xs1\<rparr>"
  "memCluster (w\<lparr>m_Modules := xs2\<rparr>) = (memCluster w)\<lparr>cl_Modules := lookup mod_Meta xs2\<rparr>"
  "memCluster (w\<lparr>m_DaemonSets := xs3\<rparr>) = (memCluster w)\<lparr>cl_DaemonSets := lookup ds_Meta xs3\<rparr>"
  "memCluster (w\<lparr>m_Deployments := xs4\<rparr>) = (memCluster w)\<lparr>cl_Deployments := lookup dep_Meta xs4\<rparr>"
  "memCluster (w\<lparr>m_ConfigMaps := xs5\<rparr>) = (memCluster w)\<lparr>cl_ConfigMaps := lookup cm_Meta xs5\<rparr>"
  "memCluster (w\<lparr>m_DeviceConfigs := xs6\<rparr>) = (memCluster w)\<lparr>cl_DeviceConfigs := lookup dc_Meta xs6\<rparr>"
  by (simp_all add: memCluster_def)

lemma lawful_memPatchNode: "lawfulPatchNode (memApi meta setMeta field store memPatchNode) memCluster"
  unfolding lawfulPatchNode_def Let_def
proof (intro allI)
  fix obj base :: Node and w
  let ?k = "keyOf (node_Meta obj)"
  let ?done = "\<lambda>w' new. \<exists>srv. cl_Nodes (memCluster w) ?k = Some srv \<and> nodeMerged base obj srv new \<and>
    memCluster w' = (memCluster w)\<lparr>cl_Nodes := (cl_Nodes (memCluster w))(?k \<mapsto> new)\<rparr>"
  show "case apiPatch (memApi meta setMeta field store memPatchNode) obj base w of
      (Inl e, w') \<Rightarrow> memCluster w' = memCluster w \<or> (\<exists>new. ?done w' new) | (Inr new, w') \<Rightarrow> ?done w' new"
  proof (cases "lookup node_Meta (m_Nodes w) ?k")
    case None
    then show ?thesis by (simp add: memApi_def memPatchNode_def)
  next
    case (Some srv)
    let ?new = "(nodeSetLabels (Some (mergedLabel (node_Labels base) (node_Labels obj) (node_Labels srv))) srv)
      \<lparr>node_Taints := mergedList (node_Taints base) (node_Taints obj) (node_Taints srv)\<rparr>"
    have "keyOf (node_Meta ?new) = ?k" using lookup_key [OF Some] by (simp add: nodeSetLabels_def keyOf_def)
    moreover have "nodeMerged base obj srv ?new" by (simp add: nodeMerged_def nodeSetLabels_def)
    ultimately show ?thesis
      using Some by (simp add: memApi_def memPatchNode_def Let_def memCluster_update lookup_putObj)
  qed
qed

lemma lawful_memPatchDC: "lawfulPatchDC (memApi meta setMeta field store memPatchDC) memCluster"
  unfolding lawfulPatchDC_def Let_def
proof (intro allI)
  fix obj base :: DeviceConfig and w
  let ?k = "keyOf (dc_Meta obj)"
  let ?done = "\<lambda>w' new. \<exists>srv. cl_DeviceConfigs (memCluster w) ?k = Some srv \<and>
    new = dcMerged base obj srv \<and> memCluster w' = storeDC new (memCluster w)"
  show "case apiPatch (memApi meta setMeta field store memPatchDC) obj base w of
      (Inl e, w') \<Rightarrow> memCluster w' = memCluster w \<or> (\<exists>new. ?done w' new) | (Inr new, w') \<Rightarrow> ?done w' new"
  proof (cases "lookup dc_Meta (m_DeviceConfigs w) ?k")
    case None
    then show ?thesis by (simp add: memApi_def memPatchDC_def)
  next
    case (Some srv)
    then show ?thesis
      by (auto simp: memApi_def memPatchDC_def Let_def memCluster_update lookup_putObj lookup_removeKey storeDC_def)
  qed
qed

lemma wellKeyed_mem: "wellKeyed (memCluster w)"
  by (simp add: wellKeyed_def keyed_def lookup_key)

lemma lawfulClient_mem: "lawfulClient memLib memClient memCluster"
  unfolding lawfulClient_def memClient_def client.simps
  by (intro conjI allI wellKeyed_mem lawful_memPatchNode lawful_memPatchDC)
     (simp_all add: memApi_def lawful_memList lawful_memGet lawful_memUpsert lawful_memDelete memCluster_update)

section \<open>Example objects\<close>

definition exNode :: "string \<Rightarrow> (string \<rightharpoonup> string) \<Rightarrow> Taint list \<Rightarrow> Node" where
  "exNode nm ls ts = \<lparr>node_Meta = zeroMeta\<lparr>om_Name := nm, om_Labels := Some ls\<rparr>, node_Taints = ts\<rparr>"

definition exDC :: "string \<Rightarrow> DeviceConfig" where
  "exDC ver = zeroDeviceConfig\<lparr>
     dc_Meta := zeroMeta\<lparr>om_Namespace := ''ns'', om_Name := ''neuron''\<rparr>,
     dc_Spec := zeroSpec\<lparr>DriversImage := ''drivers'', DriverVersion := ver,
       Selector := Some [''neuron'' \<mapsto> ''true'']\<rparr>\<rparr>"

definition exWorld :: "Node list \<Rightarrow> DeviceConfig list \<Rightarrow> mem" where
  "exWorld ns ds = emptyMem\<lparr>m_Nodes := ns, m_DeviceConfigs := ds\<rparr>"

abbreviation exVersionLabel :: string where
  "exVersionLabel \<equiv> ''kmm.node.kubernetes.io/version-module.ns.neuron''"

abbreviation exReadyLabel :: string where
  "exReadyLabel \<equiv> ''kmm.node.kubernetes.io/ns.neuron.version.ready''"

lemma exNode_simps [simp]:
  "node_Labels (exNode nm ls ts) = Some ls" "node_Taints (exNode nm ls ts) = ts"
  "keyOf (node_Meta (exNode nm ls ts)) = NN [] nm" "node_Name (exNode nm ls ts) = nm"
  by (simp_all add: exNode_def keyOf_def zeroMeta_def)

lemma exNode_eq [simp]: "exNode a ls ts = exNode b ls' ts' \<longleftrightarrow> a = b \<and> ls = ls' \<and> ts = ts'"
  by (auto simp: exNode_def zeroMeta_def)

lemma exDC_simps [simp]:
  "dc_Name (exDC v) = ''neuron''" "dc_Namespace (exDC v) = ''ns''"
  "DriverVersion (dc_Spec (exDC v)) = v" "Selector (dc_Spec (exDC v)) = Some [''neuron'' \<mapsto> ''true'']"
  "DriversImage (dc_Spec (exDC v)) = ''drivers''" "DRADriverImage (dc_Spec (exDC v)) = []"
  "DevicePluginImage (dc_Spec (exDC v)) = []"
  "keyOf (dc_Meta (exDC v)) = NN ''ns'' ''neuron''"
  "om_DeletionTimestamp (dc_Meta (exDC v)) = None" "om_Finalizers (dc_Meta (exDC v)) = []"
  by (simp_all add: exDC_def keyOf_def zeroMeta_def zeroSpec_def zeroDeviceConfig_def)

lemma exWorld_simps [simp]:
  "m_Nodes (exWorld ns ds) = ns" "m_DeviceConfigs (exWorld ns ds) = ds" "m_Modules (exWorld ns ds) = []"
  "m_DaemonSets (exWorld ns ds) = []" "m_Deployments (exWorld ns ds) = []" "m_ConfigMaps (exWorld ns ds) = []"
  by (simp_all add: exWorld_def emptyMem_def)

lemma memLib_labels [simp]:
  "getModuleVersionLabelName memLib ''ns'' ''neuron'' = exVersionLabel"
  "getKernelModuleVersionReadyNodeLabel memLib ''ns'' ''neuron'' = exReadyLabel"
  by (simp_all add: memLib_def)

lemma memClient_simps:
  "apiList (Nodes memClient) = memList node_Meta m_Nodes"
  "apiPatch (Nodes memClient) = memPatchNode"
  "apiGet (DaemonSets memClient) = memGet ds_Meta m_DaemonSets"
  "apiGet (Modules memClient) = memGet mod_Meta m_Modules"
  "apiPatch (DeviceConfigs memClient) = memPatchDC"
  "apiCreateOrPatch (ConfigMaps memClient) = memUpsert cm_Meta m_ConfigMaps (\<lambda>xs. m_ConfigMaps_update (\<lambda>_. xs))"
  "apiCreateOrPatch (Modules memClient) = memUpsert mod_Meta m_Modules (\<lambda>xs. m_Modules_update (\<lambda>_. xs))"
  "apiCreateOrPatch (Deployments memClient) = memUpsert dep_Meta m_Deployments (\<lambda>xs. m_Deployments_update (\<lambda>_. xs))"
  "apiCreateOrPatch (DaemonSets memClient) = memUpsert ds_Meta m_DaemonSets (\<lambda>xs. m_DaemonSets_update (\<lambda>_. xs))"
  by (simp_all add: memClient_def memApi_def)

end
