(* ===== verification/Upgrade.thy ===== *)
theory Upgrade
  imports Memory
begin

text \<open>
  internal/upgrade/upgrade.go: the rolling upgrade of the driver, one node at a time.
  The upgrade state of a node is read from two labels (the version asked for and the
  version KMM reports ready); the operator cordons a node with a NoExecute taint, asks
  for the new version by setting the label, and removes the taint when KMM reports it
  ready. The interface \<open>UpgradeAPI\<close> is a record of functions, \<open>upgradeImpl\<close> its
  implementation.
\<close>

section \<open>The interface and the node states\<close>

record 'w UpgradeAPI =
  GetTargetedNodes :: "DeviceConfig \<Rightarrow> ('w, Node list) io"
  GetUpgradedNode :: "DeviceConfig \<Rightarrow> Node list \<Rightarrow> Node option"
  UncordonUpgradedNode :: "Node option \<Rightarrow> ('w, Node option) io"
  GetNodeForUpgrade :: "DeviceConfig \<Rightarrow> Node list \<Rightarrow> Node option"
  CordonNodeForUpgrade :: "DeviceConfig \<Rightarrow> Node option \<Rightarrow> ('w, Node option) io"
  KickoffUpgrade :: "DeviceConfig \<Rightarrow> Node option \<Rightarrow> ('w, Node option) io"
  RemoveUpgradeLabels :: "DeviceConfig \<Rightarrow> ('w, unit) io"

datatype nodeUpgradeState = nodeBeforeUpgrade | nodeInUpgrade | nodeUpgraded

definition UpgradeTaintTolerationKey :: string where
  "UpgradeTaintTolerationKey = ''aws-neuron-driver-upgrade''"

definition getNodeUpgradeState :: "library \<Rightarrow> Node \<Rightarrow> DeviceConfig \<Rightarrow> nodeUpgradeState" where
  "getNodeUpgradeState lib node devConfig =
     (let nodeLabels = node_Labels node;
          moduleVersion = mapGet nodeLabels
            (getModuleVersionLabelName lib (dc_Namespace devConfig) (dc_Name devConfig))
      in if moduleVersion = None \<or> moduleVersion \<noteq> Some (DriverVersion (dc_Spec devConfig))
         then nodeBeforeUpgrade
         else let moduleVersionReady = mapGet nodeLabels
                (getKernelModuleVersionReadyNodeLabel lib (dc_Namespace devConfig) (dc_Name devConfig))
              in if moduleVersionReady = None \<or>
                    moduleVersionReady \<noteq> Some (DriverVersion (dc_Spec devConfig))
                 then nodeInUpgrade else nodeUpgraded)"

definition isNewNodeForUpgrade :: "library \<Rightarrow> Node \<Rightarrow> DeviceConfig \<Rightarrow> bool" where
  "isNewNodeForUpgrade lib node devConfig \<longleftrightarrow>
     mapGet (node_Labels node)
       (getModuleVersionLabelName lib (dc_Namespace devConfig) (dc_Name devConfig)) = None"

fun taintsHaveKey :: "Taint list \<Rightarrow> bool" where
  "taintsHaveKey [] = False"
| "taintsHaveKey (taint # taints) =
     (if taint_Key taint = UpgradeTaintTolerationKey then True else taintsHaveKey taints)"

definition isNodeTainted :: "Node \<Rightarrow> bool" where
  "isNodeTainted node = taintsHaveKey (node_Taints node)"

section \<open>The operations\<close>

definition upgradeImpl_GetTargetedNodes ::
  "'w client \<Rightarrow> DeviceConfig \<Rightarrow> ('w, Node list) io" where
  "upgradeImpl_GetTargetedNodes c devConfig =
     wrapE (\<lambda>err. Errorf ''could not list nodes: %v'' [] (Some err))
       (apiList (Nodes c) (Selector (dc_Spec devConfig)))"

fun upgradeImpl_GetUpgradedNode :: "library \<Rightarrow> DeviceConfig \<Rightarrow> Node list \<Rightarrow> Node option" where
  "upgradeImpl_GetUpgradedNode lib devConfig [] = None"
| "upgradeImpl_GetUpgradedNode lib devConfig (node # nodes) =
     (let upgradeState = getNodeUpgradeState lib node devConfig
      in if upgradeState = nodeUpgraded \<and> isNodeTainted node then Some node
         else upgradeImpl_GetUpgradedNode lib devConfig nodes)"

definition upgradeTaint :: Taint where
  "upgradeTaint = \<lparr>taint_Key = UpgradeTaintTolerationKey, taint_Value = ''true'',
     taint_Effect = TaintEffectNoExecute\<rparr>"

fun removeUpgradeTaint :: "Taint list \<Rightarrow> Taint list \<Rightarrow> Taint list" where
  "removeUpgradeTaint newTaints [] = newTaints"
| "removeUpgradeTaint newTaints (taint # taints) =
     (if taint_Key upgradeTaint = taint_Key taint \<and> taint_Effect upgradeTaint = taint_Effect taint
      then removeUpgradeTaint newTaints taints
      else removeUpgradeTaint (newTaints @ [taint]) taints)"

definition upgradeImpl_UncordonUpgradedNode ::
  "'w client \<Rightarrow> Node option \<Rightarrow> ('w, Node option) io" where
  "upgradeImpl_UncordonUpgradedNode c nodePtr =
     (case nodePtr of None \<Rightarrow> ret None
      | Some node \<Rightarrow>
          let newTaints = removeUpgradeTaint [] (node_Taints node);
              nodeCopy = node
          in bindE (apiPatch (Nodes c) (node\<lparr>node_Taints := newTaints\<rparr>) nodeCopy)
               (\<lambda>node'. ret (Some node')))"

fun nodeForUpgradeLoop ::
  "library \<Rightarrow> DeviceConfig \<Rightarrow> Node option \<Rightarrow> Node list \<Rightarrow> Node option" where
  "nodeForUpgradeLoop lib devConfig upgradeNode [] = upgradeNode"
| "nodeForUpgradeLoop lib devConfig upgradeNode (node # nodes) =
     (case getNodeUpgradeState lib node devConfig of
        nodeBeforeUpgrade \<Rightarrow> nodeForUpgradeLoop lib devConfig (Some node) nodes
      | nodeInUpgrade \<Rightarrow> None
      | nodeUpgraded \<Rightarrow> nodeForUpgradeLoop lib devConfig upgradeNode nodes)"

definition upgradeImpl_GetNodeForUpgrade ::
  "library \<Rightarrow> DeviceConfig \<Rightarrow> Node list \<Rightarrow> Node option" where
  "upgradeImpl_GetNodeForUpgrade lib devConfig nodes = nodeForUpgradeLoop lib devConfig None nodes"

fun hasUpgradeTaint :: "Taint list \<Rightarrow> bool" where
  "hasUpgradeTaint [] = False"
| "hasUpgradeTaint (taint # taints) =
     (if taint_Key upgradeTaint = taint_Key taint \<and> taint_Effect upgradeTaint = taint_Effect taint
      then True else hasUpgradeTaint taints)"

definition upgradeImpl_CordonNodeForUpgrade ::
  "library \<Rightarrow> 'w client \<Rightarrow> DeviceConfig \<Rightarrow> Node option \<Rightarrow> ('w, Node option) io" where
  "upgradeImpl_CordonNodeForUpgrade lib c devConfig nodePtr =
     (case nodePtr of None \<Rightarrow> ret None
      | Some node \<Rightarrow>
          if isNewNodeForUpgrade lib node devConfig then ret (Some node)
          else if hasUpgradeTaint (node_Taints node) then ret (Some node)
          else let nodeCopy = node
               in bindE (apiPatch (Nodes c)
                    (node\<lparr>node_Taints := node_Taints node @ [upgradeTaint]\<rparr>) nodeCopy)
                    (\<lambda>node'. ret (Some node')))"

definition upgradeImpl_KickoffUpgrade ::
  "library \<Rightarrow> 'w client \<Rightarrow> DeviceConfig \<Rightarrow> Node option \<Rightarrow> ('w, Node option) io" where
  "upgradeImpl_KickoffUpgrade lib c devConfig nodePtr =
     (case nodePtr of None \<Rightarrow> ret None
      | Some node \<Rightarrow>
          let nodeLabels = (case node_Labels node of None \<Rightarrow> Some Map.empty | Some m \<Rightarrow> Some m);
              nodeCopy = node
          in bindE (liftE (mapSet nodeLabels
               (getModuleVersionLabelName lib (dc_Namespace devConfig) (dc_Name devConfig))
               (DriverVersion (dc_Spec devConfig))))
             (\<lambda>nodeLabels'. bindE (apiPatch (Nodes c) (nodeSetLabels nodeLabels' node) nodeCopy)
               (\<lambda>node'. ret (Some node'))))"

fun removeLabelLoop :: "'w client \<Rightarrow> string \<Rightarrow> Node list \<Rightarrow> ('w, unit) io" where
  "removeLabelLoop c upgradeLabelKey [] = ret ()"
| "removeLabelLoop c upgradeLabelKey (node # nodes) =
     (let nodeCopy = node;
          nodeLabels = mapDelete (node_Labels node) upgradeLabelKey
      in bindE (wrapE (\<lambda>err. Errorf ''failed to remove upgrade label %s from node %s: %v''
             [upgradeLabelKey, node_Name node] (Some err))
           (apiPatch (Nodes c) (nodeSetLabels nodeLabels node) nodeCopy))
         (\<lambda>_. removeLabelLoop c upgradeLabelKey nodes))"

definition upgradeImpl_RemoveUpgradeLabels ::
  "library \<Rightarrow> 'w client \<Rightarrow> DeviceConfig \<Rightarrow> ('w, unit) io" where
  "upgradeImpl_RemoveUpgradeLabels lib c devConfig =
     (let upgradeLabelKey = getModuleVersionLabelName lib (dc_Namespace devConfig) (dc_Name devConfig)
      in bindE (wrapE (\<lambda>err. Errorf ''could not list nodes: %v'' [] (Some err))
           (apiList (Nodes c) (Some [upgradeLabelKey \<mapsto> DriverVersion (dc_Spec devConfig)])))
         (\<lambda>items. removeLabelLoop c upgradeLabelKey items))"

definition NewUpgradeAPI :: "library \<Rightarrow> 'w client \<Rightarrow> 'w UpgradeAPI" where
  "NewUpgradeAPI lib c = \<lparr>
     GetTargetedNodes = upgradeImpl_GetTargetedNodes c,
     GetUpgradedNode = upgradeImpl_GetUpgradedNode lib,
     UncordonUpgradedNode = upgradeImpl_UncordonUpgradedNode c,
     GetNodeForUpgrade = upgradeImpl_GetNodeForUpgrade lib,
     CordonNodeForUpgrade = upgradeImpl_CordonNodeForUpgrade lib c,
     KickoffUpgrade = upgradeImpl_KickoffUpgrade lib c,
     RemoveUpgradeLabels = upgradeImpl_RemoveUpgradeLabels lib c\<rparr>"


section \<open>Pure behaviour\<close>

definition isUpgradeTaint :: "Taint \<Rightarrow> bool" where
  "isUpgradeTaint t \<longleftrightarrow> taint_Key t = UpgradeTaintTolerationKey \<and> taint_Effect t = TaintEffectNoExecute"

abbreviation versionLabel :: "library \<Rightarrow> DeviceConfig \<Rightarrow> string" where
  "versionLabel lib d \<equiv> getModuleVersionLabelName lib (dc_Namespace d) (dc_Name d)"

abbreviation readyLabel :: "library \<Rightarrow> DeviceConfig \<Rightarrow> string" where
  "readyLabel lib d \<equiv> getKernelModuleVersionReadyNodeLabel lib (dc_Namespace d) (dc_Name d)"

abbreviation wanted :: "DeviceConfig \<Rightarrow> string" where
  "wanted d \<equiv> DriverVersion (dc_Spec d)"

lemma state_iff:
  "getNodeUpgradeState lib n d = nodeBeforeUpgrade \<longleftrightarrow>
     mapGet (node_Labels n) (versionLabel lib d) \<noteq> Some (wanted d)"
  "getNodeUpgradeState lib n d = nodeInUpgrade \<longleftrightarrow>
     mapGet (node_Labels n) (versionLabel lib d) = Some (wanted d) \<and>
     mapGet (node_Labels n) (readyLabel lib d) \<noteq> Some (wanted d)"
  "getNodeUpgradeState lib n d = nodeUpgraded \<longleftrightarrow>
     mapGet (node_Labels n) (versionLabel lib d) = Some (wanted d) \<and>
     mapGet (node_Labels n) (readyLabel lib d) = Some (wanted d)"
  by (auto simp: getNodeUpgradeState_def Let_def)

lemma state_cong:
  "(\<And>k. mapGet (node_Labels n) k = mapGet (node_Labels m) k) \<Longrightarrow>
   getNodeUpgradeState lib n d = getNodeUpgradeState lib m d"
  by (simp add: getNodeUpgradeState_def Let_def)

lemma isNodeTainted_iff: "isNodeTainted n \<longleftrightarrow> (\<exists>t \<in> set (node_Taints n). taint_Key t = UpgradeTaintTolerationKey)"
proof -
  have "taintsHaveKey ts \<longleftrightarrow> (\<exists>t \<in> set ts. taint_Key t = UpgradeTaintTolerationKey)" for ts
    by (induction ts) auto
  then show ?thesis by (simp add: isNodeTainted_def)
qed

lemma upgradeTaint_matches: "taint_Key upgradeTaint = taint_Key t \<and> taint_Effect upgradeTaint = taint_Effect t
    \<longleftrightarrow> isUpgradeTaint t"
  by (auto simp: upgradeTaint_def isUpgradeTaint_def)

lemma isUpgradeTaint_self [simp]: "isUpgradeTaint upgradeTaint"
  by (simp add: upgradeTaint_def isUpgradeTaint_def)

lemma hasUpgradeTaint_iff: "hasUpgradeTaint ts \<longleftrightarrow> (\<exists>t \<in> set ts. isUpgradeTaint t)"
  by (induction ts) (auto simp: upgradeTaint_matches)

lemma removeUpgradeTaint_eq: "removeUpgradeTaint acc ts = acc @ filter (\<lambda>t. \<not> isUpgradeTaint t) ts"
  by (induction acc ts rule: removeUpgradeTaint.induct) (auto simp: upgradeTaint_matches)

lemma GetUpgradedNode_find:
  "upgradeImpl_GetUpgradedNode lib d ns =
     find (\<lambda>n. getNodeUpgradeState lib n d = nodeUpgraded \<and> isNodeTainted n) ns"
  by (induction ns) (auto simp: Let_def)

lemma nodeForUpgradeLoop_eq:
  "nodeForUpgradeLoop lib d acc ns =
     (if \<exists>n \<in> set ns. getNodeUpgradeState lib n d = nodeInUpgrade then None
      else case find_last (\<lambda>n. getNodeUpgradeState lib n d = nodeBeforeUpgrade) ns of
             None \<Rightarrow> acc | Some n \<Rightarrow> Some n)"
  by (induction ns arbitrary: acc)
     (auto split: nodeUpgradeState.splits option.splits)

section \<open>Effects on the cluster\<close>

text \<open>\<open>nodeIs n ls ts n'\<close>: \<open>n'\<close> is \<open>n\<close> with the label lookups \<open>ls\<close> and the taints \<open>ts\<close>.\<close>

definition nodeIs :: "Node \<Rightarrow> (string \<Rightarrow> string option) \<Rightarrow> Taint list \<Rightarrow> Node \<Rightarrow> bool" where
  "nodeIs n ls ts n' \<longleftrightarrow> (\<forall>k. mapGet (node_Labels n') k = ls k) \<and>
     n' = n\<lparr>node_Meta := (node_Meta n)\<lparr>om_Labels := node_Labels n'\<rparr>, node_Taints := ts\<rparr>"

definition setNode :: "Node \<Rightarrow> cluster \<Rightarrow> cluster" where
  "setNode n c = c\<lparr>cl_Nodes := (cl_Nodes c)(keyOf (node_Meta n) \<mapsto> n)\<rparr>"

definition stored :: "cluster \<Rightarrow> Node \<Rightarrow> bool" where
  "stored c n \<longleftrightarrow> cl_Nodes c (keyOf (node_Meta n)) = Some n"

lemma stored_mem: "stored (memCluster w) n \<Longrightarrow> n \<in> set (m_Nodes w)"
  by (simp add: stored_def lookup_mem)

lemma nodeMerged_nodeIs: "nodeMerged base obj srv new \<longleftrightarrow>
   nodeIs srv (mergedLabel (node_Labels base) (node_Labels obj) (node_Labels srv))
     (mergedList (node_Taints base) (node_Taints obj) (node_Taints srv)) new"
  by (simp add: nodeMerged_def nodeIs_def)

lemma nodeIs_labels: "nodeIs n ls ts n' \<Longrightarrow> mapGet (node_Labels n') k = ls k"
  by (simp add: nodeIs_def)

lemma nodeIs_taints: "nodeIs n ls ts n' \<Longrightarrow> node_Taints n' = ts"
  unfolding nodeIs_def by (metis Node.select_convs(2) Node.surjective Node.update_convs(2))

lemma nodeIs_key: "nodeIs n ls ts n' \<Longrightarrow> keyOf (node_Meta n') = keyOf (node_Meta n)"
  unfolding nodeIs_def keyOf_def
  by (metis (no_types, lifting) Node.ext_inject Node.surjective Node.update_convs(1,2) ObjectMeta.ext_inject
      ObjectMeta.surjective ObjectMeta.update_convs(3))

lemma nodeIs_same: "nodeIs n (mapGet (node_Labels n)) (node_Taints n) n"
  by (simp add: nodeIs_def)

lemma setNode_frame [simp]:
  "cl_Modules (setNode n c) = cl_Modules c" "cl_DaemonSets (setNode n c) = cl_DaemonSets c"
  "cl_Deployments (setNode n c) = cl_Deployments c" "cl_ConfigMaps (setNode n c) = cl_ConfigMaps c"
  "cl_DeviceConfigs (setNode n c) = cl_DeviceConfigs c"
  "cl_Nodes (setNode n c) = (cl_Nodes c)(keyOf (node_Meta n) \<mapsto> n)"
  by (simp_all add: setNode_def)

text \<open>The cluster after a node was, or may have been, rewritten.\<close>

definition rewrote ::
  "Node \<Rightarrow> (string \<Rightarrow> string option) \<Rightarrow> Taint list \<Rightarrow> cluster \<Rightarrow> cluster \<Rightarrow> Node \<Rightarrow> bool" where
  "rewrote n ls ts c c' n' \<longleftrightarrow> nodeIs n ls ts n' \<and> c' = setNode n' c"

lemma nodeIs_trans:
  assumes "nodeIs n l1 t1 m" and "nodeIs m l2 t2 p"
  shows "nodeIs n l2 t2 p"
proof -
  have m: "m = n\<lparr>node_Meta := (node_Meta n)\<lparr>om_Labels := node_Labels m\<rparr>, node_Taints := t1\<rparr>"
    and p: "p = m\<lparr>node_Meta := (node_Meta m)\<lparr>om_Labels := node_Labels p\<rparr>, node_Taints := t2\<rparr>"
    using assms by (simp_all add: nodeIs_def)
  have "p = n\<lparr>node_Meta := (node_Meta n)\<lparr>om_Labels := node_Labels p\<rparr>, node_Taints := t2\<rparr>"
    by (subst p, subst m) simp
  with assms(2) show ?thesis by (simp add: nodeIs_def)
qed

lemma setNode_again: "keyOf (node_Meta m) = keyOf (node_Meta n) \<Longrightarrow> setNode m (setNode n c) = setNode m c"
  by (simp add: setNode_def)

lemma rewrote_trans:
  assumes "rewrote n l1 t1 c c1 m" and "rewrote m l2 t2 c1 c2 p"
  shows "rewrote n l2 t2 c c2 p"
  using assms nodeIs_key [of m l2 t2 p] by (auto simp: rewrote_def setNode_again intro: nodeIs_trans)

lemma lawful_patch_node:
  assumes "lawfulClient lib c cl"
  shows "triple (\<lambda>w. w = w0) (apiPatch (Nodes c) obj base)
    (\<lambda>new w'. \<exists>srv. cl_Nodes (cl w0) (keyOf (node_Meta obj)) = Some srv \<and>
       nodeMerged base obj srv new \<and> cl w' = setNode new (cl w0))
    (\<lambda>e w'. cl w' = cl w0 \<or> (\<exists>srv new. cl_Nodes (cl w0) (keyOf (node_Meta obj)) = Some srv \<and>
       nodeMerged base obj srv new \<and> cl w' = setNode new (cl w0)))"
proof -
  from assms have p: "lawfulPatchNode (Nodes c) cl" and k: "wellKeyed (cl w)" for w
    by (auto simp: lawfulClient_def)
  let ?k = "keyOf (node_Meta obj)"
  have eq: "(cl w0)\<lparr>cl_Nodes := (cl_Nodes (cl w0))(?k \<mapsto> new)\<rparr> = setNode new (cl w0)"
    if "cl_Nodes (cl w0) ?k = Some srv" "nodeMerged base obj srv new" for srv new
    using that k [of w0] unfolding setNode_def by (metis nodeMerged_nodeIs nodeIs_key wellKeyed_key(1))
  note law = p [unfolded lawfulPatchNode_def Let_def, THEN spec, of obj, THEN spec, of base, THEN spec, of w0]
  show ?thesis
  proof (rule tripleI)
    fix w new w'
    assume "w = w0" and "apiPatch (Nodes c) obj base w = (Inr new, w')"
    with law eq show "\<exists>srv. cl_Nodes (cl w0) ?k = Some srv \<and> nodeMerged base obj srv new \<and>
       cl w' = setNode new (cl w0)" by auto
  next
    fix w e w'
    assume "w = w0" and "apiPatch (Nodes c) obj base w = (Inl e, w')"
    with law have "cl w' = cl w0 \<or> (\<exists>new srv. cl_Nodes (cl w0) ?k = Some srv \<and>
       nodeMerged base obj srv new \<and> cl w' = (cl w0)\<lparr>cl_Nodes := (cl_Nodes (cl w0))(?k \<mapsto> new)\<rparr>)"
      by auto
    with eq show "cl w' = cl w0 \<or> (\<exists>srv new. cl_Nodes (cl w0) ?k = Some srv \<and>
       nodeMerged base obj srv new \<and> cl w' = setNode new (cl w0))" by metis
  qed
qed

lemma lawful_list_nodes:
  assumes "lawfulClient lib c cl" and "apiList (Nodes c) s w = (r, w')"
  shows "cl w' = cl w"
    and "r = Inr ns \<Longrightarrow> set ns = {n. stored (cl w) n \<and> selects s (node_Labels n)}"
    and "r = Inr ns \<Longrightarrow> distinct (map (\<lambda>n. keyOf (node_Meta n)) ns)"
proof -
  from assms(1) have "lawfulList (apiList (Nodes c)) node_Meta cl cl_Nodes"
    by (simp add: lawfulClient_def)
  from this [unfolded lawfulList_def, rule_format, of s w] assms(2)
  show "cl w' = cl w"
    and "r = Inr ns \<Longrightarrow> set ns = {n. stored (cl w) n \<and> selects s (node_Labels n)}"
    and "r = Inr ns \<Longrightarrow> distinct (map (\<lambda>n. keyOf (node_Meta n)) ns)"
    by (simp_all add: stored_def)
qed


lemma mergedLabel_fresh [simp]: "mergedLabel b obj b = mapGet obj"
  by (auto simp: mergedLabel_def fun_eq_iff)

lemma mergedList_fresh [simp]: "mergedList b obj b = obj"
  by (simp add: mergedList_def)

text \<open>
  A patch computed from a node as it is stored: it writes exactly the labels and taints of
  the patched copy. \<open>wrote cl n ls ts w r w'\<close> says so for an operation that ends in \<open>w'\<close>
  with the result \<open>r\<close>; after an error the write may or may not have happened.
\<close>

definition wrote ::
  "('w \<Rightarrow> cluster) \<Rightarrow> Node \<Rightarrow> (string \<Rightarrow> string option) \<Rightarrow> Taint list \<Rightarrow> 'w \<Rightarrow>
   goerr + Node option \<Rightarrow> 'w \<Rightarrow> bool" where
  "wrote cl n ls ts w r w' \<longleftrightarrow>
     (\<exists>n'. rewrote n ls ts (cl w) (cl w') n' \<and> (\<forall>q. r = Inr q \<longrightarrow> q = Some n')) \<or>
     (cl w' = cl w \<and> isl r)"

lemma patch_fresh:
  assumes "lawfulClient lib c cl" and "stored (cl w) n"
    and "keyOf (node_Meta obj) = keyOf (node_Meta n)"
    and "bindE (apiPatch (Nodes c) obj n) (\<lambda>node'. ret (Some node')) w = (r, w')"
  shows "wrote cl n (mapGet (node_Labels obj)) (node_Taints obj) w r w'"
proof (cases r)
  case (Inl e)
  then have "apiPatch (Nodes c) obj n w = (Inl e, w')" using assms(4) by (simp add: io_simps)
  from triple_Inl [OF lawful_patch_node [OF assms(1)] refl this] assms(2,3) Inl
  show ?thesis by (auto simp: wrote_def rewrote_def stored_def nodeMerged_nodeIs)
next
  case (Inr q)
  then obtain new where "apiPatch (Nodes c) obj n w = (Inr new, w')" and "q = Some new"
    using assms(4) by (auto simp: io_simps)
  from triple_Inr [OF lawful_patch_node [OF assms(1)] refl this(1)] assms(2,3) Inr this(2)
  show ?thesis by (auto simp: wrote_def rewrote_def stored_def nodeMerged_nodeIs)
qed

section \<open>The contract of the interface\<close>

text \<open>
  What the reconciler relies on: the targeted nodes are the stored nodes the selector
  matches; the node to uncordon is upgraded and tainted, the node to upgrade is not yet
  upgraded while no listed node is in upgrade; each of the three writing operations
  writes at most the node it is given, in the way its name says.
\<close>

definition targetedNodes :: "DeviceConfig \<Rightarrow> cluster \<Rightarrow> Node set" where
  "targetedNodes d c = {n. stored c n \<and> selects (Selector (dc_Spec d)) (node_Labels n)}"

locale upgrade_api =
  fixes up :: "'w UpgradeAPI" and lib :: library and cl :: "'w \<Rightarrow> cluster" and ok :: bool
  assumes targeted: "ok \<Longrightarrow> GetTargetedNodes up d w = (res, w') \<Longrightarrow> cl w' = cl w"
    and targeted_set: "ok \<Longrightarrow> GetTargetedNodes up d w = (Inr ns, w') \<Longrightarrow> set ns = targetedNodes d (cl w)"
    and upgraded: "GetUpgradedNode up d ns = Some n \<Longrightarrow>
      n \<in> set ns \<and> getNodeUpgradeState lib n d = nodeUpgraded \<and> isNodeTainted n"
    and pick: "GetNodeForUpgrade up d ns = Some n \<Longrightarrow>
      n \<in> set ns \<and> getNodeUpgradeState lib n d = nodeBeforeUpgrade \<and>
      nodeInUpgrade \<notin> (\<lambda>m. getNodeUpgradeState lib m d) ` set ns"
    and upgraded_none: "GetUpgradedNode up d ns = None \<Longrightarrow> n \<in> set ns \<Longrightarrow>
      getNodeUpgradeState lib n d = nodeUpgraded \<Longrightarrow> \<not> isNodeTainted n"
    and pick_none: "GetNodeForUpgrade up d ns = None \<Longrightarrow>
      (\<exists>n \<in> set ns. getNodeUpgradeState lib n d = nodeInUpgrade) \<or>
      (\<forall>n \<in> set ns. getNodeUpgradeState lib n d \<noteq> nodeBeforeUpgrade)"
    and uncordon_nil: "UncordonUpgradedNode up None w = (Inr None, w)"
    and uncordon: "ok \<Longrightarrow> stored (cl w) n \<Longrightarrow> UncordonUpgradedNode up (Some n) w = (r, w') \<Longrightarrow>
      wrote cl n (mapGet (node_Labels n)) (filter (\<lambda>t. \<not> isUpgradeTaint t) (node_Taints n)) w r w'"
    and cordon_nil: "CordonNodeForUpgrade up d None w = (Inr None, w)"
    and cordon_skip: "isNewNodeForUpgrade lib n d \<or> hasUpgradeTaint (node_Taints n) \<Longrightarrow>
      CordonNodeForUpgrade up d (Some n) w = (Inr (Some n), w)"
    and cordon: "ok \<Longrightarrow> stored (cl w) n \<Longrightarrow> \<not> isNewNodeForUpgrade lib n d \<Longrightarrow>
      \<not> hasUpgradeTaint (node_Taints n) \<Longrightarrow> CordonNodeForUpgrade up d (Some n) w = (r, w') \<Longrightarrow>
      wrote cl n (mapGet (node_Labels n)) (node_Taints n @ [upgradeTaint]) w r w'"
    and kickoff_nil: "KickoffUpgrade up d None w = (Inr None, w)"
    and kickoff: "ok \<Longrightarrow> stored (cl w) n \<Longrightarrow> KickoffUpgrade up d (Some n) w = (r, w') \<Longrightarrow>
      wrote cl n ((mapGet (node_Labels n))(versionLabel lib d \<mapsto> wanted d)) (node_Taints n) w r w'"

section \<open>The implementation meets the contract\<close>

lemma upgradeImpl_targeted:
  assumes "lawfulClient lib c cl" "upgradeImpl_GetTargetedNodes c d w = (r, w')"
  shows "cl w' = cl w" and "r = Inr ns \<Longrightarrow> set ns = targetedNodes d (cl w)"
proof -
  obtain r0 where l: "apiList (Nodes c) (Selector (dc_Spec d)) w = (r0, w')"
    and r0: "r = Inr ns \<Longrightarrow> r0 = Inr ns"
    using assms(2) by (cases r) (auto simp: upgradeImpl_GetTargetedNodes_def io_simps)
  from lawful_list_nodes(1) [OF assms(1) l] show "cl w' = cl w" .
  from lawful_list_nodes(2) [OF assms(1) l r0]
  show "r = Inr ns \<Longrightarrow> set ns = targetedNodes d (cl w)" by (simp add: targetedNodes_def)
qed

lemma upgradeImpl_uncordon:
  assumes "lawfulClient lib c cl" "stored (cl w) n"
    and "upgradeImpl_UncordonUpgradedNode c (Some n) w = (r, w')"
  shows "wrote cl n (mapGet (node_Labels n)) (filter (\<lambda>t. \<not> isUpgradeTaint t) (node_Taints n)) w r w'"
  using patch_fresh [OF assms(1,2), of "n\<lparr>node_Taints := filter (\<lambda>t. \<not> isUpgradeTaint t) (node_Taints n)\<rparr>"]
    assms(3)
  by (simp add: upgradeImpl_UncordonUpgradedNode_def removeUpgradeTaint_eq)

lemma upgradeImpl_cordon:
  assumes "lawfulClient lib c cl" "stored (cl w) n"
    and "\<not> isNewNodeForUpgrade lib n d" "\<not> hasUpgradeTaint (node_Taints n)"
    and "upgradeImpl_CordonNodeForUpgrade lib c d (Some n) w = (r, w')"
  shows "wrote cl n (mapGet (node_Labels n)) (node_Taints n @ [upgradeTaint]) w r w'"
  using patch_fresh [OF assms(1,2), of "n\<lparr>node_Taints := node_Taints n @ [upgradeTaint]\<rparr>"] assms(3-)
  by (simp add: upgradeImpl_CordonNodeForUpgrade_def)

lemma upgradeImpl_kickoff:
  assumes "lawfulClient lib c cl" "stored (cl w) n"
    and "upgradeImpl_KickoffUpgrade lib c d (Some n) w = (r, w')"
  shows "wrote cl n ((mapGet (node_Labels n))(versionLabel lib d \<mapsto> wanted d)) (node_Taints n) w r w'"
proof -
  define m where "m = (case node_Labels n of None \<Rightarrow> Map.empty | Some m \<Rightarrow> m)"
  then have m: "mapGet (node_Labels n) = m" and
    s: "(case node_Labels n of None \<Rightarrow> Some Map.empty | Some m \<Rightarrow> Some m) = Some m"
    by (auto simp: fun_eq_iff split: option.splits)
  let ?obj = "nodeSetLabels (Some (m(versionLabel lib d \<mapsto> wanted d))) n"
  have "mapGet (node_Labels ?obj) = m(versionLabel lib d \<mapsto> wanted d)" by (simp add: fun_eq_iff)
  with patch_fresh [OF assms(1,2), of ?obj] assms(3) show ?thesis
    by (simp add: upgradeImpl_KickoffUpgrade_def s m)
qed

lemma NewUpgradeAPI_simps [simp]:
  "GetTargetedNodes (NewUpgradeAPI lib c) = upgradeImpl_GetTargetedNodes c"
  "GetUpgradedNode (NewUpgradeAPI lib c) = upgradeImpl_GetUpgradedNode lib"
  "UncordonUpgradedNode (NewUpgradeAPI lib c) = upgradeImpl_UncordonUpgradedNode c"
  "GetNodeForUpgrade (NewUpgradeAPI lib c) = upgradeImpl_GetNodeForUpgrade lib"
  "CordonNodeForUpgrade (NewUpgradeAPI lib c) = upgradeImpl_CordonNodeForUpgrade lib c"
  "KickoffUpgrade (NewUpgradeAPI lib c) = upgradeImpl_KickoffUpgrade lib c"
  "RemoveUpgradeLabels (NewUpgradeAPI lib c) = upgradeImpl_RemoveUpgradeLabels lib c"
  by (simp_all add: NewUpgradeAPI_def)

interpretation ui: upgrade_api "NewUpgradeAPI lib c" lib cl "lawfulClient lib c cl" for lib c cl
proof (unfold_locales, goal_cases)
  case 1 then show ?case by (simp add: upgradeImpl_targeted)
next
  case 2 then show ?case by (simp add: upgradeImpl_targeted)
next
  case 3 then show ?case by (auto simp: GetUpgradedNode_find dest: find_SomeD)
next
  case (4 d ns n)
  then show ?case
    by (force simp: upgradeImpl_GetNodeForUpgrade_def nodeForUpgradeLoop_eq
        split: if_splits option.splits dest: find_last_SomeD)
next
  case 5 then show ?case by (auto simp: GetUpgradedNode_find find_None)
next
  case 6 then show ?case
    by (auto simp: upgradeImpl_GetNodeForUpgrade_def nodeForUpgradeLoop_eq find_last_None
        split: if_splits option.splits)
next
  case 7 show ?case by (simp add: upgradeImpl_UncordonUpgradedNode_def)
next
  case 8 then show ?case by (simp add: upgradeImpl_uncordon)
next
  case 9 show ?case by (simp add: upgradeImpl_CordonNodeForUpgrade_def)
next
  case 10 then show ?case by (auto simp: upgradeImpl_CordonNodeForUpgrade_def)
next
  case 11 then show ?case by (simp add: upgradeImpl_cordon)
next
  case 12 show ?case by (simp add: upgradeImpl_KickoffUpgrade_def)
next
  case 13 then show ?case by (simp add: upgradeImpl_kickoff)
qed

section \<open>Removing the labels\<close>

text \<open>
  The loop patches listed nodes one after the other, each from the copy that was listed.
  The copies have different names, so each is still the stored one when its turn comes.
\<close>

definition unlabelled :: "string \<Rightarrow> Node \<Rightarrow> Node \<Rightarrow> bool" where
  "unlabelled key n n' \<longleftrightarrow> nodeIs n ((mapGet (node_Labels n))(key := None)) (node_Taints n) n'"

definition sameButNodes :: "cluster \<Rightarrow> cluster \<Rightarrow> bool" where
  "sameButNodes c c' \<longleftrightarrow> cl_Modules c' = cl_Modules c \<and> cl_DaemonSets c' = cl_DaemonSets c \<and>
     cl_Deployments c' = cl_Deployments c \<and> cl_ConfigMaps c' = cl_ConfigMaps c \<and>
     cl_DeviceConfigs c' = cl_DeviceConfigs c"

lemma sameButNodes_refl [simp]: "sameButNodes c c"
  by (simp add: sameButNodes_def)

lemma sameButNodes_setNode [simp]: "sameButNodes (setNode n c) c' = sameButNodes c c'"
  by (simp add: sameButNodes_def)

lemma patch_unlabel:
  assumes "lawfulClient lib c cl" and "stored (cl w) n"
    and "apiPatch (Nodes c) (nodeSetLabels (mapDelete (node_Labels n) key) n) n w = (r, w')"
  shows "(\<exists>n'. unlabelled key n n' \<and> cl w' = setNode n' (cl w)) \<or> (cl w' = cl w \<and> isl r)"
proof -
  let ?obj = "nodeSetLabels (mapDelete (node_Labels n) key) n"
  have l: "mapGet (node_Labels ?obj) = (mapGet (node_Labels n))(key := None)" by (auto simp: fun_eq_iff)
  obtain r0 where "bindE (apiPatch (Nodes c) ?obj n) (\<lambda>node'. ret (Some node')) w = (r0, w')" "isl r0 = isl r"
    using assms(3) by (cases r) (auto simp: bindE_def)
  from patch_fresh [OF assms(1,2) _ this(1)] this(2) show ?thesis
    unfolding wrote_def rewrote_def unlabelled_def l by auto
qed

text \<open>\<open>unlabelling key c c' ns r\<close>: from \<open>c\<close> to \<open>c'\<close> the nodes \<open>ns\<close> lost the label, or not all if \<open>r\<close> is an error.\<close>

definition unlabelling ::
  "string \<Rightarrow> cluster \<Rightarrow> cluster \<Rightarrow> Node list \<Rightarrow> goerr + unit \<Rightarrow> bool" where
  "unlabelling key c c' ns r \<longleftrightarrow> sameButNodes c c' \<and>
     (\<forall>k. k \<notin> (\<lambda>n. keyOf (node_Meta n)) ` set ns \<longrightarrow> cl_Nodes c' k = cl_Nodes c k) \<and>
     (\<forall>n \<in> set ns. \<exists>n'. cl_Nodes c' (keyOf (node_Meta n)) = Some n' \<and>
        (unlabelled key n n' \<or> (n' = n \<and> isl r)))"

lemma unlabelling_none: "\<forall>n \<in> set ns. stored c n \<Longrightarrow> isl r \<Longrightarrow> unlabelling key c c ns r"
  by (simp add: unlabelling_def stored_def)

lemma unlabelling_Cons:
  assumes "unlabelled key n n'" and "unlabelling key (setNode n' c) c' ns r"
    and "keyOf (node_Meta n) \<notin> (\<lambda>n. keyOf (node_Meta n)) ` set ns"
  shows "unlabelling key c c' (n # ns) r"
proof -
  have key: "keyOf (node_Meta n') = keyOf (node_Meta n)"
    using assms(1) by (auto simp: unlabelled_def dest: nodeIs_key)
  have rest: "\<forall>k. k \<notin> (\<lambda>n. keyOf (node_Meta n)) ` set ns \<longrightarrow>
      cl_Nodes c' k = ((cl_Nodes c)(keyOf (node_Meta n) \<mapsto> n')) k"
    using assms(2) key by (simp add: unlabelling_def)
  then have "cl_Nodes c' (keyOf (node_Meta n)) = Some n'" using assms(3) by simp
  with rest assms(1,2) key show ?thesis by (simp add: unlabelling_def)
qed

lemma removeLabelLoop_effect:
  assumes "lawfulClient lib c cl"
  shows "\<forall>n \<in> set ns. stored (cl w) n \<Longrightarrow> distinct (map (\<lambda>n. keyOf (node_Meta n)) ns) \<Longrightarrow>
    removeLabelLoop c key ns w = (r, w') \<Longrightarrow> unlabelling key (cl w) (cl w') ns r"
proof (induction ns arbitrary: w)
  case Nil
  then show ?case by (simp add: unlabelling_def)
next
  case (Cons n ns)
  let ?k = "keyOf (node_Meta n)"
  obtain r1 w1 where p: "apiPatch (Nodes c) (nodeSetLabels (mapDelete (node_Labels n) key) n) n w = (r1, w1)"
    by fastforce
  have st: "stored (cl w) n" and fresh: "?k \<notin> (\<lambda>n. keyOf (node_Meta n)) ` set ns" using Cons.prems by auto
  have others: "stored (setNode n' (cl w)) m" if "m \<in> set ns" "unlabelled key n n'" for m n'
  proof -
    have "keyOf (node_Meta m) \<noteq> ?k" using that(1) fresh by (metis image_eqI)
    moreover have "keyOf (node_Meta n') = ?k" using that(2) by (auto simp: unlabelled_def dest: nodeIs_key)
    ultimately show ?thesis using that(1) Cons.prems(1) by (simp add: stored_def)
  qed
  from patch_unlabel [OF assms st p] show ?case
  proof (elim disjE exE conjE)
    fix n' assume n': "unlabelled key n n'" "cl w1 = setNode n' (cl w)"
    have "unlabelling key (cl w1) (cl w') ns r"
    proof (cases r1)
      case (Inl e)
      then have "w' = w1" "isl r" using Cons.prems(3) p by (auto simp: bindE_def wrapE_def tryE_def Let_def)
      then show ?thesis using others [OF _ n'(1)] n'(2) by (simp add: unlabelling_none)
    next
      case (Inr n2)
      with Cons.prems(3) p have "removeLabelLoop c key ns w1 = (r, w')"
        by (simp add: bindE_def wrapE_def tryE_def Let_def)
      then show ?thesis using Cons.IH [of w1] Cons.prems(2) others [OF _ n'(1)] n'(2) by simp
    qed
    with n' fresh show ?thesis by (simp add: unlabelling_Cons)
  next
    assume same: "cl w1 = cl w" "isl r1"
    then have "w' = w1" "isl r" using Cons.prems(3) p by (auto simp: bindE_def wrapE_def tryE_def Let_def isl_def)
    with same show ?thesis using unlabelling_none [OF Cons.prems(1)] by simp
  qed
qed

lemma RemoveUpgradeLabels_spec:
  assumes "lawfulClient lib c cl" and "upgradeImpl_RemoveUpgradeLabels lib c d w = (Inr (), w')"
  shows "sameButNodes (cl w) (cl w') \<and> (\<forall>k. case cl_Nodes (cl w) k of
      None \<Rightarrow> cl_Nodes (cl w') k = None
    | Some n \<Rightarrow> if mapGet (node_Labels n) (versionLabel lib d) = Some (wanted d)
        then \<exists>n'. cl_Nodes (cl w') k = Some n' \<and> unlabelled (versionLabel lib d) n n'
        else cl_Nodes (cl w') k = Some n)"
proof -
  let ?key = "versionLabel lib d"
  obtain ns w1 where l: "apiList (Nodes c) (Some [?key \<mapsto> wanted d]) w = (Inr ns, w1)"
    and loop: "removeLabelLoop c ?key ns w1 = (Inr (), w')"
    using assms(2) by (auto simp: upgradeImpl_RemoveUpgradeLabels_def Let_def io_simps)
  note list = lawful_list_nodes [OF assms(1) l]
  have ns: "n \<in> set ns \<longleftrightarrow> stored (cl w) n \<and> mapGet (node_Labels n) ?key = Some (wanted d)" for n
    using list(2) by auto
  have "unlabelling ?key (cl w1) (cl w') ns (Inr ())"
    using removeLabelLoop_effect [OF assms(1) _ _ loop] list by (simp add: ns)
  then have un: "sameButNodes (cl w) (cl w')"
    "\<And>k. k \<notin> (\<lambda>n. keyOf (node_Meta n)) ` set ns \<Longrightarrow> cl_Nodes (cl w') k = cl_Nodes (cl w) k"
    "\<And>n. n \<in> set ns \<Longrightarrow> \<exists>n'. cl_Nodes (cl w') (keyOf (node_Meta n)) = Some n' \<and> unlabelled ?key n n'"
    using list(1) by (simp_all add: unlabelling_def)
  have same: "cl_Nodes (cl w') k = cl_Nodes (cl w) k"
    if "\<forall>n. cl_Nodes (cl w) k = Some n \<longrightarrow> mapGet (node_Labels n) ?key \<noteq> Some (wanted d)" for k
    by (rule un(2)) (use that in \<open>auto simp: ns stored_def\<close>)
  show ?thesis
  proof (intro conjI allI un(1))
    fix k
    show "case cl_Nodes (cl w) k of None \<Rightarrow> cl_Nodes (cl w') k = None
      | Some n \<Rightarrow> if mapGet (node_Labels n) ?key = Some (wanted d)
          then \<exists>n'. cl_Nodes (cl w') k = Some n' \<and> unlabelled ?key n n'
          else cl_Nodes (cl w') k = Some n"
    proof (cases "cl_Nodes (cl w) k")
      case None
      with same [of k] show ?thesis by simp
    next
      case (Some n)
      then have "keyOf (node_Meta n) = k"
        using wellKeyed_key(1) [OF lawfulClientD(1) [OF assms(1)]] by blast
      with Some same [of k] un(3) [of n] show ?thesis by (auto simp: ns stored_def)
    qed
  qed
qed

section \<open>Properties\<close>

text \<open>
  C25: the node chosen for the next upgrade is the last listed node that still waits for the
  wanted version, and there is none while any listed node is in upgrade.
\<close>

theorem GetNodeForUpgrade_spec:
  "upgradeImpl_GetNodeForUpgrade lib d ns =
     (if \<exists>n \<in> set ns. getNodeUpgradeState lib n d = nodeInUpgrade then None
      else find_last (\<lambda>n. getNodeUpgradeState lib n d = nodeBeforeUpgrade) ns)"
  by (simp add: upgradeImpl_GetNodeForUpgrade_def nodeForUpgradeLoop_eq split: option.split)

text \<open>
  C26: cordoning a node and uncordoning it again leaves its labels and its taints, in their
  order, as they were, on a node that was not cordoned before.
\<close>

theorem cordon_uncordon_roundtrip:
  assumes "lawfulClient lib c cl" and "stored (cl w) n" and "\<not> hasUpgradeTaint (node_Taints n)"
    and "bindE (upgradeImpl_CordonNodeForUpgrade lib c d (Some n)) (upgradeImpl_UncordonUpgradedNode c) w
      = (Inr q, w')"
  shows "\<exists>n'. q = Some n' \<and> rewrote n (mapGet (node_Labels n)) (node_Taints n) (cl w) (cl w') n'"
proof -
  obtain p w1 where cordon: "upgradeImpl_CordonNodeForUpgrade lib c d (Some n) w = (Inr p, w1)"
    and uncordon: "upgradeImpl_UncordonUpgradedNode c p w1 = (Inr q, w')"
    using assms(4) by (auto simp: io_simps)
  have clean: "filter (\<lambda>t. \<not> isUpgradeTaint t) (node_Taints n) = node_Taints n"
    using assms(3) by (simp add: hasUpgradeTaint_iff filter_id_conv)
  show ?thesis
  proof (cases "isNewNodeForUpgrade lib n d")
    case True
    with cordon have "p = Some n" "w1 = w" by (auto simp: upgradeImpl_CordonNodeForUpgrade_def)
    with upgradeImpl_uncordon [OF assms(1,2), of "Inr q" w'] uncordon clean show ?thesis
      by (auto simp: wrote_def)
  next
    case False
    from upgradeImpl_cordon [OF assms(1,2) False assms(3) cordon] obtain m where
      m: "rewrote n (mapGet (node_Labels n)) (node_Taints n @ [upgradeTaint]) (cl w) (cl w1) m" "p = Some m"
      by (auto simp: wrote_def)
    then have st: "stored (cl w1) m" and ts: "node_Taints m = node_Taints n @ [upgradeTaint]"
      and ls: "mapGet (node_Labels m) = mapGet (node_Labels n)"
      by (auto simp: rewrote_def stored_def nodeIs_taints nodeIs_labels fun_eq_iff)
    from upgradeImpl_uncordon [OF assms(1) st, of "Inr q" w'] uncordon m(2) obtain n' where
      n': "rewrote m (mapGet (node_Labels m)) (filter (\<lambda>t. \<not> isUpgradeTaint t) (node_Taints m))
        (cl w1) (cl w') n'" "q = Some n'"
      by (auto simp: wrote_def)
    from rewrote_trans [OF m(1) n'(1)] have "rewrote n (mapGet (node_Labels n)) (node_Taints n) (cl w) (cl w') n'"
      by (simp add: ts ls clean)
    with n'(2) show ?thesis by simp
  qed
qed

text \<open>The node is really in the cluster, tainted by another controller and not cordoned before.\<close>

lemma cordon_uncordon_roundtrip_witness:
  "let n = exNode ''a'' [exVersionLabel \<mapsto> ''1'', exReadyLabel \<mapsto> ''1''] [\<lparr>taint_Key = ''gpu'', taint_Value = [],
         taint_Effect = ''NoSchedule''\<rparr>];
       w = exWorld [n] [];
       (r, w') = bindE (upgradeImpl_CordonNodeForUpgrade memLib memClient (exDC ''2'') (Some n))
         (upgradeImpl_UncordonUpgradedNode memClient) w
   in \<exists>n'. r = Inr (Some n') \<and>
        rewrote n (mapGet (node_Labels n)) (node_Taints n) (memCluster w) (memCluster w') n'"
proof -
  let ?t = "\<lparr>taint_Key = ''gpu'', taint_Value = [], taint_Effect = ''NoSchedule''\<rparr>"
  let ?n = "exNode ''a'' [exVersionLabel \<mapsto> ''1'', exReadyLabel \<mapsto> ''1''] [?t]"
  let ?w = "exWorld [?n] []"
  let ?m = "bindE (upgradeImpl_CordonNodeForUpgrade memLib memClient (exDC ''2'') (Some ?n))
     (upgradeImpl_UncordonUpgradedNode memClient)"
  have "isl (fst (?m ?w)) = False"
    by (simp add: bindE_def upgradeImpl_CordonNodeForUpgrade_def upgradeImpl_UncordonUpgradedNode_def
        isNewNodeForUpgrade_def upgradeTaint_def memClient_simps memPatchNode_def Let_def nodeSetLabels_def
        putObj_def)
  then obtain q w' where run: "?m ?w = (Inr q, w')" by (cases "?m ?w"; cases "fst (?m ?w)") auto
  have "stored (memCluster ?w) ?n" by (simp add: stored_def)
  moreover have "\<not> hasUpgradeTaint (node_Taints ?n)" by (simp add: upgradeTaint_def UpgradeTaintTolerationKey_def)
  ultimately have "\<exists>n'. q = Some n' \<and> rewrote ?n (mapGet (node_Labels ?n)) (node_Taints ?n)
      (memCluster ?w) (memCluster w') n'"
    using cordon_uncordon_roundtrip [OF lawfulClient_mem _ _ run] by blast
  with run show ?thesis by (simp add: Let_def)
qed

text \<open>
  C27: RemoveUpgradeLabels, when it succeeds, has taken the version label off exactly the
  nodes on which it has the wanted version, and changed nothing else in the cluster. (A
  node whose label names another version keeps it.)
\<close>

theorem RemoveUpgradeLabels_effect:
  assumes "lawfulClient lib c cl" and "upgradeImpl_RemoveUpgradeLabels lib c d w = (Inr (), w')"
  shows "sameButNodes (cl w) (cl w') \<and> (\<forall>k. case cl_Nodes (cl w) k of
      None \<Rightarrow> cl_Nodes (cl w') k = None
    | Some n \<Rightarrow> if mapGet (node_Labels n) (versionLabel lib d) = Some (wanted d)
        then \<exists>n'. cl_Nodes (cl w') k = Some n' \<and> unlabelled (versionLabel lib d) n n'
        else cl_Nodes (cl w') k = Some n)"
  by (rule RemoveUpgradeLabels_spec [OF assms])

lemma RemoveUpgradeLabels_effect_witness:
  "let w = exWorld [exNode ''a'' [exVersionLabel \<mapsto> ''2''] [], exNode ''b'' [exVersionLabel \<mapsto> ''1''] []] [];
       (r, w') = upgradeImpl_RemoveUpgradeLabels memLib memClient (exDC ''2'') w
   in r = Inr () \<and> mapGet (node_Labels (the (cl_Nodes (memCluster w') (NN [] ''a'')))) exVersionLabel = None \<and>
      cl_Nodes (memCluster w') (NN [] ''b'') = Some (exNode ''b'' [exVersionLabel \<mapsto> ''1''] [])"
proof -
  let ?w = "exWorld [exNode ''a'' [exVersionLabel \<mapsto> ''2''] [], exNode ''b'' [exVersionLabel \<mapsto> ''1''] []] []"
  let ?m = "upgradeImpl_RemoveUpgradeLabels memLib memClient (exDC ''2'')"
  have "isl (fst (?m ?w)) = False"
    by (simp add: bindE_def wrapE_def tryE_def upgradeImpl_RemoveUpgradeLabels_def memClient_simps
        memList_def listing_def memPatchNode_def Let_def nodeSetLabels_def putObj_def)
  then obtain w' where run: "?m ?w = (Inr (), w')" by (cases "?m ?w"; cases "fst (?m ?w)") auto
  from RemoveUpgradeLabels_effect [OF lawfulClient_mem run, THEN conjunct2, THEN spec, of "NN [] ''a''"]
    RemoveUpgradeLabels_effect [OF lawfulClient_mem run, THEN conjunct2, THEN spec, of "NN [] ''b''"] run
  show ?thesis by (auto simp: unlabelled_def nodeIs_labels Let_def)
qed

text \<open>
  C28: the two tests for the upgrade taint disagree. The search for a node to uncordon looks at
  the taint's key only, the uncordoning itself at its key and its effect. A ready node with
  a taint of that key and another effect is therefore picked, keeps its taint, whatever the
  outcome of the call, and is picked again: no node listed after it is ever uncordoned.
\<close>

theorem foreign_taint_starves:
  assumes "lawfulClient lib c cl" and "stored (cl w) n"
    and "upgradeImpl_GetUpgradedNode lib d (pre @ n # post) = Some n" and "\<not> hasUpgradeTaint (node_Taints n)"
    and "upgradeImpl_UncordonUpgradedNode c (Some n) w = (r, w')"
  shows "\<exists>n'. cl w' = setNode n' (cl w) \<and> keyOf (node_Meta n') = keyOf (node_Meta n) \<and>
    node_Taints n' = node_Taints n \<and> (n \<notin> set pre \<longrightarrow>
      upgradeImpl_GetUpgradedNode lib d (pre @ n' # post) = Some n')"
proof -
  have "filter (\<lambda>t. \<not> isUpgradeTaint t) (node_Taints n) = node_Taints n"
    using assms(4) by (simp add: hasUpgradeTaint_iff filter_id_conv)
  with upgradeImpl_uncordon [OF assms(1,2,5)]
  have "wrote cl n (mapGet (node_Labels n)) (node_Taints n) w r w'" by simp
  moreover have "setNode n (cl w) = cl w" using assms(2) by (simp add: setNode_def stored_def fun_upd_idem)
  ultimately obtain n' where n': "nodeIs n (mapGet (node_Labels n)) (node_Taints n) n'" "cl w' = setNode n' (cl w)"
    using nodeIs_same unfolding wrote_def rewrote_def by metis
  then have same: "node_Taints n' = node_Taints n" "getNodeUpgradeState lib n' d = getNodeUpgradeState lib n d"
    "keyOf (node_Meta n') = keyOf (node_Meta n)"
    by (simp_all add: nodeIs_taints nodeIs_key nodeIs_labels cong: state_cong)
  show ?thesis
  proof (intro exI conjI impI)
    assume "n \<notin> set pre"
    with assms(3) same show "upgradeImpl_GetUpgradedNode lib d (pre @ n' # post) = Some n'"
      by (auto simp: GetUpgradedNode_find find_append isNodeTainted_def dest: find_SomeD split: option.splits if_splits)
  qed (use n' same in simp_all)
qed

lemma foreign_taint_starves_witness:
  "let n = exNode ''a'' [exVersionLabel \<mapsto> ''2'', exReadyLabel \<mapsto> ''2'']
         [\<lparr>taint_Key = UpgradeTaintTolerationKey, taint_Value = ''true'', taint_Effect = ''NoSchedule''\<rparr>];
       w = exWorld [n] []
   in upgradeImpl_GetUpgradedNode memLib (exDC ''2'') [n] = Some n \<and>
      (\<exists>n'. memCluster (snd (upgradeImpl_UncordonUpgradedNode memClient (Some n) w)) = setNode n' (memCluster w) \<and>
         node_Taints n' = node_Taints n)"
proof -
  let ?n = "exNode ''a'' [exVersionLabel \<mapsto> ''2'', exReadyLabel \<mapsto> ''2'']
    [\<lparr>taint_Key = UpgradeTaintTolerationKey, taint_Value = ''true'', taint_Effect = ''NoSchedule''\<rparr>]"
  let ?w = "exWorld [?n] []"
  have st: "stored (memCluster ?w) ?n" by (simp add: stored_def)
  have pick: "upgradeImpl_GetUpgradedNode memLib (exDC ''2'') ([] @ ?n # []) = Some ?n"
    by (simp add: state_iff isNodeTainted_def)
  have foreign: "\<not> hasUpgradeTaint (node_Taints ?n)" by (simp add: upgradeTaint_def TaintEffectNoExecute_def)
  note starves = foreign_taint_starves [where lib = memLib and c = memClient and cl = memCluster and w = ?w
      and n = ?n and d = "exDC ''2''" and pre = "[]" and post = "[]",
      OF lawfulClient_mem st pick foreign prod.collapse [symmetric]]
  have "upgradeImpl_GetUpgradedNode memLib (exDC ''2'') [?n] = Some ?n" using pick by simp
  with starves show ?thesis unfolding Let_def by blast
qed

end
