(* ===== verification/Rollout.thy ===== *)
theory Rollout
  imports Upgrade "HOL-Library.Sublist"
begin

text \<open>
  The rolling upgrade as an abstract protocol over the cluster: three kinds of step
  (remove the taint of an upgraded node, taint a node before its upgrade, ask for the new
  version on a node), each with the guard under which the operator may take it. The
  reconciler's code is shown to take only such steps (theory Controller); what holds of
  every step therefore holds of the code. The second part closes the protocol with the
  steps of its environment and proves what holds in every reachable state.
\<close>

section \<open>The protocol\<close>

definition inUpgrade :: "library \<Rightarrow> DeviceConfig \<Rightarrow> cluster \<Rightarrow> Node set" where
  "inUpgrade lib d c = {n \<in> targetedNodes d c. getNodeUpgradeState lib n d = nodeInUpgrade}"

datatype action = Uncordon | Cordon | Start

inductive rollout_step :: "library \<Rightarrow> DeviceConfig \<Rightarrow> action \<Rightarrow> cluster \<Rightarrow> cluster \<Rightarrow> bool"
  for lib :: library and d :: DeviceConfig where
  step_Uncordon: "n \<in> targetedNodes d c \<Longrightarrow> getNodeUpgradeState lib n d = nodeUpgraded \<Longrightarrow>
    isNodeTainted n \<Longrightarrow>
    rewrote n (mapGet (node_Labels n)) (filter (\<lambda>t. \<not> isUpgradeTaint t) (node_Taints n)) c c' n' \<Longrightarrow>
    rollout_step lib d Uncordon c c'"
| step_Cordon: "n \<in> targetedNodes d c \<Longrightarrow> getNodeUpgradeState lib n d = nodeBeforeUpgrade \<Longrightarrow>
    inUpgrade lib d c = {} \<Longrightarrow> \<not> isNewNodeForUpgrade lib n d \<Longrightarrow>
    \<not> hasUpgradeTaint (node_Taints n) \<Longrightarrow>
    rewrote n (mapGet (node_Labels n)) (node_Taints n @ [upgradeTaint]) c c' n' \<Longrightarrow>
    rollout_step lib d Cordon c c'"
| step_Start: "n \<in> targetedNodes d c \<Longrightarrow> getNodeUpgradeState lib n d = nodeBeforeUpgrade \<Longrightarrow>
    inUpgrade lib d c = {} \<Longrightarrow>
    isNewNodeForUpgrade lib n d \<or> hasUpgradeTaint (node_Taints n) \<Longrightarrow>
    rewrote n ((mapGet (node_Labels n))(versionLabel lib d \<mapsto> wanted d)) (node_Taints n) c c' n' \<Longrightarrow>
    rollout_step lib d Start c c'"

inductive_cases UncordonE: "rollout_step lib d Uncordon c c'"
inductive_cases CordonE: "rollout_step lib d Cordon c c'"
inductive_cases StartE: "rollout_step lib d Start c c'"

lemmas rollout_stepE = UncordonE CordonE StartE

text \<open>A run takes the given actions in order.\<close>

inductive rollout_run :: "library \<Rightarrow> DeviceConfig \<Rightarrow> action list \<Rightarrow> cluster \<Rightarrow> cluster \<Rightarrow> bool"
  for lib :: library and d :: DeviceConfig where
  run_Nil [intro]: "rollout_run lib d [] c c"
| run_Cons: "rollout_step lib d a c c1 \<Longrightarrow> rollout_run lib d as c1 c' \<Longrightarrow> rollout_run lib d (a # as) c c'"

inductive_simps run_Nil_iff [simp]: "rollout_run lib d [] c c'"
inductive_simps run_Cons_iff: "rollout_run lib d (a # as) c c'"

lemma run_append: "rollout_run lib d as c c1 \<Longrightarrow> rollout_run lib d bs c1 c' \<Longrightarrow> rollout_run lib d (as @ bs) c c'"
  by (induction rule: rollout_run.induct) (auto intro: run_Cons)

lemma run_single: "rollout_step lib d a c c' \<Longrightarrow> rollout_run lib d [a] c c'"
  by (simp add: run_Cons_iff)

lemma run_appendE:
  "rollout_run lib d (as @ bs) c c' \<Longrightarrow> \<exists>c1. rollout_run lib d as c c1 \<and> rollout_run lib d bs c1 c'"
  by (induction as arbitrary: c) (simp_all add: run_Cons_iff, blast)

text \<open>
  \<open>did lib d acts c c'\<close>: some of the actions \<open>acts\<close> were taken, each at most once and in
  this order.
\<close>

definition did :: "library \<Rightarrow> DeviceConfig \<Rightarrow> action list \<Rightarrow> cluster \<Rightarrow> cluster \<Rightarrow> bool" where
  "did lib d acts c c' \<longleftrightarrow> (\<exists>as. subseq as acts \<and> rollout_run lib d as c c')"

lemma did_refl [simp]: "did lib d acts c c"
  by (auto simp: did_def intro: exI [of _ "[]"])

lemma did_single: "rollout_step lib d a c c' \<Longrightarrow> did lib d [a] c c'"
  by (auto simp: did_def intro!: exI [of _ "[a]"] run_single)

lemma did_append: "did lib d acts c c1 \<Longrightarrow> did lib d bcts c1 c' \<Longrightarrow> did lib d (acts @ bcts) c c'"
  unfolding did_def by (blast intro: run_append list_emb_append_mono)

lemma did_mono: "did lib d acts c c' \<Longrightarrow> subseq acts bcts \<Longrightarrow> did lib d bcts c c'"
  unfolding did_def by (blast intro: subseq_order.order_trans)

section \<open>Rewriting one node\<close>

lemma stored_setNode:
  "stored (setNode n c) m \<longleftrightarrow>
     (if keyOf (node_Meta m) = keyOf (node_Meta n) then m = n else stored c m)"
  by (auto simp: stored_def)

lemma stored_unique: "stored c n \<Longrightarrow> stored c m \<Longrightarrow> keyOf (node_Meta n) = keyOf (node_Meta m) \<Longrightarrow> n = m"
  by (simp add: stored_def)

lemma targetedNodes_stored: "n \<in> targetedNodes d c \<Longrightarrow> stored c n"
  by (simp add: targetedNodes_def)

lemma rewrote_stored:
  "rewrote n ls ts c c' n' \<Longrightarrow>
     stored c' m \<longleftrightarrow> (if keyOf (node_Meta m) = keyOf (node_Meta n) then m = n' else stored c m)"
  by (auto simp: rewrote_def stored_setNode nodeIs_key)

lemma rewrote_Nodes: "rewrote n ls ts c c' n' \<Longrightarrow> cl_Nodes c' = (cl_Nodes c)(keyOf (node_Meta n) \<mapsto> n')"
  by (auto simp: rewrote_def nodeIs_key)

lemma rewrote_new: "rewrote n ls ts c c' n' \<Longrightarrow> stored c' n'"
  by (auto simp: rewrote_def stored_setNode)

lemma rewrote_labels: "rewrote n ls ts c c' n' \<Longrightarrow> mapGet (node_Labels n') k = ls k"
  by (auto simp: rewrote_def dest: nodeIs_labels)

lemma rewrote_taints: "rewrote n ls ts c c' n' \<Longrightarrow> node_Taints n' = ts"
  by (auto simp: rewrote_def dest: nodeIs_taints)

lemma rewrote_key: "rewrote n ls ts c c' n' \<Longrightarrow> keyOf (node_Meta n') = keyOf (node_Meta n)"
  by (auto simp: rewrote_def dest: nodeIs_key)

text \<open>Writing taints only changes no node's labels, so it changes no node's state.\<close>

lemma retaint_state:
  assumes "rewrote n (mapGet (node_Labels n)) ts c c' n'"
  shows "getNodeUpgradeState lib n' d = getNodeUpgradeState lib n d"
    and "selects s (node_Labels n') = selects s (node_Labels n)"
    and "isNewNodeForUpgrade lib n' d = isNewNodeForUpgrade lib n d"
proof -
  have l: "mapGet (node_Labels n') k = mapGet (node_Labels n) k" for k
    using rewrote_labels [OF assms] by simp
  then show "getNodeUpgradeState lib n' d = getNodeUpgradeState lib n d" by (rule state_cong)
  from l show "selects s (node_Labels n') = selects s (node_Labels n)" by (rule selects_cong)
  from l show "isNewNodeForUpgrade lib n' d = isNewNodeForUpgrade lib n d"
    by (simp add: isNewNodeForUpgrade_def)
qed

lemma retaint_inUpgrade:
  assumes "rewrote n (mapGet (node_Labels n)) ts c c' n'" and "stored c n"
  shows "m \<in> inUpgrade lib d c' \<longleftrightarrow>
    (if keyOf (node_Meta m) = keyOf (node_Meta n) then m = n' \<and> n \<in> inUpgrade lib d c
     else m \<in> inUpgrade lib d c)"
  using rewrote_stored [OF assms(1)] retaint_state [OF assms(1)] rewrote_key [OF assms(1)] assms(2)
  by (auto simp: inUpgrade_def targetedNodes_def)

lemma retaint_none:
  assumes "rewrote n (mapGet (node_Labels n)) ts c c' n'" and "stored c n"
  shows "inUpgrade lib d c' = {} \<longleftrightarrow> inUpgrade lib d c = {}"
proof
  assume none: "inUpgrade lib d c' = {}"
  show "inUpgrade lib d c = {}"
  proof (rule ccontr)
    assume "inUpgrade lib d c \<noteq> {}"
    then obtain m where m: "m \<in> inUpgrade lib d c" by blast
    show False
    proof (cases "keyOf (node_Meta m) = keyOf (node_Meta n)")
      case True
      with m assms(2) have "m = n" by (auto simp: inUpgrade_def targetedNodes_def stored_def)
      with m have "n' \<in> inUpgrade lib d c'"
        using retaint_inUpgrade [OF assms, of n' lib d] rewrote_key [OF assms(1)] by simp
      with none show False by simp
    next
      case False
      with m none retaint_inUpgrade [OF assms, of m lib d] show False by simp
    qed
  qed
next
  assume "inUpgrade lib d c = {}"
  then show "inUpgrade lib d c' = {}"
    using retaint_inUpgrade [OF assms, of _ lib d] by (metis all_not_in_conv)
qed

section \<open>At most one node in upgrade\<close>

definition serial :: "library \<Rightarrow> DeviceConfig \<Rightarrow> cluster \<Rightarrow> bool" where
  "serial lib d c \<longleftrightarrow> (\<forall>n m. n \<in> inUpgrade lib d c \<longrightarrow> m \<in> inUpgrade lib d c \<longrightarrow> n = m)"

lemma retaint_serial:
  assumes "rewrote n (mapGet (node_Labels n)) ts c c' n'" and "stored c n" and "serial lib d c"
  shows "serial lib d c'"
  unfolding serial_def
proof (intro allI impI)
  fix a b assume "a \<in> inUpgrade lib d c'" "b \<in> inUpgrade lib d c'"
  then show "a = b"
    using assms(3) retaint_inUpgrade [OF assms(1,2), of _ lib d] unfolding serial_def
    by (metis (no_types, lifting))
qed

lemma start_serial:
  assumes "rewrote n ls ts c c' n'" and "inUpgrade lib d c = {}"
  shows "serial lib d c'"
proof -
  have "m = n'" if "m \<in> inUpgrade lib d c'" for m
    using that assms rewrote_stored [OF assms(1), of m]
    by (auto simp: inUpgrade_def targetedNodes_def split: if_splits)
  then show ?thesis by (auto simp: serial_def)
qed

lemma rollout_step_serial: "rollout_step lib d a c c' \<Longrightarrow> serial lib d c \<Longrightarrow> serial lib d c'"
proof (induction rule: rollout_step.induct)
  case step_Uncordon
  then show ?case using retaint_serial targetedNodes_stored by blast
next
  case step_Cordon
  then show ?case using retaint_serial targetedNodes_stored by blast
next
  case step_Start
  then show ?case using start_serial by blast
qed

lemma rollout_serial: "rollout_run lib d as c c' \<Longrightarrow> serial lib d c \<Longrightarrow> serial lib d c'"
  by (induction rule: rollout_run.induct) (auto intro: rollout_step_serial)

section \<open>What a step may do to a node\<close>

text \<open>
  The frame of a step: the label of the wanted version and the upgrade taint are all it
  may touch on a node, every node stays, and no other kind of object changes.
\<close>

definition nodeFrame :: "library \<Rightarrow> DeviceConfig \<Rightarrow> Node \<Rightarrow> Node \<Rightarrow> bool" where
  "nodeFrame lib d n n' \<longleftrightarrow>
     (\<forall>k. k \<noteq> versionLabel lib d \<longrightarrow> mapGet (node_Labels n') k = mapGet (node_Labels n) k) \<and>
     mapGet (node_Labels n') (versionLabel lib d) \<in>
       {mapGet (node_Labels n) (versionLabel lib d), Some (wanted d)} \<and>
     filter (\<lambda>t. \<not> isUpgradeTaint t) (node_Taints n') = filter (\<lambda>t. \<not> isUpgradeTaint t) (node_Taints n)"

definition clusterFrame :: "library \<Rightarrow> DeviceConfig \<Rightarrow> cluster \<Rightarrow> cluster \<Rightarrow> bool" where
  "clusterFrame lib d c c' \<longleftrightarrow>
     cl_Modules c' = cl_Modules c \<and> cl_DaemonSets c' = cl_DaemonSets c \<and>
     cl_Deployments c' = cl_Deployments c \<and> cl_ConfigMaps c' = cl_ConfigMaps c \<and>
     cl_DeviceConfigs c' = cl_DeviceConfigs c \<and>
     (\<forall>k. rel_option (nodeFrame lib d) (cl_Nodes c k) (cl_Nodes c' k))"

lemma nodeFrame_refl [simp]: "nodeFrame lib d n n"
  by (simp add: nodeFrame_def)

lemma nodeFrame_trans: "nodeFrame lib d n m \<Longrightarrow> nodeFrame lib d m p \<Longrightarrow> nodeFrame lib d n p"
  by (auto simp: nodeFrame_def)

lemma clusterFrame_refl [simp]: "clusterFrame lib d c c"
  by (auto simp: clusterFrame_def option.rel_refl)

lemma clusterFrame_trans:
  assumes "clusterFrame lib d a b" and "clusterFrame lib d b c"
  shows "clusterFrame lib d a c"
proof -
  have "rel_option (nodeFrame lib d) (cl_Nodes a k) (cl_Nodes c k)" for k
  proof (rule rel_option_trans)
    show "rel_option (nodeFrame lib d) (cl_Nodes a k) (cl_Nodes b k)"
      and "rel_option (nodeFrame lib d) (cl_Nodes b k) (cl_Nodes c k)"
      using assms by (simp_all add: clusterFrame_def)
  qed (rule nodeFrame_trans)
  with assms show ?thesis by (simp add: clusterFrame_def)
qed

lemma rewrote_frame:
  assumes "rewrote n ls ts c c' n'" and "stored c n" and "nodeFrame lib d n n'"
  shows "clusterFrame lib d c c'"
  using assms unfolding clusterFrame_def rewrote_def
  by (auto simp: setNode_def stored_def nodeIs_key option.rel_refl)

lemma rollout_step_frame: "rollout_step lib d a c c' \<Longrightarrow> clusterFrame lib d c c'"
proof (induction rule: rollout_step.induct)
  case (step_Uncordon n c c' n')
  then show ?case
    by (intro rewrote_frame [OF step_Uncordon(4) targetedNodes_stored])
       (auto simp: nodeFrame_def rewrote_labels [OF step_Uncordon(4)] rewrote_taints [OF step_Uncordon(4)])
next
  case (step_Cordon n c c' n')
  then show ?case
    by (intro rewrote_frame [OF step_Cordon(6) targetedNodes_stored])
       (auto simp: nodeFrame_def rewrote_labels [OF step_Cordon(6)] rewrote_taints [OF step_Cordon(6)])
next
  case (step_Start n c c' n')
  then show ?case
    by (intro rewrote_frame [OF step_Start(5) targetedNodes_stored])
       (auto simp: nodeFrame_def rewrote_labels [OF step_Start(5)] rewrote_taints [OF step_Start(5)])
qed

lemma rollout_frame: "rollout_run lib d as c c' \<Longrightarrow> clusterFrame lib d c c'"
  by (induction rule: rollout_run.induct) (auto dest: rollout_step_frame intro: clusterFrame_trans)

section \<open>Workloads are moved off before the driver changes\<close>

text \<open>
  \<open>drained lib d c c'\<close>: every node whose version label differs between \<open>c\<close> and \<open>c'\<close> either
  had no version label (no driver was loaded, so no workload ran) or carries the
  NoExecute taint in \<open>c'\<close>.
\<close>

definition drained :: "library \<Rightarrow> DeviceConfig \<Rightarrow> cluster \<Rightarrow> cluster \<Rightarrow> bool" where
  "drained lib d c c' \<longleftrightarrow> (\<forall>k n n'. cl_Nodes c k = Some n \<longrightarrow> cl_Nodes c' k = Some n' \<longrightarrow>
     mapGet (node_Labels n') (versionLabel lib d) \<noteq> mapGet (node_Labels n) (versionLabel lib d) \<longrightarrow>
     isNewNodeForUpgrade lib n d \<or> hasUpgradeTaint (node_Taints n'))"

text \<open>Steps other than Start leave every label as it is.\<close>

definition sameLabels :: "cluster \<Rightarrow> cluster \<Rightarrow> bool" where
  "sameLabels c c' \<longleftrightarrow> (\<forall>k. rel_option (\<lambda>n n'. \<forall>l. mapGet (node_Labels n') l = mapGet (node_Labels n) l)
     (cl_Nodes c k) (cl_Nodes c' k))"

lemma sameLabels_refl [simp]: "sameLabels c c"
  by (auto simp: sameLabels_def option.rel_refl)

lemma sameLabels_trans: "sameLabels a b \<Longrightarrow> sameLabels b c \<Longrightarrow> sameLabels a c"
  unfolding sameLabels_def
  by (rule allI, rule rel_option_trans [rotated], blast, blast) simp

lemma retaint_sameLabels:
  "rewrote n (mapGet (node_Labels n)) ts c c' n' \<Longrightarrow> stored c n \<Longrightarrow> sameLabels c c'"
  unfolding sameLabels_def rewrote_def
  by (auto simp: setNode_def stored_def nodeIs_key nodeIs_labels option.rel_refl)

lemma step_sameLabels: "rollout_step lib d a c c' \<Longrightarrow> a \<noteq> Start \<Longrightarrow> sameLabels c c'"
  by (induction rule: rollout_step.induct) (auto intro: retaint_sameLabels targetedNodes_stored)

lemma run_sameLabels: "rollout_run lib d as c c' \<Longrightarrow> Start \<notin> set as \<Longrightarrow> sameLabels c c'"
  by (induction rule: rollout_run.induct) (auto dest: step_sameLabels intro: sameLabels_trans)

lemma sameLabels_at:
  assumes "sameLabels c c'" and "cl_Nodes c k = Some n"
  shows "\<exists>n'. cl_Nodes c' k = Some n' \<and> (\<forall>l. mapGet (node_Labels n') l = mapGet (node_Labels n) l)"
  using assms(1) [unfolded sameLabels_def, THEN spec, of k] assms(2) by (simp add: option_rel_Some1)

lemma sameLabels_drained: "sameLabels c c' \<Longrightarrow> drained lib d c c'"
  unfolding drained_def by (auto dest!: sameLabels_at)

lemma start_drained:
  assumes "sameLabels c c1" and "rollout_step lib d Start c1 c'"
  shows "drained lib d c c'"
proof -
  from assms(2) obtain n n' where n: "n \<in> targetedNodes d c1"
    and guard: "isNewNodeForUpgrade lib n d \<or> hasUpgradeTaint (node_Taints n)"
    and new: "rewrote n ((mapGet (node_Labels n))(versionLabel lib d \<mapsto> wanted d)) (node_Taints n) c1 c' n'"
    by (rule StartE) blast
  note st = targetedNodes_stored [OF n]
  show ?thesis unfolding drained_def
  proof (intro allI impI)
    fix k m m'
    assume m: "cl_Nodes c k = Some m" "cl_Nodes c' k = Some m'"
      and ne: "mapGet (node_Labels m') (versionLabel lib d) \<noteq> mapGet (node_Labels m) (versionLabel lib d)"
    obtain m1 where m1: "cl_Nodes c1 k = Some m1"
      and l: "\<And>j. mapGet (node_Labels m1) j = mapGet (node_Labels m) j"
      using sameLabels_at [OF assms(1) m(1)] by blast
    have new_at: "cl_Nodes c' = (cl_Nodes c1)(keyOf (node_Meta n) \<mapsto> n')"
      by (rule rewrote_Nodes [OF new])
    show "isNewNodeForUpgrade lib m d \<or> hasUpgradeTaint (node_Taints m')"
    proof (cases "k = keyOf (node_Meta n)")
      case True
      with st m1 have "m1 = n" by (simp add: stored_def)
      with l guard have "isNewNodeForUpgrade lib m d \<or> hasUpgradeTaint (node_Taints n)"
        by (simp add: isNewNodeForUpgrade_def)
      moreover from True m(2) new_at have "m' = n'" by simp
      ultimately show ?thesis using rewrote_taints [OF new] by simp
    next
      case False
      with m(2) m1 new_at have "m' = m1" by simp
      with ne l show ?thesis by simp
    qed
  qed
qed

text \<open>The order the reconciler works in: uncordon, then cordon, then start, each at most once.\<close>

lemma ordered_split:
  assumes "subseq as [Uncordon, Cordon, Start]"
  shows "Start \<notin> set as \<or> (\<exists>bs. as = bs @ [Start] \<and> Start \<notin> set bs)"
proof -
  from assms have "as \<in> set (subseqs [Uncordon, Cordon, Start])" by (simp only: in_set_subseqs)
  then show ?thesis by (auto simp: Let_def simp del: in_set_subseqs)
qed

lemma did_serial: "did lib d acts c c' \<Longrightarrow> serial lib d c \<Longrightarrow> serial lib d c'"
  unfolding did_def by (blast intro: rollout_serial)

lemma did_frame: "did lib d acts c c' \<Longrightarrow> clusterFrame lib d c c'"
  unfolding did_def by (blast intro: rollout_frame)

lemma rollout_drained:
  assumes "rollout_run lib d as c c'" and "subseq as [Uncordon, Cordon, Start]"
  shows "drained lib d c c'"
  using ordered_split [OF assms(2)]
proof
  assume "Start \<notin> set as"
  with assms(1) show ?thesis by (blast intro: sameLabels_drained run_sameLabels)
next
  assume "\<exists>bs. as = bs @ [Start] \<and> Start \<notin> set bs"
  with assms(1) obtain bs c1 where "rollout_run lib d bs c c1" "Start \<notin> set bs"
    and "rollout_step lib d Start c1 c'"
    by (auto dest!: run_appendE simp: run_Cons_iff)
  then show ?thesis by (blast intro: start_drained run_sameLabels)
qed

lemma did_drained: "did lib d [Uncordon, Cordon, Start] c c' \<Longrightarrow> drained lib d c c'"
  unfolding did_def by (blast intro: rollout_drained)

section \<open>The environment\<close>

text \<open>
  The wanted version changes over time and the operator may work from an older copy of
  the DeviceConfig, so the invariant speaks of every version at once: of the nodes a
  selector targets, at most one has been asked for a version it is not ready with.
\<close>

definition withVersion :: "string \<Rightarrow> DeviceConfig \<Rightarrow> DeviceConfig" where
  "withVersion v d = d\<lparr>dc_Spec := (dc_Spec d)\<lparr>DriverVersion := v\<rparr>\<rparr>"

definition sameTarget :: "DeviceConfig \<Rightarrow> DeviceConfig \<Rightarrow> bool" where
  "sameTarget d d' \<longleftrightarrow> keyOf (dc_Meta d') = keyOf (dc_Meta d) \<and> Selector (dc_Spec d') = Selector (dc_Spec d)"

lemma sameTarget_refl [simp]: "sameTarget d d"
  by (simp add: sameTarget_def)

lemma sameTarget_labels:
  "sameTarget d d' \<Longrightarrow> versionLabel lib d' = versionLabel lib d"
  "sameTarget d d' \<Longrightarrow> readyLabel lib d' = readyLabel lib d"
  by (simp_all add: sameTarget_def keyOf_def)

lemma mem_inUpgrade:
  "n \<in> inUpgrade lib d c \<longleftrightarrow> stored c n \<and> selects (Selector (dc_Spec d)) (node_Labels n) \<and>
     mapGet (node_Labels n) (versionLabel lib d) = Some (wanted d) \<and>
     mapGet (node_Labels n) (readyLabel lib d) \<noteq> Some (wanted d)"
  by (auto simp: inUpgrade_def targetedNodes_def state_iff)

lemma withVersion_simps [simp]:
  "wanted (withVersion v d) = v" "dc_Name (withVersion v d) = dc_Name d"
  "dc_Namespace (withVersion v d) = dc_Namespace d"
  "Selector (dc_Spec (withVersion v d)) = Selector (dc_Spec d)"
  "targetedNodes (withVersion v d) c = targetedNodes d c"
  by (simp_all add: withVersion_def targetedNodes_def)

lemma inUpgrade_sameTarget: "sameTarget d d' \<Longrightarrow> inUpgrade lib (withVersion v d') c = inUpgrade lib (withVersion v d) c"
  by (auto simp: mem_inUpgrade sameTarget_def keyOf_def)

lemma inUpgrade_own: "inUpgrade lib (withVersion (wanted d) d) c = inUpgrade lib d c"
  by (auto simp: mem_inUpgrade)

definition serialAll :: "library \<Rightarrow> DeviceConfig \<Rightarrow> cluster \<Rightarrow> bool" where
  "serialAll lib d c \<longleftrightarrow> (\<forall>v. serial lib (withVersion v d) c)"

lemma serialAll_serial: "serialAll lib d c \<Longrightarrow> serial lib d c"
  unfolding serialAll_def serial_def by (metis inUpgrade_own)

lemma serialAll_sameTarget: "sameTarget d d' \<Longrightarrow> serialAll lib d' c \<longleftrightarrow> serialAll lib d c"
  by (simp add: serialAll_def serial_def inUpgrade_sameTarget)

text \<open>
  What else may happen to the nodes: KMM reports the asked-for version ready; nodes join
  (without a version label) and leave; their taints and other labels are edited, as long
  as a node that has a version label is not moved into the selector's reach; a version
  label disappears. Other kinds of objects change freely. What is excluded is KMM taking
  back the report of a node, since then a node that was upgraded is in upgrade again.
\<close>

inductive env_step :: "library \<Rightarrow> DeviceConfig \<Rightarrow> cluster \<Rightarrow> cluster \<Rightarrow> bool"
  for lib :: library and d :: DeviceConfig where
  env_ready: "stored c n \<Longrightarrow> mapGet (node_Labels n) (versionLabel lib d) = Some v \<Longrightarrow>
    rewrote n ((mapGet (node_Labels n))(readyLabel lib d \<mapsto> v)) (node_Taints n) c c' n' \<Longrightarrow>
    selects (Selector (dc_Spec d)) (node_Labels n') = selects (Selector (dc_Spec d)) (node_Labels n) \<Longrightarrow>
    env_step lib d c c'"
| env_join: "cl_Nodes c (keyOf (node_Meta n)) = None \<Longrightarrow>
    mapGet (node_Labels n) (versionLabel lib d) = None \<Longrightarrow> env_step lib d c (setNode n c)"
| env_leave: "env_step lib d c (c\<lparr>cl_Nodes := (cl_Nodes c)(k := None)\<rparr>)"
| env_edit: "stored c n \<Longrightarrow> rewrote n ls ts c c' n' \<Longrightarrow>
    ls (versionLabel lib d) = mapGet (node_Labels n) (versionLabel lib d) \<Longrightarrow>
    ls (readyLabel lib d) = mapGet (node_Labels n) (readyLabel lib d) \<Longrightarrow>
    selects (Selector (dc_Spec d)) (node_Labels n') \<longrightarrow>
      selects (Selector (dc_Spec d)) (node_Labels n) \<or> ls (versionLabel lib d) = None \<Longrightarrow>
    env_step lib d c c'"
| env_unlabel: "stored c n \<Longrightarrow>
    rewrote n ((mapGet (node_Labels n))(versionLabel lib d := None)) (node_Taints n) c c' n' \<Longrightarrow>
    env_step lib d c c'"
| env_other: "cl_Nodes c' = cl_Nodes c \<Longrightarrow>
    (\<And>d'. cl_DeviceConfigs c' (keyOf (dc_Meta d)) = Some d' \<Longrightarrow> sameTarget d d') \<Longrightarrow> env_step lib d c c'"

text \<open>
  Rewriting one node keeps the invariant when a node in upgrade afterwards was in upgrade
  before, or was the only one that could be.
\<close>

lemma rewrote_serial:
  assumes "rewrote n ls ts c c' n'"
    and "n' \<in> inUpgrade lib d c' \<Longrightarrow> inUpgrade lib d c \<subseteq> {n}" and "serial lib d c"
  shows "serial lib d c'"
proof -
  have m: "m = n' \<or> (m \<in> inUpgrade lib d c \<and> keyOf (node_Meta m) \<noteq> keyOf (node_Meta n))"
    if "m \<in> inUpgrade lib d c'" for m
    using that rewrote_stored [OF assms(1), of m] by (auto simp: mem_inUpgrade split: if_splits)
  have "a = b" if ab: "a \<in> inUpgrade lib d c'" "b \<in> inUpgrade lib d c'" for a b
  proof (cases "n' \<in> inUpgrade lib d c'")
    case True
    with assms(2) m [OF ab(1)] m [OF ab(2)] show ?thesis by blast
  next
    case False
    with m [OF ab(1)] m [OF ab(2)] ab assms(3) show ?thesis unfolding serial_def by blast
  qed
  then show ?thesis by (auto simp: serial_def)
qed

text \<open>
  \<open>noneNew lib d c c'\<close>: a node that is in upgrade to some version in \<open>c'\<close> was so in \<open>c\<close>.
  This is what every step but Start has in common, and it keeps the invariant.
\<close>

definition noneNew :: "library \<Rightarrow> DeviceConfig \<Rightarrow> cluster \<Rightarrow> cluster \<Rightarrow> bool" where
  "noneNew lib d c c' \<longleftrightarrow> (\<forall>v. \<forall>n' \<in> inUpgrade lib (withVersion v d) c'.
     \<exists>n \<in> inUpgrade lib (withVersion v d) c. keyOf (node_Meta n) = keyOf (node_Meta n'))"

lemma noneNew_refl [simp]: "noneNew lib d c c"
  by (auto simp: noneNew_def)

lemma noneNew_trans: "noneNew lib d a b \<Longrightarrow> noneNew lib d b c \<Longrightarrow> noneNew lib d a c"
  unfolding noneNew_def by metis

lemma noneNew_subset:
  "(\<And>v. inUpgrade lib (withVersion v d) c' \<subseteq> inUpgrade lib (withVersion v d) c) \<Longrightarrow> noneNew lib d c c'"
  unfolding noneNew_def by blast

lemma noneNew_quiet: "noneNew lib d c c' \<Longrightarrow> inUpgrade lib (withVersion v d) c = {} \<Longrightarrow> inUpgrade lib (withVersion v d) c' = {}"
  unfolding noneNew_def by blast

lemma noneNew_serialAll:
  assumes "noneNew lib d c c'" and "serialAll lib d c"
  shows "serialAll lib d c'"
  unfolding serialAll_def serial_def
proof (intro allI impI)
  fix v n' m' assume *: "n' \<in> inUpgrade lib (withVersion v d) c'" "m' \<in> inUpgrade lib (withVersion v d) c'"
  with assms have "keyOf (node_Meta n') = keyOf (node_Meta m')"
    unfolding noneNew_def serialAll_def serial_def by metis
  with * show "n' = m'" by (auto simp: mem_inUpgrade intro: stored_unique)
qed

lemma rewrote_noneNew:
  assumes "rewrote n ls ts c c' n'" and "stored c n"
    and "\<And>v. n' \<in> inUpgrade lib (withVersion v d) c' \<Longrightarrow> n \<in> inUpgrade lib (withVersion v d) c"
  shows "noneNew lib d c c'"
  unfolding noneNew_def
proof (intro allI ballI)
  fix v m assume m: "m \<in> inUpgrade lib (withVersion v d) c'"
  show "\<exists>p \<in> inUpgrade lib (withVersion v d) c. keyOf (node_Meta p) = keyOf (node_Meta m)"
  proof (cases "keyOf (node_Meta m) = keyOf (node_Meta n)")
    case True
    then have "m = n'" using m rewrote_stored [OF assms(1), of m] by (simp add: mem_inUpgrade)
    with assms(3) m True show ?thesis by auto
  next
    case False
    with m rewrote_stored [OF assms(1), of m] have "m \<in> inUpgrade lib (withVersion v d) c" by (simp add: mem_inUpgrade)
    then show ?thesis by blast
  qed
qed

lemma env_step_noneNew:
  assumes "lawfulLabels lib"
  shows "env_step lib d c c' \<Longrightarrow> noneNew lib d c c'"
proof (induction rule: env_step.induct)
  case (env_ready c n v c' n')
  have ne: "versionLabel lib d \<noteq> readyLabel lib d" using assms by (simp add: lawfulLabels_def)
  show ?case
    by (rule rewrote_noneNew [OF env_ready(3,1)])
       (use ne env_ready rewrote_labels [OF env_ready(3)] in \<open>auto simp: mem_inUpgrade\<close>)
next
  case (env_join c n)
  then show ?case by (intro noneNew_subset) (auto simp: mem_inUpgrade stored_setNode split: if_splits)
next
  case (env_leave c k)
  show ?case by (rule noneNew_subset) (auto simp: mem_inUpgrade stored_def split: if_splits)
next
  case (env_edit c n ls ts c' n')
  show ?case
  proof (rule rewrote_noneNew [OF env_edit(2,1)])
    fix v assume "n' \<in> inUpgrade lib (withVersion v d) c'"
    then have "ls (versionLabel lib d) = Some v" "ls (readyLabel lib d) \<noteq> Some v"
      and "selects (Selector (dc_Spec d)) (node_Labels n')"
      by (simp_all add: mem_inUpgrade rewrote_labels [OF env_edit(2)])
    with env_edit(1,3,4,5) show "n \<in> inUpgrade lib (withVersion v d) c"
      by (metis mem_inUpgrade option.distinct(1) withVersion_simps(1-4))
  qed
next
  case (env_unlabel c n c' n')
  show ?case
    by (rule rewrote_noneNew [OF env_unlabel(2,1)])
       (use rewrote_labels [OF env_unlabel(2)] in \<open>auto simp: mem_inUpgrade\<close>)
next
  case (env_other c' c)
  then show ?case by (intro noneNew_subset) (simp add: mem_inUpgrade stored_def subset_iff)
qed

lemma env_step_serialAll:
  "lawfulLabels lib \<Longrightarrow> env_step lib d c c' \<Longrightarrow> serialAll lib d c \<Longrightarrow> serialAll lib d c'"
  by (rule noneNew_serialAll [OF env_step_noneNew])

lemma rollout_step_serialAll:
  "rollout_step lib d a c c' \<Longrightarrow> serialAll lib d c \<Longrightarrow> serialAll lib d c'"
proof (induction rule: rollout_step.induct)
  case step_Uncordon
  then show ?case unfolding serialAll_def using retaint_serial targetedNodes_stored by blast
next
  case step_Cordon
  then show ?case unfolding serialAll_def using retaint_serial targetedNodes_stored by blast
next
  case (step_Start n c c' n')
  show ?case unfolding serialAll_def
  proof
    fix v
    have "inUpgrade lib (withVersion v d) c \<subseteq> {n}" if "n' \<in> inUpgrade lib (withVersion v d) c'"
    proof -
      from that have "v = wanted d" by (simp add: mem_inUpgrade rewrote_labels [OF step_Start(5)])
      with step_Start(3) show ?thesis by (simp add: inUpgrade_own)
    qed
    with step_Start(6) show "serial lib (withVersion v d) c'"
      by (intro rewrote_serial [OF step_Start(5)]) (auto simp: serialAll_def)
  qed
qed

lemma did_serialAll: "did lib d acts c c' \<Longrightarrow> serialAll lib d c \<Longrightarrow> serialAll lib d c'"
proof -
  have "rollout_run lib d as c c' \<Longrightarrow> serialAll lib d c \<Longrightarrow> serialAll lib d c'" for as
    by (induction rule: rollout_run.induct) (auto intro: rollout_step_serialAll)
  then show "did lib d acts c c' \<Longrightarrow> serialAll lib d c \<Longrightarrow> serialAll lib d c'" by (auto simp: did_def)
qed

end
