(* ===== verification/Desired.thy ===== *)
theory Desired
  imports Client
begin

text \<open>
  The contract that the five "set as desired" operations share (kmmmodule, configmap,
  customscheduler twice, nodemetrics): each rewrites the object it is given to what the
  DeviceConfig asks for and makes the DeviceConfig its controller. The reconciler hands
  them to CreateOrPatch; what it gets from the contract is proved here once: the
  reconciliation of one object is stable and touches no other object.
\<close>

section \<open>The component of the cluster an operation works on\<close>

definition lens :: "(cluster \<Rightarrow> nsname \<rightharpoonup> 'o) \<Rightarrow> ((nsname \<rightharpoonup> 'o) \<Rightarrow> cluster \<Rightarrow> cluster) \<Rightarrow> bool" where
  "lens sel put \<longleftrightarrow> (\<forall>m c. sel (put m c) = m) \<and> (\<forall>c. put (sel c) c = c)"

lemma lenses [simp]:
  "lens cl_Modules (\<lambda>m. cl_Modules_update (\<lambda>_. m))"
  "lens cl_DaemonSets (\<lambda>m. cl_DaemonSets_update (\<lambda>_. m))"
  "lens cl_Deployments (\<lambda>m. cl_Deployments_update (\<lambda>_. m))"
  "lens cl_ConfigMaps (\<lambda>m. cl_ConfigMaps_update (\<lambda>_. m))"
  by (simp_all add: lens_def)

lemma upsert_Inr:
  assumes "lawfulUpsert op meta cl sel put" and "op x f w = (Inr y, w')"
  shows "f (case sel (cl w) (keyOf (meta x)) of None \<Rightarrow> x | Some z \<Rightarrow> z) = Inr y"
    and "keyOf (meta y) = keyOf (meta x)"
    and "cl w' = put ((sel (cl w))(keyOf (meta x) \<mapsto> y)) (cl w)"
  using assms(1) [unfolded lawfulUpsert_def Let_def, THEN spec, of x, THEN spec, of f, THEN spec, of w]
    assms(2) by auto

lemma upsert_Inl:
  assumes "lawfulUpsert op meta cl sel put" and "op x f w = (Inl e, w')"
  shows "cl w' = cl w \<or>
    (\<exists>y. f (case sel (cl w) (keyOf (meta x)) of None \<Rightarrow> x | Some z \<Rightarrow> z) = Inr y \<and>
       keyOf (meta y) = keyOf (meta x) \<and> cl w' = put ((sel (cl w))(keyOf (meta x) \<mapsto> y)) (cl w))"
  using assms(1) [unfolded lawfulUpsert_def Let_def, THEN spec, of x, THEN spec, of f, THEN spec, of w]
    assms(2) by auto

text \<open>Whatever the outcome, only the map \<open>sel\<close> sees can have changed, and only at the key.\<close>

lemma upsert_frame:
  assumes "lawfulUpsert op meta cl sel put" and "lens sel put" and "op x f w = (r, w')"
  shows "\<exists>z. cl w' = put ((sel (cl w))(keyOf (meta x) := z)) (cl w)"
proof (cases r)
  case (Inr y)
  with upsert_Inr(3) [OF assms(1), of x f w y w'] assms(3) show ?thesis by auto
next
  case (Inl e)
  have "cl w = put ((sel (cl w))(keyOf (meta x) := sel (cl w) (keyOf (meta x)))) (cl w)"
    using assms(2) by (simp add: lens_def)
  with upsert_Inl [OF assms(1), of x f w e w'] assms(3) Inl show ?thesis by metis
qed

text \<open>
  An invariant of the cluster is kept by an operation of the client when it survives the
  writes the operation may do.
\<close>

lemma keeps_get:
  assumes "lawfulGet lib op cl sel"
  shows "keeps (\<lambda>w. I (cl w)) (op k)"
  using assms by (simp add: keeps_def lawfulGet_def)

lemma keeps_list:
  assumes "lawfulList op meta cl sel"
  shows "keeps (\<lambda>w. I (cl w)) (op s)"
  using assms by (simp add: keeps_def lawfulList_def)

lemma keeps_upsert:
  assumes "lawfulUpsert op meta cl sel put" and "lens sel put"
    and "\<And>c z. I c \<Longrightarrow> I (put ((sel c)(keyOf (meta x) := z)) c)"
  shows "keeps (\<lambda>w. I (cl w)) (op x f)"
  unfolding keeps_def
proof (intro allI impI)
  fix w assume i: "I (cl w)"
  obtain r w' where run: "op x f w = (r, w')" by fastforce
  obtain z where "cl w' = put ((sel (cl w))(keyOf (meta x) := z)) (cl w)"
    using upsert_frame [OF assms(1,2) run] by blast
  with assms(3) [OF i] run show "I (cl (snd (op x f w)))" by simp
qed

lemma keeps_delete:
  assumes "lawfulDelete lib op meta cl sel put"
    and "\<And>c z. I c \<Longrightarrow> I (put ((sel c)(keyOf (meta x) := z)) c)"
  shows "keeps (\<lambda>w. I (cl w)) (op x)"
  unfolding keeps_def
proof (intro allI impI)
  fix w assume i: "I (cl w)"
  obtain r w' where run: "op x w = (r, w')" by fastforce
  from assms(1) [unfolded lawfulDelete_def Let_def, THEN spec, of x, THEN spec, of w] run
  have "cl w' = cl w \<or> (\<exists>z. cl w' = put ((sel (cl w))(keyOf (meta x) := z)) (cl w))"
    by (cases r) auto
  with i assms(2) [OF i] run show "I (cl (snd (op x w)))" by auto
qed

section \<open>The contract\<close>

text \<open>The object stored under a key is a fixed point of an operation.\<close>

definition desiredAt :: "(nsname \<rightharpoonup> 'o) \<Rightarrow> nsname \<Rightarrow> ('o \<Rightarrow> goerr + 'o) \<Rightarrow> bool" where
  "desiredAt m k f \<longleftrightarrow> (\<exists>x. m k = Some x \<and> f x = Inr x)"

text \<open>On a fixed point CreateOrPatch changes nothing, even when it reports an error.\<close>

lemma keeps_at_desired:
  assumes "lawfulUpsert op meta cl sel put" and "lens sel put" and "desiredAt (sel C) (keyOf (meta x)) f"
  shows "keeps (\<lambda>w. cl w = C) (op x f)"
  unfolding keeps_def
proof (intro allI impI)
  fix w assume w: "cl w = C"
  from assms(3) obtain y where at: "sel C (keyOf (meta x)) = Some y" "f y = Inr y" by (auto simp: desiredAt_def)
  then have same: "put ((sel C)(keyOf (meta x) \<mapsto> y)) C = C" using assms(2) by (simp add: lens_def fun_upd_idem)
  obtain r w' where run: "op x f w = (r, w')" by fastforce
  have "cl w' = C"
  proof (cases r)
    case (Inl e)
    with upsert_Inl [OF assms(1)] run w at same show ?thesis by fastforce
  next
    case (Inr z)
    with upsert_Inr [OF assms(1)] run w at same show ?thesis by fastforce
  qed
  with run show "cl (snd (op x f w)) = C" by simp
qed

locale desired_state =
  fixes set_desired :: "library \<Rightarrow> DeviceConfig \<Rightarrow> 'o \<Rightarrow> goerr + 'o"
    and meta :: "'o \<Rightarrow> ObjectMeta"
  assumes owned: "set_desired lib d x = Inr y \<Longrightarrow> setControllerReference lib d (meta x) = Inr (meta y)"
    and stable: "lawfulOwner lib \<Longrightarrow> set_desired lib d x = Inr y \<Longrightarrow> set_desired lib d y = Inr y"
begin

lemma key: "lawfulOwner lib \<Longrightarrow> set_desired lib d x = Inr y \<Longrightarrow> keyOf (meta y) = keyOf (meta x)"
  using owned unfolding lawfulOwner_def by blast

text \<open>After a successful call the stored object is a fixed point.\<close>

lemma upsert_desired:
  assumes "lawfulOwner lib" and "lawfulUpsert op meta cl sel put" and "lens sel put"
  shows "triple (\<lambda>_. True) (op x (set_desired lib d))
    (\<lambda>_ w. desiredAt (sel (cl w)) (keyOf (meta x)) (set_desired lib d)) (\<lambda>_ _. True)"
proof (rule tripleI)
  fix w y w' assume run: "op x (set_desired lib d) w = (Inr y, w')"
  note first = upsert_Inr [OF assms(2) run]
  have "sel (cl w') (keyOf (meta x)) = Some y" using first(3) assms(3) by (simp add: lens_def)
  with stable [OF assms(1) first(1)] show "desiredAt (sel (cl w')) (keyOf (meta x)) (set_desired lib d)"
    by (simp add: desiredAt_def)
qed simp

end

end
