(* ===== verification/Configmap.thy ===== *)
theory Configmap
  imports Desired Memory
begin

text \<open>
  internal/configmap/configmap.go: the config map with the dockerfile KMM builds the
  driver from, and the config map that joins the cluster's root CA and the kubelet CA,
  written once at start-up. The dockerfile itself is data embedded in the binary and is
  an argument here; the environment is the function \<open>getenv\<close>.
\<close>

section \<open>The dockerfile\<close>

definition GetDockerfileCMName :: "DeviceConfig \<Rightarrow> string" where
  "GetDockerfileCMName devConfig = ''dockerfile-'' @ dc_Name devConfig"

definition makeIfNil :: "gomap \<Rightarrow> gomap" where
  "makeIfNil m = (if m = None then Some Map.empty else m)"

definition SetBuildConfigMapAsDesired ::
  "string \<Rightarrow> library \<Rightarrow> DeviceConfig \<Rightarrow> ConfigMap \<Rightarrow> goerr + ConfigMap" where
  "SetBuildConfigMapAsDesired buildDockerfile lib devConfig buildCM =
     (let data = makeIfNil (cm_Data buildCM)
      in case mapSet data ''dockerfile'' buildDockerfile of
           Inl err \<Rightarrow> Inl err
         | Inr data' \<Rightarrow>
             (case setControllerReference lib devConfig (cm_Meta buildCM) of
                Inl err \<Rightarrow> Inl err
              | Inr meta \<Rightarrow> Inr (buildCM\<lparr>cm_Data := data', cm_Meta := meta\<rparr>)))"

record ConfigMapAPI =
  cm_SetBuildConfigMapAsDesired :: "DeviceConfig \<Rightarrow> ConfigMap \<Rightarrow> goerr + ConfigMap"

definition NewConfigMap :: "string \<Rightarrow> library \<Rightarrow> ConfigMapAPI" where
  "NewConfigMap buildDockerfile lib =
     \<lparr>cm_SetBuildConfigMapAsDesired = SetBuildConfigMapAsDesired buildDockerfile lib\<rparr>"

lemma mapSet_makeIfNil [simp]:
  "mapSet (makeIfNil m) k v = Inr (Some ((mapGet m)(k \<mapsto> v)))"
  by (cases m) (auto simp: makeIfNil_def fun_eq_iff)

lemma SetBuildConfigMap_eq:
  "SetBuildConfigMapAsDesired f lib d cm =
     (case setControllerReference lib d (cm_Meta cm) of Inl e \<Rightarrow> Inl e
      | Inr meta \<Rightarrow> Inr (cm\<lparr>cm_Data := Some ((mapGet (cm_Data cm))(''dockerfile'' \<mapsto> f)), cm_Meta := meta\<rparr>))"
  by (simp add: SetBuildConfigMapAsDesired_def Let_def)

interpretation buildcm: desired_state "SetBuildConfigMapAsDesired f" cm_Meta for f
proof (unfold_locales, goal_cases)
  case 1 then show ?case by (auto simp: SetBuildConfigMap_eq split: sum.splits)
next
  case (2 lib d x y)
  from 2(2) obtain meta where own: "setControllerReference lib d (cm_Meta x) = Inr meta"
    and y: "y = x\<lparr>cm_Data := Some ((mapGet (cm_Data x))(''dockerfile'' \<mapsto> f)), cm_Meta := meta\<rparr>"
    by (auto simp: SetBuildConfigMap_eq split: sum.splits)
  from own 2(1) have "setControllerReference lib d meta = Inr meta"
    unfolding lawfulOwner_def by blast
  moreover have "mapGet (cm_Data y) = (mapGet (cm_Data x))(''dockerfile'' \<mapsto> f)"
    by (simp add: y fun_eq_iff)
  ultimately show ?case by (simp add: SetBuildConfigMap_eq y)
qed

section \<open>The joined CA bundle\<close>

definition kubeletCAConfigMap :: string where "kubeletCAConfigMap = ''kubelet-serving-ca''"
definition kubeletCANamespace :: string where "kubeletCANamespace = ''openshift-config-managed''"
definition kubeletCAKey :: string where "kubeletCAKey = ''ca-bundle.crt''"
definition kubeRootCAConfigMap :: string where "kubeRootCAConfigMap = ''kube-root-ca.crt''"
definition kubeRootCAKey :: string where "kubeRootCAKey = ''ca.crt''"
definition kubeletKubeRootCAConfigMapName :: string where
  "kubeletKubeRootCAConfigMapName = ''kube-root-kubelet-ca''"
definition kubeletKubeRootCAKey :: string where "kubeletKubeRootCAKey = ''ca-bundle.crt''"

definition getConfigMapData ::
  "'w client \<Rightarrow> string \<Rightarrow> string \<Rightarrow> string \<Rightarrow> ('w, string) io" where
  "getConfigMapData c cmNamespace cmName cmKey =
     bindE (wrapE (\<lambda>err. Errorf ''failed to get configmap %s/%s: %v'' [cmNamespace, cmName] (Some err))
         (apiGet (ConfigMaps c) (NN cmNamespace cmName)))
       (\<lambda>cm. case mapGet (cm_Data cm) cmKey of
          None \<Rightarrow> fail (Errorf ''key %s not found in configmap %s/%s'' [cmKey, cmNamespace, cmName] None)
        | Some data \<Rightarrow> ret data)"

text \<open>The mutate function handed to CreateOrUpdate.\<close>

definition setUnifiedCA :: "string \<Rightarrow> ConfigMap \<Rightarrow> goerr + ConfigMap" where
  "setUnifiedCA unifiedCAContent kubeletRootCM =
     (case mapSet (makeIfNil (cm_Data kubeletRootCM)) kubeletKubeRootCAKey unifiedCAContent of
        Inl err \<Rightarrow> Inl err | Inr data \<Rightarrow> Inr (kubeletRootCM\<lparr>cm_Data := data\<rparr>))"

definition CreateKubeletKubeRootCAConfigMap ::
  "(string \<Rightarrow> string) \<Rightarrow> 'w client \<Rightarrow> ('w, unit) io" where
  "CreateKubeletKubeRootCAConfigMap getenv c =
     (let operatorNamespace = getenv ''OPERATOR_NAMESPACE''
      in if operatorNamespace = []
         then fail (Errorf ''OPERATOR_NAMESPACE environment variable is not set'' [] None)
         else bindE (wrapE (\<lambda>err. Errorf ''failed to get data from configmap %s/%s: %v''
                 [kubeletCANamespace, kubeletCAConfigMap] (Some err))
               (getConfigMapData c kubeletCANamespace kubeletCAConfigMap kubeletCAKey))
           (\<lambda>kubeletCMData. bindE (wrapE (\<lambda>err. Errorf ''failed to get data from configmap %s/%s: %v''
                 [operatorNamespace, kubeRootCAConfigMap] (Some err))
               (getConfigMapData c operatorNamespace kubeRootCAConfigMap kubeRootCAKey))
           (\<lambda>kubeRootCMData.
              let unifiedCAContent = kubeRootCMData @ [CHR 0x0A] @ kubeletCMData;
                  kubeletRootCM = \<lparr>cm_Meta = zeroMeta\<lparr>om_Namespace := operatorNamespace,
                    om_Name := kubeletKubeRootCAConfigMapName\<rparr>, cm_Data = None\<rparr>
              in bindE (wrapE (\<lambda>err. Errorf ''failed to create or update configmap %s/%s: %v''
                     [operatorNamespace, kubeletKubeRootCAConfigMapName] (Some err))
                   (apiCreateOrUpdate (ConfigMaps c) kubeletRootCM (setUnifiedCA unifiedCAContent)))
                 (\<lambda>_. ret ()))))"

lemma setUnifiedCA_eq: "setUnifiedCA s cm =
    Inr (cm\<lparr>cm_Data := Some ((mapGet (cm_Data cm))(kubeletKubeRootCAKey \<mapsto> s))\<rparr>)"
  by (simp add: setUnifiedCA_def)

lemma lawful_get_configmap:
  assumes "lawfulClient lib c cl"
  shows "cl (snd (apiGet (ConfigMaps c) k w)) = cl w"
    and "fst (apiGet (ConfigMaps c) k w) = Inr cm \<Longrightarrow> cl_ConfigMaps (cl w) k = Some cm"
  using assms [unfolded lawfulClient_def lawfulGet_def, THEN conjunct2, THEN conjunct2, THEN conjunct2,
      THEN conjunct2, THEN conjunct2, THEN conjunct1, THEN spec, of k, THEN spec, of w]
  by auto

lemma getConfigMapData_read:
  assumes "lawfulClient lib c cl" and "getConfigMapData c ns nm key w = (r, w')"
  shows "cl w' = cl w"
    and "r = Inr v \<Longrightarrow> \<exists>cm. cl_ConfigMaps (cl w) (NN ns nm) = Some cm \<and> mapGet (cm_Data cm) key = Some v"
proof -
  obtain r1 w1 where g: "apiGet (ConfigMaps c) (NN ns nm) w = (r1, w1)" by fastforce
  have w1: "cl w1 = cl w" using lawful_get_configmap(1) [OF assms(1), of "NN ns nm" w] g by simp
  from assms(2) g w1 show "cl w' = cl w"
    by (cases r) (auto simp: getConfigMapData_def io_simps split: option.splits)
  assume "r = Inr v"
  with assms(2) g obtain cm where "r1 = Inr cm" "mapGet (cm_Data cm) key = Some v"
    by (auto simp: getConfigMapData_def io_simps split: option.splits)
  with lawful_get_configmap(2) [OF assms(1), of "NN ns nm" w cm] g
  show "\<exists>cm. cl_ConfigMaps (cl w) (NN ns nm) = Some cm \<and> mapGet (cm_Data cm) key = Some v"
    by auto
qed

text \<open>The value a config map of the cluster has under a key.\<close>

definition configMapHas :: "cluster \<Rightarrow> string \<Rightarrow> string \<Rightarrow> string \<Rightarrow> string \<Rightarrow> bool" where
  "configMapHas c ns nm key v \<longleftrightarrow>
     (\<exists>cm. cl_ConfigMaps c (NN ns nm) = Some cm \<and> mapGet (cm_Data cm) key = Some v)"

text \<open>A successful run: both sources are read, then the joined map is stored.\<close>

lemma CreateKubelet_run:
  assumes "lawfulClient lib c cl" and "CreateKubeletKubeRootCAConfigMap getenv c w = (r, w')"
    and "cl w' \<noteq> cl w \<or> r = Inr ()"
  obtains root kubelet cm where "getenv ''OPERATOR_NAMESPACE'' \<noteq> []"
    "configMapHas (cl w) (getenv ''OPERATOR_NAMESPACE'') kubeRootCAConfigMap kubeRootCAKey root"
    "configMapHas (cl w) kubeletCANamespace kubeletCAConfigMap kubeletCAKey kubelet"
    "cl w' = (cl w)\<lparr>cl_ConfigMaps := (cl_ConfigMaps (cl w))
       (NN (getenv ''OPERATOR_NAMESPACE'') kubeletKubeRootCAConfigMapName \<mapsto> cm)\<rparr>"
    "mapGet (cm_Data cm) = (case cl_ConfigMaps (cl w) (NN (getenv ''OPERATOR_NAMESPACE'') kubeletKubeRootCAConfigMapName) of
       None \<Rightarrow> Map.empty | Some old \<Rightarrow> mapGet (cm_Data old))(kubeletKubeRootCAKey \<mapsto> root @ [CHR 0x0A] @ kubelet)"
proof -
  let ?ns = "getenv ''OPERATOR_NAMESPACE''"
  let ?cm0 = "\<lparr>cm_Meta = zeroMeta\<lparr>om_Namespace := ?ns, om_Name := kubeletKubeRootCAConfigMapName\<rparr>, cm_Data = None\<rparr>"
  let ?k = "NN ?ns kubeletKubeRootCAConfigMapName"
  let ?op = "apiCreateOrUpdate (ConfigMaps c)"
  obtain r1 w1 where g1: "getConfigMapData c kubeletCANamespace kubeletCAConfigMap kubeletCAKey w = (r1, w1)" by fastforce
  obtain r2 w2 where g2: "getConfigMapData c ?ns kubeRootCAConfigMap kubeRootCAKey w1 = (r2, w2)" by fastforce
  note k1 = getConfigMapData_read [OF assms(1) g1] and k2 = getConfigMapData_read [OF assms(1) g2]
  note run = assms(2) [unfolded CreateKubeletKubeRootCAConfigMap_def Let_def bindE_def wrapE_def tryE_def]
  from run g1 g2 k1(1) k2(1) assms(3) obtain kubelet root where
    data: "?ns \<noteq> []" "r1 = Inr kubelet" "r2 = Inr root" by (cases r1; cases r2) (auto split: if_splits)
  obtain r3 w3 where g3: "?op ?cm0 (setUnifiedCA (root @ [CHR 0x0A] @ kubelet)) w2 = (r3, w3)" by fastforce
  have w3: "w' = w3" "r = Inr () \<longleftrightarrow> \<not> isl r3" using run g1 g2 g3 data by (auto split: sum.splits)
  have key: "keyOf (cm_Meta ?cm0) = ?k" by (simp add: keyOf_def)
  have "\<exists>cm. setUnifiedCA (root @ [CHR 0x0A] @ kubelet)
      (case cl_ConfigMaps (cl w) ?k of None \<Rightarrow> ?cm0 | Some z \<Rightarrow> z) = Inr cm \<and>
      cl w' = (cl w)\<lparr>cl_ConfigMaps := (cl_ConfigMaps (cl w))(?k \<mapsto> cm)\<rparr>"
  proof (cases r3)
    case (Inr y)
    with upsert_Inr [OF lawfulClientD(12) [OF assms(1)] g3 [unfolded Inr]] w3 k1(1) k2(1)
    show ?thesis by (simp add: key)
  next
    case (Inl e)
    with upsert_Inl [OF lawfulClientD(12) [OF assms(1)] g3 [unfolded Inl]] w3 k1(1) k2(1) assms(3)
    show ?thesis by (auto simp: key)
  qed
  then obtain cm where "setUnifiedCA (root @ [CHR 0x0A] @ kubelet)
      (case cl_ConfigMaps (cl w) ?k of None \<Rightarrow> ?cm0 | Some z \<Rightarrow> z) = Inr cm"
    and w': "cl w' = (cl w)\<lparr>cl_ConfigMaps := (cl_ConfigMaps (cl w))(?k \<mapsto> cm)\<rparr>" by blast
  then have cm: "mapGet (cm_Data cm) = (case cl_ConfigMaps (cl w) ?k of None \<Rightarrow> Map.empty
      | Some old \<Rightarrow> mapGet (cm_Data old))(kubeletKubeRootCAKey \<mapsto> root @ [CHR 0x0A] @ kubelet)"
    by (auto simp: setUnifiedCA_eq fun_eq_iff split: option.splits)
  show ?thesis
    by (rule that [OF data(1) _ _ w' cm]) (use k1 k2 data in \<open>simp_all add: configMapHas_def\<close>)
qed

section \<open>Properties\<close>

text \<open>
  C21: the joined CA bundle. After a successful run the config map of the operator's
  namespace holds, under the key the device plugin mounts, the cluster's root CA followed
  by the kubelet CA; the entries it had under other keys are kept and nothing else in the
  cluster has changed.
\<close>

theorem unified_ca_written:
  assumes "lawfulClient lib c cl" and "CreateKubeletKubeRootCAConfigMap getenv c w = (Inr (), w')"
  shows "\<exists>root kubelet cm.
    configMapHas (cl w) (getenv ''OPERATOR_NAMESPACE'') ''kube-root-ca.crt'' ''ca.crt'' root \<and>
    configMapHas (cl w) ''openshift-config-managed'' ''kubelet-serving-ca'' ''ca-bundle.crt'' kubelet \<and>
    cl w' = (cl w)\<lparr>cl_ConfigMaps := (cl_ConfigMaps (cl w))
      (NN (getenv ''OPERATOR_NAMESPACE'') ''kube-root-kubelet-ca'' \<mapsto> cm)\<rparr> \<and>
    mapGet (cm_Data cm) =
      (case cl_ConfigMaps (cl w) (NN (getenv ''OPERATOR_NAMESPACE'') ''kube-root-kubelet-ca'') of
         None \<Rightarrow> Map.empty | Some old \<Rightarrow> mapGet (cm_Data old))
      (''ca-bundle.crt'' \<mapsto> root @ [CHR 0x0A] @ kubelet)"
  by (rule CreateKubelet_run [OF assms])
     (auto simp: kubeRootCAConfigMap_def kubeRootCAKey_def kubeletCANamespace_def kubeletCAConfigMap_def
       kubeletCAKey_def kubeletKubeRootCAConfigMapName_def kubeletKubeRootCAKey_def)

text \<open>The two sources in the server in memory.\<close>

definition exCM :: "string \<Rightarrow> string \<Rightarrow> string \<Rightarrow> string \<Rightarrow> ConfigMap" where
  "exCM ns nm key v = \<lparr>cm_Meta = zeroMeta\<lparr>om_Namespace := ns, om_Name := nm\<rparr>, cm_Data = Some [key \<mapsto> v]\<rparr>"

definition exCAs :: mem where
  "exCAs = emptyMem\<lparr>m_ConfigMaps := [exCM ''op'' ''kube-root-ca.crt'' ''ca.crt'' ''R'',
     exCM ''openshift-config-managed'' ''kubelet-serving-ca'' ''ca-bundle.crt'' ''K'']\<rparr>"

definition exEnv :: "string \<Rightarrow> string" where
  "exEnv v = (if v = ''OPERATOR_NAMESPACE'' then ''op'' else [])"

lemma ex_unified:
  "\<exists>w'. CreateKubeletKubeRootCAConfigMap exEnv memClient exCAs = (Inr (), w')"
  by (simp add: CreateKubeletKubeRootCAConfigMap_def getConfigMapData_def exEnv_def exCAs_def exCM_def emptyMem_def
      memClient_def memApi_def memGet_def memUpsert_def bindE_def wrapE_def tryE_def setUnifiedCA_eq keyOf_def zeroMeta_def
      kubeRootCAConfigMap_def kubeRootCAKey_def kubeletCANamespace_def kubeletCAConfigMap_def
      kubeletCAKey_def kubeletKubeRootCAConfigMapName_def kubeletKubeRootCAKey_def Let_def)

lemma exCAs_has:
  "configMapHas (memCluster exCAs) ''op'' ''kube-root-ca.crt'' ''ca.crt'' v \<longleftrightarrow> v = ''R''"
  "configMapHas (memCluster exCAs) ''openshift-config-managed'' ''kubelet-serving-ca'' ''ca-bundle.crt'' v \<longleftrightarrow> v = ''K''"
  by (auto simp: configMapHas_def exCAs_def exCM_def emptyMem_def memCluster_def keyOf_def zeroMeta_def)

lemma unified_ca_written_witness:
  "\<exists>w' cm. CreateKubeletKubeRootCAConfigMap exEnv memClient exCAs = (Inr (), w') \<and>
     cl_ConfigMaps (memCluster w') (NN ''op'' ''kube-root-kubelet-ca'') = Some cm \<and>
     mapGet (cm_Data cm) ''ca-bundle.crt'' = Some [CHR ''R'', CHR 0x0A, CHR ''K'']"
proof -
  obtain w' where run: "CreateKubeletKubeRootCAConfigMap exEnv memClient exCAs = (Inr (), w')"
    using ex_unified by blast
  have ns: "exEnv ''OPERATOR_NAMESPACE'' = ''op''" by (simp add: exEnv_def)
  from unified_ca_written [OF lawfulClient_mem run] obtain cm where
    w': "memCluster w' = (memCluster exCAs)\<lparr>cl_ConfigMaps := (cl_ConfigMaps (memCluster exCAs))
      (NN ''op'' ''kube-root-kubelet-ca'' \<mapsto> cm)\<rparr>"
    and cm: "mapGet (cm_Data cm) ''ca-bundle.crt'' = Some [CHR ''R'', CHR 0x0A, CHR ''K'']"
    by (auto simp: ns exCAs_has)
  have "cl_ConfigMaps (memCluster w') (NN ''op'' ''kube-root-kubelet-ca'') = Some cm" unfolding w' by simp
  with run cm show ?thesis by blast
qed

text \<open>
  Nothing is written on incomplete input. When the operator's namespace is not set, or
  one of the two sources lacks its key, the run fails and leaves the cluster as it was.
\<close>

theorem unified_ca_incomplete:
  assumes "lawfulClient lib c cl" and "CreateKubeletKubeRootCAConfigMap getenv c w = (r, w')"
    and "getenv ''OPERATOR_NAMESPACE'' = [] \<or>
      (\<nexists>root. configMapHas (cl w) (getenv ''OPERATOR_NAMESPACE'') ''kube-root-ca.crt'' ''ca.crt'' root) \<or>
      (\<nexists>ca. configMapHas (cl w) ''openshift-config-managed'' ''kubelet-serving-ca'' ''ca-bundle.crt'' ca)"
  shows "isl r \<and> cl w' = cl w"
proof -
  have "\<not> (cl w' \<noteq> cl w \<or> r = Inr ())"
  proof
    assume "cl w' \<noteq> cl w \<or> r = Inr ()"
    from CreateKubelet_run [OF assms(1,2) this] assms(3) show False
      by (auto simp: kubeRootCAConfigMap_def kubeRootCAKey_def kubeletCANamespace_def kubeletCAConfigMap_def
          kubeletCAKey_def)
  qed
  then show ?thesis by (cases r) auto
qed

lemma unified_ca_incomplete_witness:
  "isl (fst (CreateKubeletKubeRootCAConfigMap exEnv memClient emptyMem)) \<and>
   memCluster (snd (CreateKubeletKubeRootCAConfigMap exEnv memClient emptyMem)) = memCluster emptyMem"
proof -
  have "\<nexists>root. configMapHas (memCluster emptyMem) (exEnv ''OPERATOR_NAMESPACE'') ''kube-root-ca.crt'' ''ca.crt'' root"
    by (simp add: configMapHas_def memCluster_def emptyMem_def)
  with unified_ca_incomplete [OF lawfulClient_mem prod.collapse [symmetric]] show ?thesis by blast
qed

end
