(* ===== verification/KMMModule.thy ===== *)
theory KMMModule
  imports Configmap Upgrade
begin

text \<open>
  internal/kmmmodule/kmmmodule.go: the KMM Module the operator maintains for a
  DeviceConfig, that is the driver container and its build, the DRA driver or the
  device plugin, the node selector and the tolerations.
\<close>

section \<open>Definitions\<close>

definition gpuDriverModuleName :: string where "gpuDriverModuleName = ''neuron''"

definition getNodeSelector :: "DeviceConfig \<Rightarrow> gomap" where
  "getNodeSelector devConfig =
     (if Selector (dc_Spec devConfig) \<noteq> None then Selector (dc_Spec devConfig)
      else Some [''feature.node.kubernetes.io/pci-'' @ PCIVendorID @ ''.present'' \<mapsto> ''true''])"

definition driversImageOf :: "DeviceConfig \<Rightarrow> string" where
  "driversImageOf devConfig =
     (let driversImage =
        ''image-registry.openshift-image-registry.svc:5000/$MOD_NAMESPACE/neuron-kernel-module:''
          @ DriverVersion (dc_Spec devConfig) @ ''-$KERNEL_VERSION''
      in if DriversImage (dc_Spec devConfig) \<noteq> [] then DriversImage (dc_Spec devConfig) @ ''-$KERNEL_VERSION''
         else driversImage)"

definition TaintNodeUnschedulable :: string where
  "TaintNodeUnschedulable = ''node.kubernetes.io/unschedulable''"

definition setKMMModuleLoader :: "Module \<Rightarrow> DeviceConfig \<Rightarrow> goerr + Module" where
  "setKMMModuleLoader m devConfig =
     (let driversImage = driversImageOf devConfig;
          loader = \<lparr>ml_ModuleName = gpuDriverModuleName,
            ml_KernelMappings = [\<lparr>km_Regexp = ''^.+$'', km_ContainerImage = driversImage,
              km_InTreeModulesToRemove = [gpuDriverModuleName],
              km_Build = Some \<lparr>build_DockerfileConfigMap = Some (GetDockerfileCMName devConfig),
                build_BuildArgs = [(''DRIVER_VERSION'', DriverVersion (dc_Spec devConfig))]\<rparr>\<rparr>],
            ml_ImagePullPolicy = ''Always'',
            ml_Version = DriverVersion (dc_Spec devConfig),
            ml_ServiceAccountName = ''awslabs-gpu-operator-kmm-module-loader''\<rparr>;
          tolerations = [
            zeroToleration\<lparr>tol_Key := UpgradeTaintTolerationKey, tol_Value := ''true'',
              tol_Operator := ''Equal'', tol_Effect := TaintEffectNoExecute\<rparr>,
            zeroToleration\<lparr>tol_Key := TaintNodeUnschedulable, tol_Operator := ''Exists'',
              tol_Effect := TaintEffectNoSchedule\<rparr>]
      in Inr (m\<lparr>mod_Spec := (mod_Spec m)\<lparr>ms_ModuleLoader := Some loader,
           ms_ImageRepoSecret := ImageRepoSecret (dc_Spec devConfig),
           ms_Selector := getNodeSelector devConfig,
           ms_Tolerations := tolerations\<rparr>\<rparr>))"

definition setKMMDevicePlugin :: "Module \<Rightarrow> DeviceConfig \<Rightarrow> Module" where
  "setKMMDevicePlugin m devConfig =
     (let devicePluginImage = DevicePluginImage (dc_Spec devConfig);
          plugin = \<lparr>dp_ServiceAccountName = ''awslabs-gpu-operator-kmm-device-plugin'',
            dp_Image = devicePluginImage,
            dp_Env = [\<lparr>env_Name = ''NODE_NAME'', env_Value = [], env_FieldPath = Some ''spec.nodeName''\<rparr>],
            dp_VolumeMounts = [
              zeroVolumeMount\<lparr>vm_Name := ''sys'', vm_MountPath := ''/sys''\<rparr>,
              zeroVolumeMount\<lparr>vm_Name := ''kube-api-kubelet-access'',
                vm_MountPath := ''/var/run/secrets/kubernetes.io/serviceaccount'', vm_ReadOnly := True\<rparr>],
            dp_Volumes = [
              \<lparr>vol_Name = ''sys'', vol_Source = HostPath ''/sys'' ''Directory''\<rparr>,
              \<lparr>vol_Name = ''kube-api-kubelet-access'', vol_Source = Projected 420 [
                ServiceAccountToken ''token'' 3607,
                ConfigMapItems ''kube-root-kubelet-ca'' [(''ca-bundle.crt'', ''ca.crt'')],
                DownwardAPI [(''namespace'', ''metadata.namespace'')]]\<rparr>],
            dp_AutomountServiceAccountToken = Some False\<rparr>
      in m\<lparr>mod_Spec := (mod_Spec m)\<lparr>ms_DevicePlugin := Some plugin\<rparr>\<rparr>)"

definition defaultDRADriverName :: string where "defaultDRADriverName = ''neuron.aws.com''"
definition defaultDeviceClassName :: string where "defaultDeviceClassName = ''neuron.aws.com''"
definition draServiceAccountName :: string where
  "draServiceAccountName = ''awslabs-gpu-operator-dra-driver''"

fun mapDeviceClassesLoop :: "DeviceClassSpec list \<Rightarrow> DeviceClass list" where
  "mapDeviceClassesLoop [] = []"
| "mapDeviceClassesLoop (dc # dcSpecs) =
     \<lparr>cls_Name = dcs_Name dc, cls_Selectors = dcs_Selectors dc, cls_Config = dcs_Config dc\<rparr>
       # mapDeviceClassesLoop dcSpecs"

definition mapDeviceClasses :: "DeviceClassSpec list \<Rightarrow> DeviceClass list" where
  \<open>mapDeviceClasses dcSpecs =
     (if length dcSpecs = 0
      then [\<lparr>cls_Name = defaultDeviceClassName,
             cls_Selectors = [CEL ''device.driver == "neuron.aws.com"''], cls_Config = []\<rparr>]
      else mapDeviceClassesLoop dcSpecs)\<close>

definition setKMMDRA :: "Module \<Rightarrow> DeviceConfig \<Rightarrow> Module" where
  "setKMMDRA m devConfig =
     (let deviceClasses = mapDeviceClasses (DeviceClasses (dc_Spec devConfig));
          cpuMemory = [''cpu'' \<mapsto> MustParse ''20m'', ''memory'' \<mapsto> MustParse ''256Mi''];
          dra = \<lparr>dra_Image = DRADriverImage (dc_Spec devConfig),
            dra_Command = [''k8s-neuron-dra-driver''],
            dra_Resources = \<lparr>res_Requests = cpuMemory, res_Limits = cpuMemory\<rparr>,
            dra_ServiceAccountName = draServiceAccountName,
            dra_DriverName = defaultDRADriverName,
            dra_DeviceClasses = deviceClasses\<rparr>
      in m\<lparr>mod_Spec := (mod_Spec m)\<lparr>ms_DRA := Some dra, ms_DevicePlugin := None\<rparr>\<rparr>)"

text \<open>\<open>controllerutil.SetControllerReference(devConfig, mod, scheme)\<close> edits the metadata.\<close>

definition ownModule :: "library \<Rightarrow> DeviceConfig \<Rightarrow> Module \<Rightarrow> goerr + Module" where
  "ownModule lib devConfig m = (case setControllerReference lib devConfig (mod_Meta m) of
     Inl e \<Rightarrow> Inl e | Inr meta \<Rightarrow> Inr (m\<lparr>mod_Meta := meta\<rparr>))"

definition SetKMMModuleAsDesired :: "library \<Rightarrow> DeviceConfig \<Rightarrow> Module \<Rightarrow> goerr + Module" where
  "SetKMMModuleAsDesired lib devConfig m =
     (case setKMMModuleLoader m devConfig of
        Inl err \<Rightarrow> Inl (Errorf ''failed to set KMM Module: %v'' [] (Some err))
      | Inr m1 \<Rightarrow>
          let m2 = (if DRADriverImage (dc_Spec devConfig) \<noteq> [] then setKMMDRA m1 devConfig
                    else if DevicePluginImage (dc_Spec devConfig) \<noteq> []
                    then setKMMDevicePlugin m1 devConfig else m1)
          in ownModule lib devConfig m2)"

text \<open>The interface, and its implementation over the library (the scheme is the library's).\<close>

record KMMModuleAPI =
  kmm_SetKMMModuleAsDesired :: "DeviceConfig \<Rightarrow> Module \<Rightarrow> goerr + Module"

definition NewKMMModule :: "library \<Rightarrow> KMMModuleAPI" where
  "NewKMMModule lib = \<lparr>kmm_SetKMMModuleAsDesired = SetKMMModuleAsDesired lib\<rparr>"

section \<open>Properties\<close>

lemma mapDeviceClassesLoop_map: "mapDeviceClassesLoop ds =
    map (\<lambda>dc. \<lparr>cls_Name = dcs_Name dc, cls_Selectors = dcs_Selectors dc, cls_Config = dcs_Config dc\<rparr>) ds"
  by (induction ds) auto

lemma mapDeviceClasses_nonempty: "mapDeviceClasses ds \<noteq> []"
  by (cases ds) (auto simp: mapDeviceClasses_def)

lemmas kmm_defs = SetKMMModuleAsDesired_def setKMMModuleLoader_def setKMMDevicePlugin_def
  setKMMDRA_def ownModule_def

text \<open>The spec a successful call leaves, field by field.\<close>

lemma SetKMMModule_fields:
  assumes "SetKMMModuleAsDesired lib d m = Inr m'"
  shows "setControllerReference lib d (mod_Meta m) = Inr (mod_Meta m')"
    and "ms_Selector (mod_Spec m') = getNodeSelector d"
    and "ms_ImageRepoSecret (mod_Spec m') = ImageRepoSecret (dc_Spec d)"
    and "\<exists>l. ms_ModuleLoader (mod_Spec m') = Some l \<and> ml_Version l = DriverVersion (dc_Spec d) \<and>
      map km_ContainerImage (ml_KernelMappings l) = [driversImageOf d] \<and>
      map km_Build (ml_KernelMappings l) = [Some \<lparr>build_DockerfileConfigMap = Some (GetDockerfileCMName d),
        build_BuildArgs = [(''DRIVER_VERSION'', DriverVersion (dc_Spec d))]\<rparr>]"
    and "DRADriverImage (dc_Spec d) \<noteq> [] \<Longrightarrow>
      ms_DevicePlugin (mod_Spec m') = None \<and> ms_DRA (mod_Spec m') \<noteq> None"
    and "DRADriverImage (dc_Spec d) = [] \<Longrightarrow> ms_DRA (mod_Spec m') = ms_DRA (mod_Spec m)"
    and "DRADriverImage (dc_Spec d) = [] \<Longrightarrow> DevicePluginImage (dc_Spec d) = [] \<Longrightarrow>
      ms_DevicePlugin (mod_Spec m') = ms_DevicePlugin (mod_Spec m)"
    and "DRADriverImage (dc_Spec d) = [] \<Longrightarrow> DevicePluginImage (dc_Spec d) \<noteq> [] \<Longrightarrow>
      \<exists>p. ms_DevicePlugin (mod_Spec m') = Some p \<and> dp_Image p = DevicePluginImage (dc_Spec d)"
  using assms by (auto simp: kmm_defs Let_def split: sum.splits if_splits)

text \<open>Running it again on its result changes nothing.\<close>

lemma SetKMMModule_stable:
  assumes "lawfulOwner lib" and "SetKMMModuleAsDesired lib d m = Inr m'"
  shows "SetKMMModuleAsDesired lib d m' = Inr m'"
  using assms by (cases m; cases m')
    (auto simp: kmm_defs Let_def lawfulOwner_def split: sum.splits if_splits)

interpretation kmm: desired_state SetKMMModuleAsDesired mod_Meta
  by unfold_locales (auto simp: SetKMMModule_fields SetKMMModule_stable)

end
