(* ===== verification/CustomScheduler.thy ===== *)
theory CustomScheduler
  imports Desired
begin

text \<open>
  internal/customscheduler/customscheduler.go: the two Deployments of device-plugin mode,
  the second kube-scheduler and its extension. \<open>draSupport\<close> is the field of the struct:
  whether the cluster serves the resource.k8s.io API.
\<close>

definition SetCustomSchedulerAsDesired :: "bool \<Rightarrow> Deployment \<Rightarrow> DeviceConfig \<Rightarrow> Deployment" where
  "SetCustomSchedulerAsDesired draSupport dp devConfig =
     (let containerVolumeMounts = [zeroVolumeMount\<lparr>vm_Name := ''config-volume'',
            vm_MountPath := ''/etc/kubernetes/neuron-scheduler''\<rparr>];
          volumes = [\<lparr>vol_Name = ''config-volume'',
            vol_Source = ConfigMapVolume ''awslabs-gpu-operator-neuron-scheduler-config''\<rparr>];
          matchLabels = Some [''app.kubernetes.io/name'' \<mapsto> ''aws-neuron'',
            ''app.kubernetes.io/component'' \<mapsto> ''aws-neuron'',
            ''app.kubernetes.io/part-of'' \<mapsto> ''aws-neuron'',
            ''app.kubernetes.io/instance'' \<mapsto> ''neuron-release'',
            ''tier'' \<mapsto> ''control-plane''];
          csArgs = [''--config=/etc/kubernetes/neuron-scheduler/neuron_scheduler_config.yaml'',
            ''--leader-elect=true'', ''--v=2''];
          csArgs = (if \<not> draSupport
            then csArgs @ [''--feature-gates=DynamicResourceAllocation=false''] else csArgs);
          probe = \<lparr>probe_InitialDelaySeconds = 0, probe_Path = ''/healthz'', probe_Port = 10259,
            probe_Scheme = ''HTTPS''\<rparr>
      in dp\<lparr>dep_Spec := zeroDeploymentSpec\<lparr>
           dps_Selector := Some matchLabels,
           dps_Replicas := Some 1,
           dps_Template := \<lparr>tmpl_Labels = matchLabels,
             tmpl_Spec = zeroPodSpec\<lparr>
               pod_ServiceAccountName := ''awslabs-gpu-operator-neuron-scheduler'',
               pod_Containers := [zeroContainer\<lparr>
                 c_Name := ''kube-second-scheduler'',
                 c_Image := CustomSchedulerImage (dc_Spec devConfig),
                 c_Args := csArgs,
                 c_Command := [''/usr/local/bin/kube-scheduler''],
                 c_ImagePullPolicy := ''IfNotPresent'',
                 c_LivenessProbe := Some (probe\<lparr>probe_InitialDelaySeconds := 15\<rparr>),
                 c_ReadinessProbe := Some probe,
                 c_Resources := \<lparr>res_Requests = [''cpu'' \<mapsto> MustParse ''0.1''], res_Limits = Map.empty\<rparr>,
                 c_SecurityContext := Some \<lparr>sc_Privileged = Some False, sc_RunAsUser = None\<rparr>,
                 c_VolumeMounts := containerVolumeMounts\<rparr>],
               pod_Volumes := volumes\<rparr>\<rparr>\<rparr>\<rparr>)"

definition SetCustomSchedulerExtensionAsDesired :: "Deployment \<Rightarrow> DeviceConfig \<Rightarrow> Deployment" where
  "SetCustomSchedulerExtensionAsDesired dp devConfig =
     (let matchLabels = Some [''app.kubernetes.io/name'' \<mapsto> ''aws-neuron'',
            ''app.kubernetes.io/instance'' \<mapsto> ''neuron-scheduler-extension'',
            ''app.kubernetes.io/component'' \<mapsto> ''aws-neuron'',
            ''app.kubernetes.io/part-of'' \<mapsto> ''aws-neuron'']
      in dp\<lparr>dep_Spec := zeroDeploymentSpec\<lparr>
           dps_Replicas := Some 1,
           dps_Strategy := ''Recreate'',
           dps_Selector := Some matchLabels,
           dps_Template := \<lparr>tmpl_Labels = matchLabels,
             tmpl_Spec = zeroPodSpec\<lparr>
               pod_ServiceAccountName := ''awslabs-gpu-operator-neuron-scheduler'',
               pod_PriorityClassName := ''system-node-critical'',
               pod_SchedulerName := ''neuron-scheduler'',
               pod_Containers := [zeroContainer\<lparr>
                 c_Name := ''neuron-scheduler-extension'',
                 c_Image := SchedulerExtensionImage (dc_Spec devConfig),
                 c_ImagePullPolicy := ''IfNotPresent'',
                 c_Env := [\<lparr>env_Name = ''PORT'', env_Value = ''12345'', env_FieldPath = None\<rparr>]\<rparr>]\<rparr>\<rparr>\<rparr>\<rparr>)"

record CustomSchedulerAPI =
  cs_SetCustomSchedulerAsDesired :: "Deployment \<Rightarrow> DeviceConfig \<Rightarrow> Deployment"
  cs_SetCustomSchedulerExtensionAsDesired :: "Deployment \<Rightarrow> DeviceConfig \<Rightarrow> Deployment"

definition NewCustomScheduler :: "bool \<Rightarrow> CustomSchedulerAPI" where
  "NewCustomScheduler draSupport = \<lparr>cs_SetCustomSchedulerAsDesired = SetCustomSchedulerAsDesired draSupport,
     cs_SetCustomSchedulerExtensionAsDesired = SetCustomSchedulerExtensionAsDesired\<rparr>"

text \<open>
  The mutate functions of the reconciler's \<open>handleCustomScheduler\<close>: set the spec, then the
  controller reference.
\<close>

definition ownDeployment :: "library \<Rightarrow> DeviceConfig \<Rightarrow> Deployment \<Rightarrow> goerr + Deployment" where
  "ownDeployment lib devConfig dp = (case setControllerReference lib devConfig (dep_Meta dp) of
     Inl e \<Rightarrow> Inl e | Inr meta \<Rightarrow> Inr (dp\<lparr>dep_Meta := meta\<rparr>))"

definition schedulerMutate :: "bool \<Rightarrow> library \<Rightarrow> DeviceConfig \<Rightarrow> Deployment \<Rightarrow> goerr + Deployment" where
  "schedulerMutate draSupport lib devConfig csDep =
     ownDeployment lib devConfig (SetCustomSchedulerAsDesired draSupport csDep devConfig)"

definition extensionMutate :: "library \<Rightarrow> DeviceConfig \<Rightarrow> Deployment \<Rightarrow> goerr + Deployment" where
  "extensionMutate lib devConfig cseDep =
     ownDeployment lib devConfig (SetCustomSchedulerExtensionAsDesired cseDep devConfig)"

lemma SetCustomScheduler_spec_only:
  "dep_Meta (SetCustomSchedulerAsDesired b dp d) = dep_Meta dp"
  "dep_Spec (SetCustomSchedulerAsDesired b dp d) = dep_Spec (SetCustomSchedulerAsDesired b dp' d)"
  "dep_Meta (SetCustomSchedulerExtensionAsDesired dp d) = dep_Meta dp"
  "dep_Spec (SetCustomSchedulerExtensionAsDesired dp d) = dep_Spec (SetCustomSchedulerExtensionAsDesired dp' d)"
  by (simp_all add: SetCustomSchedulerAsDesired_def SetCustomSchedulerExtensionAsDesired_def Let_def)

lemma ownDeployment_Inr: "ownDeployment lib d dp = Inr y \<longleftrightarrow>
    (\<exists>meta. setControllerReference lib d (dep_Meta dp) = Inr meta \<and> y = dp\<lparr>dep_Meta := meta\<rparr>)"
  by (auto simp: ownDeployment_def split: sum.splits)

text \<open>An operation that only rewrites the spec, the same way whatever was there, is stable.\<close>

lemma own_spec_stable:
  assumes "lawfulOwner lib" and "\<And>dp. dep_Meta (f dp) = dep_Meta dp"
    and "\<And>dp dp'. dep_Spec (f dp) = dep_Spec (f dp')"
    and "ownDeployment lib d (f x) = Inr y"
  shows "ownDeployment lib d (f y) = Inr y"
proof -
  from assms(4) obtain meta where m: "setControllerReference lib d (dep_Meta x) = Inr meta"
    and y: "y = (f x)\<lparr>dep_Meta := meta\<rparr>" by (auto simp: ownDeployment_Inr assms(2))
  from m assms(1) have again: "setControllerReference lib d meta = Inr meta"
    unfolding lawfulOwner_def by blast
  have "dep_Spec (f y) = dep_Spec y" "dep_Meta (f y) = meta"
    using assms(2,3) y by simp_all
  then have "(f y)\<lparr>dep_Meta := meta\<rparr> = y" using y by (cases y; cases "f y") simp
  with again \<open>dep_Meta (f y) = meta\<close> show ?thesis by (simp add: ownDeployment_Inr)
qed

interpretation scheduler: desired_state "schedulerMutate draSupport" dep_Meta for draSupport
proof (unfold_locales, goal_cases)
  case 1 then show ?case by (auto simp: schedulerMutate_def ownDeployment_Inr SetCustomScheduler_spec_only)
next
  case (2 lib d x y)
  then show ?case unfolding schedulerMutate_def
    by (intro own_spec_stable [where f = "\<lambda>dp. SetCustomSchedulerAsDesired draSupport dp d"])
       (auto simp: SetCustomScheduler_spec_only)
qed

interpretation extension: desired_state extensionMutate dep_Meta
proof (unfold_locales, goal_cases)
  case 1 then show ?case by (auto simp: extensionMutate_def ownDeployment_Inr SetCustomScheduler_spec_only)
next
  case (2 lib d x y)
  then show ?case unfolding extensionMutate_def
    by (intro own_spec_stable [where f = "\<lambda>dp. SetCustomSchedulerExtensionAsDesired dp d"])
       (auto simp: SetCustomScheduler_spec_only)
qed

end
