(* ===== verification/NodeMetrics.thy ===== *)
theory NodeMetrics
  imports Desired
begin

text \<open>
  internal/nodemetrics/nodemetrics.go: the DaemonSet that exports the Neuron metrics of
  every node whose kernel module is ready.
\<close>

definition metricsPortName :: string where "metricsPortName = ''metrics''"
definition metricsPort :: int where "metricsPort = 8000"
definition metricsServiceAccount :: string where
  "metricsServiceAccount = ''awslabs-gpu-operator-node-metrics''"

definition getVolumesAndMount :: "Volume list \<times> VolumeMount list" where
  "getVolumesAndMount =
     (let containerVolumeMounts = [
            zeroVolumeMount\<lparr>vm_Name := ''root-volume'', vm_MountPath := ''/host/root''\<rparr>,
            zeroVolumeMount\<lparr>vm_Name := ''sys-volume'', vm_MountPath := ''/host/sys''\<rparr>,
            zeroVolumeMount\<lparr>vm_Name := ''config-volume'',
              vm_MountPath := ''/opt/aws/neuron/bin/neuron-monitor.conf'',
              vm_SubPath := ''neuron-monitor.conf'', vm_ReadOnly := True\<rparr>];
          volumes = [
            \<lparr>vol_Name = ''root-volume'', vol_Source = HostPath ''/'' ''Directory''\<rparr>,
            \<lparr>vol_Name = ''sys-volume'', vol_Source = HostPath ''/sys'' ''Directory''\<rparr>,
            \<lparr>vol_Name = ''config-volume'',
              vol_Source = ConfigMapVolume ''awslabs-gpu-operator-node-metrics-configmap''\<rparr>]
      in (volumes, containerVolumeMounts))"

definition getPorts :: "ContainerPort list" where
  "getPorts = [\<lparr>port_Name = metricsPortName, port_HostPort = metricsPort,
     port_ContainerPort = metricsPort, port_Protocol = ''TCP''\<rparr>]"

text \<open>The script of the container: a raw string literal over six lines, indented by tabs.\<close>

definition scriptLine :: "string \<Rightarrow> string" where
  "scriptLine s = [CHR 0x0A] @ replicate 7 (CHR 0x09) @ s"

definition metricsScript :: string where
  \<open>metricsScript =
     scriptLine (''trap "kill -TERM 0; exit 0" TERM INT; '' @ [CHR 0x5C]) @
     scriptLine (''/opt/bin/entrypoint.sh '' @ [CHR 0x5C]) @
     scriptLine (''--port 8000 '' @ [CHR 0x5C]) @
     scriptLine (''--neuron-monitor-config /opt/aws/neuron/bin/neuron-monitor.conf & '' @ [CHR 0x5C]) @
     scriptLine ''wait''\<close>

definition metricsSpec :: "library \<Rightarrow> DeviceConfig \<Rightarrow> DaemonSetSpec" where
  "metricsSpec lib devConfig =
     (let (volumes, volumesMounts) = getVolumesAndMount;
          ports = getPorts;
          matchLabels = Some [''app.kubernetes.io/component'' \<mapsto> ''aws-neuron'',
            ''app.kubernetes.io/name'' \<mapsto> ''aws-neuron'',
            ''app.kubernetes.io/part-of'' \<mapsto> ''aws-neuron'',
            ''app.kubernetes.io/role'' \<mapsto> ''aws-neuron-gpu-metrics''];
          nodeSelector = Some [getKernelModuleReadyNodeLabel lib (dc_Namespace devConfig) (dc_Name devConfig)
            \<mapsto> []]
      in zeroDaemonSetSpec\<lparr>
           dss_Selector := Some matchLabels,
           dss_Template := \<lparr>tmpl_Labels = matchLabels,
             tmpl_Spec = zeroPodSpec\<lparr>
               pod_Containers := [zeroContainer\<lparr>
                 c_Name := ''node-metrics-container'',
                 c_Image := NodeMetricsImage (dc_Spec devConfig),
                 c_Command := [''/bin/bash'', ''-c''],
                 c_Args := [metricsScript],
                 c_ImagePullPolicy := ''Always'',
                 c_SecurityContext := Some \<lparr>sc_Privileged = Some True, sc_RunAsUser = Some 0\<rparr>,
                 c_VolumeMounts := volumesMounts,
                 c_Ports := ports\<rparr>],
               pod_NodeSelector := nodeSelector,
               pod_ServiceAccountName := metricsServiceAccount,
               pod_Volumes := volumes\<rparr>\<rparr>\<rparr>)"

definition SetNodeMetricsAsDesired ::
  "library \<Rightarrow> DaemonSet option \<Rightarrow> DeviceConfig \<Rightarrow> goerr + DaemonSet" where
  "SetNodeMetricsAsDesired lib dsPtr devConfig =
     (case dsPtr of None \<Rightarrow> Inl (Errorf ''daemon set is not initialized, zero pointer'' [] None)
      | Some ds \<Rightarrow>
          let ds = ds\<lparr>ds_Spec := metricsSpec lib devConfig\<rparr>
          in case setControllerReference lib devConfig (ds_Meta ds) of
               Inl err \<Rightarrow> Inl err
             | Inr meta \<Rightarrow> Inr (ds\<lparr>ds_Meta := meta\<rparr>))"

record NodeMetricsAPI =
  nm_SetNodeMetricsAsDesired :: "DaemonSet option \<Rightarrow> DeviceConfig \<Rightarrow> goerr + DaemonSet"

definition NewNodeMetrcis :: "library \<Rightarrow> NodeMetricsAPI" where
  "NewNodeMetrcis lib = \<lparr>nm_SetNodeMetricsAsDesired = SetNodeMetricsAsDesired lib\<rparr>"

text \<open>The mutate function of the reconciler passes the address of its object.\<close>

definition metricsMutate :: "library \<Rightarrow> DeviceConfig \<Rightarrow> DaemonSet \<Rightarrow> goerr + DaemonSet" where
  "metricsMutate lib devConfig ds = SetNodeMetricsAsDesired lib (Some ds) devConfig"

lemma metricsMutate_Inr: "metricsMutate lib d ds = Inr y \<longleftrightarrow>
    (\<exists>meta. setControllerReference lib d (ds_Meta ds) = Inr meta \<and>
       y = \<lparr>ds_Meta = meta, ds_Spec = metricsSpec lib d\<rparr>)"
  by (cases ds) (auto simp: metricsMutate_def SetNodeMetricsAsDesired_def Let_def split: sum.splits)

interpretation metrics: desired_state metricsMutate ds_Meta
  by unfold_locales (auto simp: metricsMutate_Inr lawfulOwner_def)

end
