(* ===== verification/Controller.thy ===== *)
theory Controller
  imports Rollout KMMModule CustomScheduler NodeMetrics
begin

text \<open>
  internal/controllers/device_config_reconciler.go: the reconciler of a DeviceConfig. The
  helper interface and the handler structs are records of functions, as in the source:
  \<open>Reconcile\<close> runs over any helper, \<open>operatorHelper\<close> builds the real one.
  The DeviceConfig is a pointer that \<open>setFinalizer\<close> and \<open>finalizeDeviceConfig\<close> update (the
  patch decodes the server's answer into it), so these return it.
\<close>

section \<open>Handlers and helper\<close>

record 'w deviceConfigReconcilerHelper =
  h_client :: "'w client"
  kmmHandler :: KMMModuleAPI
  cmHandler :: ConfigMapAPI
  upgradeHandler :: "'w UpgradeAPI"
  csHandler :: CustomSchedulerAPI
  nmHandler :: NodeMetricsAPI

record 'w deviceConfigReconcilerHelperAPI =
  finalizeDeviceConfig :: "DeviceConfig \<Rightarrow> ('w, DeviceConfig) io"
  setFinalizer :: "DeviceConfig \<Rightarrow> ('w, DeviceConfig) io"
  handleBuildConfigMap :: "DeviceConfig \<Rightarrow> ('w, unit) io"
  handleKMMModule :: "DeviceConfig \<Rightarrow> ('w, unit) io"
  handleModuleVersionUpgrade :: "DeviceConfig \<Rightarrow> ('w, unit) io"
  handleCustomScheduler :: "DeviceConfig \<Rightarrow> ('w, unit) io"
  handleNodeMetrics :: "DeviceConfig \<Rightarrow> ('w, unit) io"

record Result =
  Requeue :: bool
  RequeueAfter :: int

definition zeroResult :: Result where "zeroResult = \<lparr>Requeue = False, RequeueAfter = 0\<rparr>"

definition deviceConfigFinalizer :: string where
  "deviceConfigFinalizer = ''awslabs.node.kubernetes.io/deviceconfig-finalizer''"

section \<open>Reconcile\<close>

definition Reconcile :: "'w deviceConfigReconcilerHelperAPI \<Rightarrow> DeviceConfig \<Rightarrow> ('w, Result) io" where
  "Reconcile h devConfig =
     (if om_DeletionTimestamp (dc_Meta devConfig) \<noteq> None
      then bindE (wrapE (\<lambda>err. Errorf ''failed to finalize DeviceConfig: %v'' [] (Some err))
             (finalizeDeviceConfig h devConfig)) (\<lambda>_. ret zeroResult)
      else
        bindE (wrapE (\<lambda>err. Errorf ''failed to set finalizer for DeviceConfig: %v'' [] (Some err))
          (setFinalizer h devConfig)) (\<lambda>devConfig.
        bindE (wrapE (\<lambda>err. Errorf ''failed to handle build ConfigMap for DeviceConfig: %v'' [] (Some err))
          (handleBuildConfigMap h devConfig)) (\<lambda>_.
        bindE (wrapE (\<lambda>err. Errorf ''failed to handle KMM module for DeviceConfig: %v'' [] (Some err))
          (handleKMMModule h devConfig)) (\<lambda>_.
        bindE (wrapE (\<lambda>err. Errorf ''failed to handle KMM module version upgrade for DeviceConfig: %v'' [] (Some err))
          (handleModuleVersionUpgrade h devConfig)) (\<lambda>_.
        bindE (if DRADriverImage (dc_Spec devConfig) = []
          then wrapE (\<lambda>err. Errorf ''failed to handle customScheduler for DeviceConfig: %v'' [] (Some err))
            (handleCustomScheduler h devConfig)
          else ret ()) (\<lambda>_.
        bindE (wrapE (\<lambda>err. Errorf ''failed to handle node metrics for DeviceConfig: %v'' [] (Some err))
          (handleNodeMetrics h devConfig)) (\<lambda>_. ret zeroResult)))))))"

section \<open>The helper's operations\<close>

definition setFinalizers :: "string list \<Rightarrow> DeviceConfig \<Rightarrow> DeviceConfig" where
  "setFinalizers fs d = d\<lparr>dc_Meta := (dc_Meta d)\<lparr>om_Finalizers := fs\<rparr>\<rparr>"

abbreviation dc_Finalizers :: "DeviceConfig \<Rightarrow> string list" where
  "dc_Finalizers d \<equiv> om_Finalizers (dc_Meta d)"

definition dcrh_setFinalizer ::
  "library \<Rightarrow> 'w deviceConfigReconcilerHelper \<Rightarrow> DeviceConfig \<Rightarrow> ('w, DeviceConfig) io" where
  "dcrh_setFinalizer lib dcrh devConfig =
     (if containsFinalizer lib (dc_Finalizers devConfig) deviceConfigFinalizer then ret devConfig
      else let devConfigCopy = devConfig
           in apiPatch (DeviceConfigs (h_client dcrh))
                (setFinalizers (addFinalizer lib (dc_Finalizers devConfig) deviceConfigFinalizer) devConfig)
                devConfigCopy)"

definition nsString :: "nsname \<Rightarrow> string" where
  "nsString n = (case n of NN ns nm \<Rightarrow> ns @ ''/'' @ nm)"

definition dcrh_finalizeDeviceConfig ::
  "library \<Rightarrow> 'w deviceConfigReconcilerHelper \<Rightarrow> DeviceConfig \<Rightarrow> ('w, DeviceConfig) io" where
  "dcrh_finalizeDeviceConfig lib dcrh devConfig =
     (let metricsName = NN (dc_Namespace devConfig) (dc_Name devConfig @ ''-node-metrics'');
          namespacedName = NN (dc_Namespace devConfig) (dc_Name devConfig);
          removeFinalizerStep =
            bindE (wrapE (\<lambda>err. Errorf ''failed to remove upgrade labels from nodes %s: %v''
                 [nsString namespacedName] (Some err))
               (RemoveUpgradeLabels (upgradeHandler dcrh) devConfig)) (\<lambda>_.
            let devConfigCopy = devConfig
            in apiPatch (DeviceConfigs (h_client dcrh))
                 (setFinalizers (removeFinalizer lib (dc_Finalizers devConfig) deviceConfigFinalizer) devConfig)
                 devConfigCopy);
          moduleStep =
            tryE (apiGet (Modules (h_client dcrh)) namespacedName)
              (\<lambda>err. if \<not> isNotFound lib err
                 then fail (Errorf ''failed to get the requested Module %s: %v'' [nsString namespacedName] (Some err))
                 else removeFinalizerStep)
              (\<lambda>m. tryE (apiDelete (Modules (h_client dcrh)) m)
                 (\<lambda>err. if \<not> isNotFound lib err
                    then fail (Errorf ''failed to delete KMM Module %s: %v'' [nsString namespacedName] (Some err))
                    else ret devConfig)
                 (\<lambda>_. ret devConfig))
      in tryE (apiGet (DaemonSets (h_client dcrh)) metricsName)
           (\<lambda>err. if \<not> isNotFound lib err
              then fail (Errorf ''failed to get nodemetrics daemonset %s: %v'' [nsString metricsName] (Some err))
              else moduleStep)
           (\<lambda>nmDS. bindE (apiDelete (DaemonSets (h_client dcrh)) nmDS) (\<lambda>_. ret devConfig)))"

definition dcrh_handleBuildConfigMap ::
  "'w deviceConfigReconcilerHelper \<Rightarrow> DeviceConfig \<Rightarrow> ('w, unit) io" where
  "dcrh_handleBuildConfigMap dcrh devConfig =
     (let buildDockerfileCM = \<lparr>cm_Meta = zeroMeta\<lparr>om_Namespace := dc_Namespace devConfig,
            om_Name := GetDockerfileCMName devConfig\<rparr>, cm_Data = None\<rparr>
      in bindE (apiCreateOrPatch (ConfigMaps (h_client dcrh)) buildDockerfileCM
           (cm_SetBuildConfigMapAsDesired (cmHandler dcrh) devConfig)) (\<lambda>_. ret ()))"

definition dcrh_handleKMMModule ::
  "'w deviceConfigReconcilerHelper \<Rightarrow> DeviceConfig \<Rightarrow> ('w, unit) io" where
  "dcrh_handleKMMModule dcrh devConfig =
     (let kmmMod = \<lparr>mod_Meta = zeroMeta\<lparr>om_Namespace := dc_Namespace devConfig,
            om_Name := dc_Name devConfig\<rparr>, mod_Spec = zeroModuleSpec\<rparr>
      in bindE (apiCreateOrPatch (Modules (h_client dcrh)) kmmMod
           (kmm_SetKMMModuleAsDesired (kmmHandler dcrh) devConfig)) (\<lambda>_. ret ()))"

definition dcrh_handleModuleVersionUpgrade ::
  "'w deviceConfigReconcilerHelper \<Rightarrow> DeviceConfig \<Rightarrow> ('w, unit) io" where
  "dcrh_handleModuleVersionUpgrade dcrh devConfig =
     (if DriverVersion (dc_Spec devConfig) = [] then ret ()
      else
        let up = upgradeHandler dcrh; ns = dc_Namespace devConfig; nm = dc_Name devConfig
        in bindE (wrapE (\<lambda>err. Errorf ''failed to get nodes targeted by the DeviceConfig %s/%s: %v''
               [ns, nm] (Some err))
             (GetTargetedNodes up devConfig)) (\<lambda>targetedNodes.
           let node = GetUpgradedNode up devConfig targetedNodes
           in bindE (wrapE (\<lambda>err. Errorf ''failed to finzalize upgraded nodes for DeviceConfig %s/%s: %v''
                [ns, nm] (Some err))
              (UncordonUpgradedNode up node)) (\<lambda>_.
           let node = GetNodeForUpgrade up devConfig targetedNodes
           in bindE (wrapE (\<lambda>err. case node of
                   None \<Rightarrow> Panic ''invalid memory address or nil pointer dereference''
                 | Some n \<Rightarrow> Errorf ''failed to cordon node %s for DeviceConfig %s/%s: %v''
                     [node_Name n, ns, nm] (Some err))
              (CordonNodeForUpgrade up devConfig node)) (\<lambda>node.
           bindE (KickoffUpgrade up devConfig node) (\<lambda>_. ret ())))))"

definition dcrh_handleCustomScheduler ::
  "library \<Rightarrow> 'w deviceConfigReconcilerHelper \<Rightarrow> DeviceConfig \<Rightarrow> ('w, unit) io" where
  "dcrh_handleCustomScheduler lib dcrh devConfig =
     (let csDep = \<lparr>dep_Meta = zeroMeta\<lparr>om_Namespace := dc_Namespace devConfig,
            om_Name := dc_Name devConfig @ ''-custom-scheduler''\<rparr>, dep_Spec = zeroDeploymentSpec\<rparr>
      in bindE (wrapE (\<lambda>err. Errorf ''failed to create/patch custom scheduler deployment: %v'' [] (Some err))
           (apiCreateOrPatch (Deployments (h_client dcrh)) csDep
             (\<lambda>dep. ownDeployment lib devConfig
                (cs_SetCustomSchedulerAsDesired (csHandler dcrh) dep devConfig)))) (\<lambda>_.
         let cseDep = \<lparr>dep_Meta = zeroMeta\<lparr>om_Namespace := dc_Namespace devConfig,
               om_Name := dc_Name devConfig @ ''-custom-scheduler-extension''\<rparr>,
               dep_Spec = zeroDeploymentSpec\<rparr>
         in bindE (apiCreateOrPatch (Deployments (h_client dcrh)) cseDep
              (\<lambda>dep. ownDeployment lib devConfig
                (cs_SetCustomSchedulerExtensionAsDesired (csHandler dcrh) dep devConfig))) (\<lambda>_. ret ())))"

definition dcrh_handleNodeMetrics ::
  "'w deviceConfigReconcilerHelper \<Rightarrow> DeviceConfig \<Rightarrow> ('w, unit) io" where
  "dcrh_handleNodeMetrics dcrh devConfig =
     (let ds = \<lparr>ds_Meta = zeroMeta\<lparr>om_Namespace := dc_Namespace devConfig,
            om_Name := dc_Name devConfig @ ''-node-metrics''\<rparr>, ds_Spec = zeroDaemonSetSpec\<rparr>
      in bindE (apiCreateOrPatch (DaemonSets (h_client dcrh)) ds
           (\<lambda>ds. nm_SetNodeMetricsAsDesired (nmHandler dcrh) (Some ds) devConfig)) (\<lambda>_. ret ()))"

definition helperAPI ::
  "library \<Rightarrow> 'w deviceConfigReconcilerHelper \<Rightarrow> 'w deviceConfigReconcilerHelperAPI" where
  "helperAPI lib dcrh = \<lparr>
     finalizeDeviceConfig = dcrh_finalizeDeviceConfig lib dcrh,
     setFinalizer = dcrh_setFinalizer lib dcrh,
     handleBuildConfigMap = dcrh_handleBuildConfigMap dcrh,
     handleKMMModule = dcrh_handleKMMModule dcrh,
     handleModuleVersionUpgrade = dcrh_handleModuleVersionUpgrade dcrh,
     handleCustomScheduler = dcrh_handleCustomScheduler lib dcrh,
     handleNodeMetrics = dcrh_handleNodeMetrics dcrh\<rparr>"

definition newDeviceConfigReconcilerHelper ::
  "'w client \<Rightarrow> KMMModuleAPI \<Rightarrow> ConfigMapAPI \<Rightarrow> 'w UpgradeAPI \<Rightarrow> CustomSchedulerAPI \<Rightarrow>
   NodeMetricsAPI \<Rightarrow> 'w deviceConfigReconcilerHelper" where
  "newDeviceConfigReconcilerHelper c kmm cm up cs nm = \<lparr>h_client = c, kmmHandler = kmm,
     cmHandler = cm, upgradeHandler = up, csHandler = cs, nmHandler = nm\<rparr>"

text \<open>The helper over the handlers of the repository, as \<open>main\<close> wires them.\<close>

definition operatorHelper ::
  "library \<Rightarrow> 'w client \<Rightarrow> string \<Rightarrow> bool \<Rightarrow> 'w deviceConfigReconcilerHelper" where
  "operatorHelper lib c buildDockerfile draSupport =
     newDeviceConfigReconcilerHelper c (NewKMMModule lib) (NewConfigMap buildDockerfile lib)
       (NewUpgradeAPI lib c) (NewCustomScheduler draSupport) (NewNodeMetrcis lib)"

lemmas operatorHelper_defs = operatorHelper_def newDeviceConfigReconcilerHelper_def NewKMMModule_def
  NewConfigMap_def NewCustomScheduler_def NewNodeMetrcis_def

definition operatorReconciler ::
  "library \<Rightarrow> 'w client \<Rightarrow> string \<Rightarrow> bool \<Rightarrow> 'w deviceConfigReconcilerHelperAPI" where
  "operatorReconciler lib c buildDockerfile draSupport =
     helperAPI lib (operatorHelper lib c buildDockerfile draSupport)"

section \<open>The upgrade handler follows the protocol\<close>

text \<open>The guard of a start: the node is waiting, nothing is in upgrade, its workloads are off.\<close>

definition mayStart :: "library \<Rightarrow> DeviceConfig \<Rightarrow> cluster \<Rightarrow> Node \<Rightarrow> bool" where
  "mayStart lib d c n \<longleftrightarrow> n \<in> targetedNodes d c \<and> getNodeUpgradeState lib n d = nodeBeforeUpgrade \<and>
     inUpgrade lib d c = {} \<and> (isNewNodeForUpgrade lib n d \<or> hasUpgradeTaint (node_Taints n))"

text \<open>The guard of a cordon, but for the taint itself.\<close>

definition mayPick :: "library \<Rightarrow> DeviceConfig \<Rightarrow> cluster \<Rightarrow> Node \<Rightarrow> bool" where
  "mayPick lib d c n \<longleftrightarrow> n \<in> targetedNodes d c \<and> getNodeUpgradeState lib n d = nodeBeforeUpgrade \<and>
     inUpgrade lib d c = {}"

text \<open>The effect of a successful call: at most one node uncordoned, then at most one started.\<close>

definition uncordoned :: "library \<Rightarrow> DeviceConfig \<Rightarrow> cluster \<Rightarrow> cluster \<Rightarrow> bool" where
  "uncordoned lib d c c' \<longleftrightarrow>
     (\<exists>n n'. n \<in> targetedNodes d c \<and> getNodeUpgradeState lib n d = nodeUpgraded \<and> isNodeTainted n \<and>
        rewrote n (mapGet (node_Labels n)) (filter (\<lambda>t. \<not> isUpgradeTaint t) (node_Taints n)) c c' n') \<or>
     (c' = c \<and> (\<forall>n \<in> targetedNodes d c. getNodeUpgradeState lib n d = nodeUpgraded \<longrightarrow> \<not> isNodeTainted n))"

definition started :: "library \<Rightarrow> DeviceConfig \<Rightarrow> cluster \<Rightarrow> cluster \<Rightarrow> bool" where
  "started lib d c c' \<longleftrightarrow>
     (\<exists>n n'. mayPick lib d c n \<and> rewrote n ((mapGet (node_Labels n))(versionLabel lib d \<mapsto> wanted d))
        (if isNewNodeForUpgrade lib n d \<or> hasUpgradeTaint (node_Taints n) then node_Taints n
         else node_Taints n @ [upgradeTaint]) c c' n') \<or>
     (c' = c \<and> (\<forall>n. \<not> mayPick lib d c n))"

lemma retaint_mayPick:
  assumes "rewrote n (mapGet (node_Labels n)) ts c c' n'" and "stored c n"
    and "getNodeUpgradeState lib n d = nodeUpgraded"
  shows "mayPick lib d c' m \<longleftrightarrow> mayPick lib d c m"
proof (cases "keyOf (node_Meta m) = keyOf (node_Meta n)")
  case True
  then have "m \<in> targetedNodes d c \<Longrightarrow> m = n" "m \<in> targetedNodes d c' \<Longrightarrow> m = n'"
    using assms(2) rewrote_stored [OF assms(1), of m] stored_unique [of c m n]
    by (auto dest: targetedNodes_stored)
  with assms(3) retaint_state(1) [OF assms(1)] show ?thesis by (auto simp: mayPick_def)
next
  case False
  with rewrote_stored [OF assms(1), of m] retaint_none [OF assms(1,2)] show ?thesis
    by (simp add: mayPick_def targetedNodes_def)
qed

lemma uncordoned_mayPick: "uncordoned lib d c c' \<Longrightarrow> mayPick lib d c' m \<longleftrightarrow> mayPick lib d c m"
  unfolding uncordoned_def using retaint_mayPick targetedNodes_stored by blast

context upgrade_api
begin

lemma wrote_cases:
  assumes "wrote cl n ls ts w r w'"
  obtains (lost) "cl w' = cl w" "isl r"
  | (written) n' where "rewrote n ls ts (cl w) (cl w') n'" "\<And>q. r = Inr q \<Longrightarrow> q = Some n'"
  using assms unfolding wrote_def by blast

lemma uncordon_run:
  assumes "ok" and "\<And>n. p = Some n \<Longrightarrow> n \<in> targetedNodes d (cl w) \<and>
      getNodeUpgradeState lib n d = nodeUpgraded \<and> isNodeTainted n"
    and "UncordonUpgradedNode up p w = (r, w1)"
  shows "did lib d [Uncordon] (cl w) (cl w1) \<and> (\<forall>m. mayPick lib d (cl w) m \<longrightarrow> mayPick lib d (cl w1) m)"
proof (cases p)
  case None
  with assms(3) uncordon_nil [of w] show ?thesis by simp
next
  case (Some n)
  note n = assms(2) [OF Some]
  have st: "stored (cl w) n" using n targetedNodes_stored by blast
  from uncordon [OF assms(1) st] assms(3) Some
  have "wrote cl n (mapGet (node_Labels n)) (filter (\<lambda>t. \<not> isUpgradeTaint t) (node_Taints n)) w r w1"
    by simp
  then show ?thesis
  proof (cases rule: wrote_cases)
    case lost
    then show ?thesis by simp
  next
    case (written n')
    have "mayPick lib d (cl w1) m \<longleftrightarrow> mayPick lib d (cl w) m" for m
      using retaint_mayPick [OF written(1) st] n by blast
    moreover have "rollout_step lib d Uncordon (cl w) (cl w1)"
      using n written(1) by (intro step_Uncordon) auto
    ultimately show ?thesis by (simp add: did_single)
  qed
qed

lemma cordon_run:
  assumes "ok" and "\<And>n. p = Some n \<Longrightarrow> mayPick lib d (cl w) n"
    and "CordonNodeForUpgrade up d p w = (r, w1)"
  shows "did lib d [Cordon] (cl w) (cl w1) \<and> (\<forall>n. r = Inr (Some n) \<longrightarrow> mayStart lib d (cl w1) n)"
proof (cases p)
  case None
  with assms(3) cordon_nil [of d w] show ?thesis by auto
next
  case (Some n)
  have n: "n \<in> targetedNodes d (cl w)" "getNodeUpgradeState lib n d = nodeBeforeUpgrade"
    "inUpgrade lib d (cl w) = {}" using assms(2) [OF Some] by (simp_all add: mayPick_def)
  have st: "stored (cl w) n" using n targetedNodes_stored by blast
  show ?thesis
  proof (cases "isNewNodeForUpgrade lib n d \<or> hasUpgradeTaint (node_Taints n)")
    case True
    with cordon_skip [OF True, of w] assms(3) Some have "w1 = w" "r = Inr (Some n)" by simp_all
    with n True show ?thesis by (auto simp: mayStart_def)
  next
    case False
    with cordon [OF assms(1) st, of d r w1] assms(3) Some
    have "wrote cl n (mapGet (node_Labels n)) (node_Taints n @ [upgradeTaint]) w r w1" by simp
    then show ?thesis
    proof (cases rule: wrote_cases)
      case lost
      then show ?thesis by (auto simp: isl_def)
    next
      case (written n')
      have "rollout_step lib d Cordon (cl w) (cl w1)"
        using n written(1) False by (intro step_Cordon) auto
      moreover have "mayStart lib d (cl w1) n'"
        using rewrote_new [OF written(1)] retaint_state [OF written(1)] retaint_none [OF written(1) st]
          rewrote_taints [OF written(1)] n
        by (simp add: mayStart_def targetedNodes_def hasUpgradeTaint_iff)
      ultimately show ?thesis using written(2) by (auto simp: did_single)
    qed
  qed
qed

lemma kickoff_run:
  assumes "ok" and "\<And>n. p = Some n \<Longrightarrow> mayStart lib d (cl w) n"
    and "KickoffUpgrade up d p w = (r, w1)"
  shows "did lib d [Start] (cl w) (cl w1)"
proof (cases p)
  case None
  with assms(3) kickoff_nil [of d w] show ?thesis by simp
next
  case (Some n)
  note n = assms(2) [OF Some, unfolded mayStart_def]
  have st: "stored (cl w) n" using n targetedNodes_stored by blast
  from kickoff [OF assms(1) st] assms(3) Some
  have "wrote cl n ((mapGet (node_Labels n))(versionLabel lib d \<mapsto> wanted d)) (node_Taints n) w r w1"
    by simp
  then show ?thesis
  proof (cases rule: wrote_cases)
    case lost
    then show ?thesis by simp
  next
    case (written n')
    then show ?thesis using n by (intro did_single step_Start) auto
  qed
qed

text \<open>The three writes as triples, from a cluster \<open>c0\<close> on.\<close>

lemma targeted_triple:
  assumes "ok"
  shows "triple (\<lambda>w. cl w = c0) (GetTargetedNodes up d)
    (\<lambda>ns w. cl w = c0 \<and> set ns = targetedNodes d c0) (\<lambda>e w. cl w = c0)"
  using targeted [OF assms] targeted_set [OF assms] by (intro tripleI) auto

lemma uncordon_triple:
  assumes "ok" and "set ns = targetedNodes d c0"
  shows "triple (\<lambda>w. cl w = c0) (UncordonUpgradedNode up (GetUpgradedNode up d ns))
    (\<lambda>_ w. did lib d [Uncordon] c0 (cl w) \<and>
       (\<forall>n. GetNodeForUpgrade up d ns = Some n \<longrightarrow> mayPick lib d (cl w) n))
    (\<lambda>e w. did lib d [Uncordon] c0 (cl w))"
proof -
  have n: "n \<in> targetedNodes d c0 \<and> getNodeUpgradeState lib n d = nodeUpgraded \<and> isNodeTainted n"
    if "GetUpgradedNode up d ns = Some n" for n
    using upgraded [OF that] assms(2) by simp
  have m: "mayPick lib d c0 n" if "GetNodeForUpgrade up d ns = Some n" for n
    using pick [OF that] assms(2) by (force simp: mayPick_def inUpgrade_def)
  show ?thesis
    using uncordon_run [OF assms(1)] n m by (intro tripleI) blast+
qed

lemma cordon_triple:
  assumes "ok"
  shows "triple (\<lambda>w. did lib d [Uncordon] c0 (cl w) \<and> (\<forall>n. p = Some n \<longrightarrow> mayPick lib d (cl w) n))
    (CordonNodeForUpgrade up d p)
    (\<lambda>q w. did lib d [Uncordon, Cordon] c0 (cl w) \<and> (\<forall>n. q = Some n \<longrightarrow> mayStart lib d (cl w) n))
    (\<lambda>e w. did lib d [Uncordon, Cordon] c0 (cl w))"
proof (rule tripleI; elim conjE)
  fix w q w'
  assume *: "did lib d [Uncordon] c0 (cl w)" "\<forall>n. p = Some n \<longrightarrow> mayPick lib d (cl w) n"
    "CordonNodeForUpgrade up d p w = (Inr q, w')"
  then show "did lib d [Uncordon, Cordon] c0 (cl w') \<and> (\<forall>n. q = Some n \<longrightarrow> mayStart lib d (cl w') n)"
    using cordon_run [OF assms _ *(3)] did_append [OF *(1)] by simp
next
  fix w e w'
  assume *: "did lib d [Uncordon] c0 (cl w)" "\<forall>n. p = Some n \<longrightarrow> mayPick lib d (cl w) n"
    "CordonNodeForUpgrade up d p w = (Inl e, w')"
  then show "did lib d [Uncordon, Cordon] c0 (cl w')"
    using cordon_run [OF assms _ *(3)] did_append [OF *(1)] by simp
qed

lemma kickoff_triple:
  assumes "ok"
  shows "triple (\<lambda>w. did lib d [Uncordon, Cordon] c0 (cl w) \<and> (\<forall>n. p = Some n \<longrightarrow> mayStart lib d (cl w) n))
    (KickoffUpgrade up d p) (\<lambda>_ w. did lib d [Uncordon, Cordon, Start] c0 (cl w))
    (\<lambda>e w. did lib d [Uncordon, Cordon, Start] c0 (cl w))"
  using kickoff_run [OF assms] did_append [of lib d "[Uncordon, Cordon]" c0 _ "[Start]"]
  by (intro tripleI) fastforce+

lemma did_longer:
  "did lib d [Uncordon] c c' \<Longrightarrow> did lib d [Uncordon, Cordon, Start] c c'"
  "did lib d [Uncordon, Cordon] c c' \<Longrightarrow> did lib d [Uncordon, Cordon, Start] c c'"
  by (rule did_mono, assumption, simp)+

text \<open>
  The whole handler, on every outcome: it uncordons, then cordons, then starts an upgrade,
  each at most once and in this order, under the guards of the protocol.
\<close>

lemma upgrade_triple:
  assumes "ok" and "upgradeHandler dcrh = up"
  shows "triple (\<lambda>w. cl w = c0) (dcrh_handleModuleVersionUpgrade dcrh d)
    (\<lambda>_ w. did lib d [Uncordon, Cordon, Start] c0 (cl w))
    (\<lambda>e w. did lib d [Uncordon, Cordon, Start] c0 (cl w))"
proof (cases "DriverVersion (dc_Spec d) = []")
  case True
  then show ?thesis by (auto simp: dcrh_handleModuleVersionUpgrade_def intro: triple_ret)
next
  case False
  let ?D = "\<lambda>w. did lib d [Uncordon, Cordon, Start] c0 (cl w)"
  have last: "triple (\<lambda>w. did lib d [Uncordon, Cordon] c0 (cl w) \<and> (\<forall>n. q = Some n \<longrightarrow> mayStart lib d (cl w) n))
      (bindE (KickoffUpgrade up d q) (\<lambda>_. ret ())) (\<lambda>_. ?D) (\<lambda>_. ?D)" for q
    by (rule triple_bind [OF kickoff_triple [OF assms(1)]]) (simp add: triple_ret)
  have rest: "triple (\<lambda>w. cl w = c0 \<and> set ns = targetedNodes d c0)
      (bindE (wrapE g (UncordonUpgradedNode up (GetUpgradedNode up d ns)))
        (\<lambda>_. bindE (wrapE h (CordonNodeForUpgrade up d (GetNodeForUpgrade up d ns)))
          (\<lambda>q. bindE (KickoffUpgrade up d q) (\<lambda>_. ret ())))) (\<lambda>_. ?D) (\<lambda>_. ?D)" for ns g h
  proof (cases "set ns = targetedNodes d c0")
    case True
    show ?thesis
      by (rule triple_bind [OF triple_wrap triple_bind [OF triple_wrap last]],
          rule triple_conseq [OF uncordon_triple [OF assms(1) True]],
          simp, assumption, erule did_longer,
          rule triple_conseq [OF cordon_triple [OF assms(1)]], assumption, assumption, erule did_longer)
  next
    case False
    then show ?thesis by (simp add: triple_def)
  qed
  show ?thesis unfolding dcrh_handleModuleVersionUpgrade_def Let_def assms(2) if_not_P [OF False]
    by (rule triple_bind [OF triple_wrap rest], rule triple_conseq [OF targeted_triple [OF assms(1)]]) auto
qed

lemma upgrade_did:
  assumes "ok" and "upgradeHandler dcrh = up"
    and "dcrh_handleModuleVersionUpgrade dcrh d w = (r, w')"
  shows "did lib d [Uncordon, Cordon, Start] (cl w) (cl w')"
  using triple_Inr [OF upgrade_triple [OF assms(1,2)] refl] triple_Inl [OF upgrade_triple [OF assms(1,2)] refl]
    assms(3) by (cases r) auto

text \<open>A call that succeeds did not lose a write, so its effect is known exactly.\<close>

lemma uncordon_success:
  assumes "ok" and "set ns = targetedNodes d (cl w)"
    and "UncordonUpgradedNode up (GetUpgradedNode up d ns) w = (Inr p, w')"
  shows "uncordoned lib d (cl w) (cl w')"
proof (cases "GetUpgradedNode up d ns")
  case None
  with assms(3) uncordon_nil [of w] upgraded_none [OF None] assms(2) show ?thesis
    by (auto simp: uncordoned_def)
next
  case (Some n)
  note n = upgraded [OF Some, unfolded assms(2)]
  then have "stored (cl w) n" using targetedNodes_stored by blast
  from uncordon [OF assms(1) this] assms(3) Some n show ?thesis by (auto simp: uncordoned_def wrote_def)
qed

lemma start_success:
  assumes "ok" and "mayPick lib d (cl w) n"
    and "CordonNodeForUpgrade up d (Some n) w = (Inr q, w1)" and "KickoffUpgrade up d q w1 = (Inr q', w')"
  shows "started lib d (cl w) (cl w')"
proof -
  have st: "stored (cl w) n" using assms(2) unfolding mayPick_def by (blast intro: targetedNodes_stored)
  show ?thesis
  proof (cases "isNewNodeForUpgrade lib n d \<or> hasUpgradeTaint (node_Taints n)")
    case True
    then have "q = Some n" "w1 = w" using assms(3) cordon_skip [OF True, of w] by simp_all
    with kickoff [OF assms(1), of w1 n d] assms(2,4) st True show ?thesis
      by (auto simp: started_def wrote_def)
  next
    case False
    with cordon [OF assms(1) st] assms(3) obtain m where m: "q = Some m"
      "rewrote n (mapGet (node_Labels n)) (node_Taints n @ [upgradeTaint]) (cl w) (cl w1) m"
      by (fastforce simp: wrote_def)
    have lt: "mapGet (node_Labels m) = mapGet (node_Labels n)" "node_Taints m = node_Taints n @ [upgradeTaint]"
      using rewrote_labels [OF m(2)] rewrote_taints [OF m(2)] by (auto simp: fun_eq_iff)
    from kickoff [OF assms(1) rewrote_new [OF m(2)]] assms(4) m(1) obtain n' where
      "rewrote m ((mapGet (node_Labels m))(versionLabel lib d \<mapsto> wanted d)) (node_Taints m) (cl w1) (cl w') n'"
      by (fastforce simp: wrote_def)
    from rewrote_trans [OF m(2) this] assms(2) False show ?thesis by (auto simp: started_def lt)
  qed
qed

lemma upgrade_success:
  assumes "ok" and "upgradeHandler dcrh = up" and "wanted d \<noteq> []"
    and "dcrh_handleModuleVersionUpgrade dcrh d w = (Inr (), w')"
  shows "\<exists>c1. uncordoned lib d (cl w) c1 \<and> started lib d c1 (cl w')"
proof -
  from assms(2-4) obtain ns p q q' w1 w2 w3 where
    g: "GetTargetedNodes up d w = (Inr ns, w1)" and
    u: "UncordonUpgradedNode up (GetUpgradedNode up d ns) w1 = (Inr p, w2)" and
    co: "CordonNodeForUpgrade up d (GetNodeForUpgrade up d ns) w2 = (Inr q, w3)" and
    k: "KickoffUpgrade up d q w3 = (Inr q', w')"
    by (auto simp: dcrh_handleModuleVersionUpgrade_def Let_def io_simps)
  have c1: "cl w1 = cl w" and ns: "set ns = targetedNodes d (cl w)"
    using targeted [OF assms(1) g] targeted_set [OF assms(1) g] by simp_all
  have un: "uncordoned lib d (cl w) (cl w2)" using uncordon_success [OF assms(1) _ u] ns c1 by simp
  have "started lib d (cl w2) (cl w')"
  proof (cases "GetNodeForUpgrade up d ns")
    case None
    then have "q = None" "w3 = w2" using co cordon_nil [of d w2] by simp_all
    then have "cl w' = cl w2" using k kickoff_nil [of d w3] by simp
    moreover have "\<not> mayPick lib d (cl w) n" for n
      using pick_none [OF None] ns by (auto simp: mayPick_def inUpgrade_def)
    ultimately show ?thesis using uncordoned_mayPick [OF un] by (auto simp: started_def)
  next
    case (Some n)
    have "mayPick lib d (cl w) n"
      using pick [OF Some] ns by (force simp: mayPick_def inUpgrade_def)
    then have "mayPick lib d (cl w2) n" using uncordoned_mayPick [OF un] by blast
    then show ?thesis using start_success [OF assms(1) _ _ k] co Some by simp
  qed
  with un show ?thesis by blast
qed

end

end
