(* ===== verification/Example.thy ===== *)
theory Example
  imports Controller
begin

text \<open>
  Runs of the reconciler on the server in memory, starting from a world that holds a
  DeviceConfig and some nodes only: every handler creates its object, and the upgrade
  handler sees the nodes. The witnesses of the reconciler's properties use them.
\<close>

lemma newHelper_simps [simp]:
  "h_client (operatorHelper lib c f b) = c"
  "upgradeHandler (operatorHelper lib c f b) = NewUpgradeAPI lib c"
  "kmm_SetKMMModuleAsDesired (kmmHandler (operatorHelper lib c f b)) = SetKMMModuleAsDesired lib"
  "cm_SetBuildConfigMapAsDesired (cmHandler (operatorHelper lib c f b)) =
     SetBuildConfigMapAsDesired f lib"
  "cs_SetCustomSchedulerAsDesired (csHandler (operatorHelper lib c f b)) =
     SetCustomSchedulerAsDesired b"
  "cs_SetCustomSchedulerExtensionAsDesired (csHandler (operatorHelper lib c f b)) =
     SetCustomSchedulerExtensionAsDesired"
  "nm_SetNodeMetricsAsDesired (nmHandler (operatorHelper lib c f b)) = SetNodeMetricsAsDesired lib"
  by (simp_all add: operatorHelper_defs)

lemma NewReconciler_simps [simp]:
  "finalizeDeviceConfig (operatorReconciler lib c f b) =
     dcrh_finalizeDeviceConfig lib (operatorHelper lib c f b)"
  "setFinalizer (operatorReconciler lib c f b) =
     dcrh_setFinalizer lib (operatorHelper lib c f b)"
  "handleBuildConfigMap (operatorReconciler lib c f b) =
     dcrh_handleBuildConfigMap (operatorHelper lib c f b)"
  "handleKMMModule (operatorReconciler lib c f b) =
     dcrh_handleKMMModule (operatorHelper lib c f b)"
  "handleModuleVersionUpgrade (operatorReconciler lib c f b) =
     dcrh_handleModuleVersionUpgrade (operatorHelper lib c f b)"
  "handleCustomScheduler (operatorReconciler lib c f b) =
     dcrh_handleCustomScheduler lib (operatorHelper lib c f b)"
  "handleNodeMetrics (operatorReconciler lib c f b) =
     dcrh_handleNodeMetrics (operatorHelper lib c f b)"
  by (simp_all add: operatorReconciler_def helperAPI_def)

abbreviation exHelper :: "mem deviceConfigReconcilerHelper" where
  "exHelper \<equiv> operatorHelper memLib memClient ''FROM'' False"

lemma memUpsert_fresh:
  assumes "lookup meta (field w) (keyOf (meta x)) = None" and "f x = Inr y"
    and "keyOf (meta y) = keyOf (meta x)"
  shows "memUpsert meta field store x f w = (Inr y, store (putObj meta y (field w)) w)"
  using assms by (simp add: memUpsert_def)

lemma memLib_own: "om_OwnerReferences m = [] \<Longrightarrow>
    setControllerReference memLib d m = Inr (m\<lparr>om_OwnerReferences := [controllerOf d]\<rparr>)"
  by (simp add: memLib_def)

lemma ex_build:
  "m_ConfigMaps w = [] \<Longrightarrow> \<exists>x. dcrh_handleBuildConfigMap exHelper d w = (Inr (), w\<lparr>m_ConfigMaps := [x]\<rparr>)"
  by (simp add: dcrh_handleBuildConfigMap_def Let_def bindE_def memClient_simps memUpsert_fresh
      SetBuildConfigMap_eq memLib_own zeroMeta_def keyOf_def putObj_def removeKey_def)
    (rule exI, rule refl)

lemma ex_kmm:
  assumes "m_Modules w = []"
  shows "\<exists>x. dcrh_handleKMMModule exHelper d w = (Inr (), w\<lparr>m_Modules := [x]\<rparr>)"
proof -
  let ?x = "\<lparr>mod_Meta = zeroMeta\<lparr>om_Namespace := dc_Namespace d, om_Name := dc_Name d\<rparr>, mod_Spec = zeroModuleSpec\<rparr>"
  obtain y where y: "SetKMMModuleAsDesired memLib d ?x = Inr y" "mod_Meta y =
      zeroMeta\<lparr>om_Namespace := dc_Namespace d, om_Name := dc_Name d, om_OwnerReferences := [controllerOf d]\<rparr>"
    by (simp add: kmm_defs Let_def memLib_own zeroMeta_def)
  have "apiCreateOrPatch (Modules memClient) ?x (SetKMMModuleAsDesired memLib d) w =
      (Inr y, w\<lparr>m_Modules := [y]\<rparr>)"
    using assms y by (simp add: memClient_simps memUpsert_fresh keyOf_def putObj_def removeKey_def)
  then show ?thesis by (auto simp: dcrh_handleKMMModule_def Let_def bindE_def)
qed

lemma ex_scheduler:
  assumes "m_Deployments w = []"
  shows "\<exists>xs. dcrh_handleCustomScheduler memLib exHelper d w = (Inr (), w\<lparr>m_Deployments := xs\<rparr>)"
  using assms
  by (simp add: dcrh_handleCustomScheduler_def Let_def bindE_def wrapE_def tryE_def memClient_simps memUpsert_fresh
      ownDeployment_Inr SetCustomScheduler_spec_only memLib_own zeroMeta_def keyOf_def putObj_def removeKey_def
      ownDeployment_def)
    (rule exI, rule refl)

lemma ex_metrics:
  "m_DaemonSets w = [] \<Longrightarrow> \<exists>x. dcrh_handleNodeMetrics exHelper d w = (Inr (), w\<lparr>m_DaemonSets := [x]\<rparr>)"
  by (simp add: dcrh_handleNodeMetrics_def Let_def bindE_def memClient_simps memUpsert_fresh
      SetNodeMetricsAsDesired_def memLib_own zeroMeta_def keyOf_def putObj_def removeKey_def)
    (rule exI, rule refl)

text \<open>A whole reconciliation: the node list is the upgrade handler's work.\<close>

lemma ex_Reconcile:
  fixes v :: string and ns :: "Node list"
  defines "d \<equiv> setFinalizers [deviceConfigFinalizer] (exDC v)"
  assumes "\<And>w. m_Nodes w = ns \<Longrightarrow>
    dcrh_handleModuleVersionUpgrade exHelper d w = (Inr (), w\<lparr>m_Nodes := ns'\<rparr>)"
  shows "\<exists>w'. Reconcile (operatorReconciler memLib memClient ''FROM'' False) (exDC v) (exWorld ns [exDC v]) =
      (Inr zeroResult, w') \<and> m_Nodes w' = ns' \<and> m_DeviceConfigs w' = [d]"
proof -
  have fin: "dcrh_setFinalizer memLib exHelper (exDC v) (exWorld ns [exDC v]) = (Inr d, exWorld ns [d])"
    by (simp add: dcrh_setFinalizer_def memClient_simps memPatchDC_def setFinalizers_def Let_def memLib_def
        dcMerged_def mergedList_def putObj_def removeKey_def exWorld_def d_def)
  have dra: "DRADriverImage (dc_Spec d) = []" by (simp add: d_def setFinalizers_def)
  define w0 where "w0 = exWorld ns [d]"
  have "m_ConfigMaps w0 = []" by (simp add: w0_def)
  from ex_build [OF this, of d] obtain x1 where
    1: "dcrh_handleBuildConfigMap exHelper d w0 = (Inr (), w0\<lparr>m_ConfigMaps := [x1]\<rparr>)" by blast
  define w1 where "w1 = w0\<lparr>m_ConfigMaps := [x1]\<rparr>"
  have "m_Modules w1 = []" by (simp add: w0_def w1_def)
  from ex_kmm [OF this, of d] obtain x2 where
    2: "dcrh_handleKMMModule exHelper d w1 = (Inr (), w1\<lparr>m_Modules := [x2]\<rparr>)" by blast
  define w2 where "w2 = w1\<lparr>m_Modules := [x2]\<rparr>"
  have "m_Nodes w2 = ns" by (simp add: w0_def w1_def w2_def)
  from assms(2) [OF this] have
    3: "dcrh_handleModuleVersionUpgrade exHelper d w2 = (Inr (), w2\<lparr>m_Nodes := ns'\<rparr>)" .
  define w3 where "w3 = w2\<lparr>m_Nodes := ns'\<rparr>"
  have "m_Deployments w3 = []" by (simp add: w0_def w1_def w2_def w3_def)
  from ex_scheduler [OF this, of d] obtain x4 where
    4: "dcrh_handleCustomScheduler memLib exHelper d w3 = (Inr (), w3\<lparr>m_Deployments := x4\<rparr>)" by blast
  define w4 where "w4 = w3\<lparr>m_Deployments := x4\<rparr>"
  have "m_DaemonSets w4 = []" by (simp add: w0_def w1_def w2_def w3_def w4_def)
  from ex_metrics [OF this, of d] obtain x5 where
    5: "dcrh_handleNodeMetrics exHelper d w4 = (Inr (), w4\<lparr>m_DaemonSets := [x5]\<rparr>)" by blast
  note steps = fin [folded w0_def] 1 [folded w1_def] 2 [folded w2_def] 3 [folded w3_def] 4 [folded w4_def] 5
  have "Reconcile (operatorReconciler memLib memClient ''FROM'' False) (exDC v) (exWorld ns [exDC v]) =
      (Inr zeroResult, w4\<lparr>m_DaemonSets := [x5]\<rparr>)"
    by (simp add: Reconcile_def bindE_def wrapE_def tryE_def steps dra)
  then show ?thesis by (simp add: w0_def w1_def w2_def w3_def w4_def)
qed

text \<open>Two fresh nodes and version 2: the second one in the list is started.\<close>

abbreviation exFresh :: "string \<Rightarrow> Node" where
  "exFresh nm \<equiv> exNode nm [''neuron'' \<mapsto> ''true''] []"

abbreviation exStarted :: "string \<Rightarrow> Node" where
  "exStarted nm \<equiv> exNode nm [''neuron'' \<mapsto> ''true'', exVersionLabel \<mapsto> ''2''] []"

lemma ex_upgrade:
  assumes "m_Nodes w = [exFresh ''a'', exFresh ''b'']"
  shows "dcrh_handleModuleVersionUpgrade exHelper (setFinalizers [deviceConfigFinalizer] (exDC ''2'')) w =
    (Inr (), w\<lparr>m_Nodes := [exStarted ''b'', exFresh ''a'']\<rparr>)"
proof -
  have d: "wanted (setFinalizers fs (exDC v)) = v" "Selector (dc_Spec (setFinalizers fs (exDC v))) = Some [''neuron'' \<mapsto> ''true'']"
    "dc_Name (setFinalizers fs (exDC v)) = ''neuron''" "dc_Namespace (setFinalizers fs (exDC v)) = ''ns''" for fs v
    by (simp_all add: setFinalizers_def)
  have b: "isNewNodeForUpgrade memLib (exFresh nm) (setFinalizers fs (exDC v))"
    "getNodeUpgradeState memLib (exFresh nm) (setFinalizers fs (exDC v)) = nodeBeforeUpgrade" for nm fs v
    by (simp_all add: isNewNodeForUpgrade_def getNodeUpgradeState_def d)
  show ?thesis
    by (simp add: dcrh_handleModuleVersionUpgrade_def bindE_def wrapE_def tryE_def Let_def d b assms
        upgradeImpl_GetTargetedNodes_def upgradeImpl_GetNodeForUpgrade_def memClient_simps memList_def listing_def
        upgradeImpl_UncordonUpgradedNode_def upgradeImpl_CordonNodeForUpgrade_def upgradeImpl_KickoffUpgrade_def
        memPatchNode_def putObj_def removeKey_def)
       (simp add: exNode_def nodeSetLabels_def mergedLabel_def mergedList_def fun_eq_iff)
qed

end
