(* ===== verification/Liveness.thy ===== *)
theory Liveness
  imports Example
begin

text \<open>
  The rolling upgrade ends: every successful call of the handler that finds a waiting node
  and none in upgrade starts one, and when KMM answers between the calls all targeted
  nodes are upgraded and uncordoned after a number of rounds that the first state bounds.
\<close>

section \<open>Counting nodes\<close>

definition keysOf :: "(Node \<Rightarrow> bool) \<Rightarrow> cluster \<Rightarrow> nsname set" where
  "keysOf P c = (\<lambda>n. keyOf (node_Meta n)) ` {n. stored c n \<and> P n}"

definition isWaiting :: "library \<Rightarrow> DeviceConfig \<Rightarrow> Node \<Rightarrow> bool" where
  "isWaiting lib d n \<longleftrightarrow> selects (Selector (dc_Spec d)) (node_Labels n) \<and>
     getNodeUpgradeState lib n d = nodeBeforeUpgrade"

definition isTaintedDone :: "library \<Rightarrow> DeviceConfig \<Rightarrow> Node \<Rightarrow> bool" where
  "isTaintedDone lib d n \<longleftrightarrow> selects (Selector (dc_Spec d)) (node_Labels n) \<and>
     getNodeUpgradeState lib n d = nodeUpgraded \<and> isNodeTainted n"

lemma mem_keysOf: "stored c n \<Longrightarrow> keyOf (node_Meta n) \<in> keysOf P c \<longleftrightarrow> P n"
  unfolding keysOf_def by (auto dest: stored_unique)

lemma keysOf_iff: "k \<in> keysOf P c \<longleftrightarrow> (\<exists>n. stored c n \<and> P n \<and> keyOf (node_Meta n) = k)"
  by (auto simp: keysOf_def)

lemma keysOf_empty: "keysOf P c = {} \<longleftrightarrow> (\<forall>n. stored c n \<longrightarrow> \<not> P n)"
  by (auto simp: keysOf_def)

lemma keysOf_rewrote:
  assumes "rewrote n ls ts c c' n'" and "stored c n"
  shows "keysOf P c' = (if P n' then insert (keyOf (node_Meta n)) (keysOf P c)
     else keysOf P c - {keyOf (node_Meta n)})"
proof -
  have k: "keyOf (node_Meta n') = keyOf (node_Meta n)" by (rule rewrote_key [OF assms(1)])
  have "k \<in> keysOf P c' \<longleftrightarrow> (if k = keyOf (node_Meta n) then P n' else k \<in> keysOf P c)" for k
  proof (cases "k = keyOf (node_Meta n)")
    case True
    then show ?thesis using mem_keysOf [OF rewrote_new [OF assms(1)], of P] unfolding k by simp
  next
    case False
    have "(stored c' m \<and> P m \<and> keyOf (node_Meta m) = k) = (stored c m \<and> P m \<and> keyOf (node_Meta m) = k)" for m
    proof (cases "keyOf (node_Meta m) = k")
      case True
      with False have "keyOf (node_Meta m) \<noteq> keyOf (node_Meta n)" by simp
      then have "stored c' m = stored c m" using rewrote_stored [OF assms(1), of m] by simp
      then show ?thesis by simp
    qed simp
    with False show ?thesis by (simp add: keysOf_iff)
  qed
  then show ?thesis by (intro set_eqI) (cases "P n'", simp_all)
qed

text \<open>
  The rollout's own labels are not part of the selector, and nobody else uses the key of
  the upgrade taint (isNodeTainted looks at the key alone, UncordonUpgradedNode removes
  key and effect).
\<close>

definition plainSelector :: "library \<Rightarrow> DeviceConfig \<Rightarrow> bool" where
  "plainSelector lib d \<longleftrightarrow> mapGet (Selector (dc_Spec d)) (versionLabel lib d) = None \<and>
     mapGet (Selector (dc_Spec d)) (readyLabel lib d) = None"

definition ownTaint :: "Node \<Rightarrow> bool" where
  "ownTaint n \<longleftrightarrow> (\<forall>t \<in> set (node_Taints n). taint_Key t = UpgradeTaintTolerationKey \<longrightarrow> isUpgradeTaint t)"

lemma selects_plain:
  "plainSelector lib d \<Longrightarrow> (\<And>k. k \<noteq> versionLabel lib d \<Longrightarrow> k \<noteq> readyLabel lib d \<Longrightarrow> mapGet ls' k = mapGet ls k) \<Longrightarrow>
   selects (Selector (dc_Spec d)) ls' = selects (Selector (dc_Spec d)) ls"
  unfolding plainSelector_def selects_def by (metis option.distinct(1))

definition calm :: "library \<Rightarrow> DeviceConfig \<Rightarrow> cluster \<Rightarrow> bool" where
  "calm lib d c \<longleftrightarrow> inUpgrade lib d c = {} \<and> (\<forall>n. stored c n \<longrightarrow> ownTaint n) \<and>
     finite (dom (cl_Nodes c))"

definition todo :: "library \<Rightarrow> DeviceConfig \<Rightarrow> cluster \<Rightarrow> nat" where
  "todo lib d c = 2 * card (keysOf (isWaiting lib d) c) + card (keysOf (isTaintedDone lib d) c)"

lemma finite_keysOf: "finite (dom (cl_Nodes c)) \<Longrightarrow> finite (keysOf P c)"
  by (erule rev_finite_subset) (auto simp: keysOf_def stored_def dom_def)

section \<open>One call\<close>

lemma uncordoned_count:
  assumes "uncordoned lib d c c'" and "calm lib d c"
  shows "calm lib d c'" and "keysOf (isWaiting lib d) c' = keysOf (isWaiting lib d) c"
    and "card (keysOf (isTaintedDone lib d) c') = card (keysOf (isTaintedDone lib d) c) - 1"
proof -
  have "calm lib d c' \<and> keysOf (isWaiting lib d) c' = keysOf (isWaiting lib d) c \<and>
      card (keysOf (isTaintedDone lib d) c') = card (keysOf (isTaintedDone lib d) c) - 1"
    using assms(1) unfolding uncordoned_def
  proof (elim disjE exE conjE)
    fix n n'
    assume n: "n \<in> targetedNodes d c" "getNodeUpgradeState lib n d = nodeUpgraded" "isNodeTainted n"
      and r: "rewrote n (mapGet (node_Labels n)) (filter (\<lambda>t. \<not> isUpgradeTaint t) (node_Taints n)) c c' n'"
    note st = targetedNodes_stored [OF n(1)]
    have own: "\<not> isNodeTainted n'" "ownTaint n'"
      using assms(2) st by (auto simp: calm_def ownTaint_def isNodeTainted_iff rewrote_taints [OF r])
    have calm: "calm lib d c'"
      using assms(2) retaint_none [OF r st] own rewrote_stored [OF r] rewrote_Nodes [OF r]
      by (auto simp: calm_def)
    have "\<not> isWaiting lib d n" "\<not> isWaiting lib d n'" "\<not> isTaintedDone lib d n'" "isTaintedDone lib d n"
      using n own retaint_state [OF r] by (auto simp: isWaiting_def isTaintedDone_def targetedNodes_def)
    with calm mem_keysOf [OF st] keysOf_rewrote [OF r st] finite_keysOf assms(2)
    show ?thesis by (auto simp: calm_def)
  next
    assume "c' = c" and none: "\<forall>n \<in> targetedNodes d c. getNodeUpgradeState lib n d = nodeUpgraded \<longrightarrow> \<not> isNodeTainted n"
    then have "keysOf (isTaintedDone lib d) c = {}"
      by (auto simp: keysOf_empty isTaintedDone_def targetedNodes_def)
    with \<open>c' = c\<close> assms(2) show ?thesis by simp
  qed
  then show "calm lib d c'" and "keysOf (isWaiting lib d) c' = keysOf (isWaiting lib d) c"
    and "card (keysOf (isTaintedDone lib d) c') = card (keysOf (isTaintedDone lib d) c) - 1"
    by simp_all
qed

lemma ownTaint_append: "ownTaint n \<Longrightarrow> node_Taints n' \<in> {node_Taints n, node_Taints n @ [upgradeTaint]} \<Longrightarrow> ownTaint n'"
  by (auto simp: ownTaint_def)

lemma started_count:
  assumes "started lib d c c'" and "calm lib d c" and "plainSelector lib d"
  shows "(\<forall>n. stored c' n \<longrightarrow> ownTaint n) \<and> finite (dom (cl_Nodes c')) \<and>
    ((c' = c \<and> keysOf (isWaiting lib d) c = {}) \<or>
     (\<exists>k. card (keysOf (isWaiting lib d) c) = Suc (card (keysOf (isWaiting lib d) c')) \<and>
        keysOf (isTaintedDone lib d) c' \<subseteq> insert k (keysOf (isTaintedDone lib d) c) \<and>
        (\<forall>m \<in> inUpgrade lib d c'. keyOf (node_Meta m) = k)))"
  using assms(1) unfolding started_def
proof (elim disjE exE conjE)
  fix n n' :: Node
  let ?k = "keyOf (node_Meta n)"
  assume pick: "mayPick lib d c n" and r: "rewrote n ((mapGet (node_Labels n))(versionLabel lib d \<mapsto> wanted d))
    (if isNewNodeForUpgrade lib n d \<or> hasUpgradeTaint (node_Taints n) then node_Taints n
     else node_Taints n @ [upgradeTaint]) c c' n'"
  have st: "stored c n" using pick unfolding mayPick_def by (blast intro: targetedNodes_stored)
  have "ownTaint n" using assms(2) st by (simp add: calm_def)
  then have own: "ownTaint n'" by (rule ownTaint_append) (simp add: rewrote_taints [OF r])
  have owns: "ownTaint m" if "stored c' m" for m
    using that own assms(2) rewrote_stored [OF r, of m] by (simp add: calm_def split: if_splits)
  have fin: "finite (dom (cl_Nodes c'))" using assms(2) by (simp add: calm_def rewrote_Nodes [OF r])
  have "isWaiting lib d n" using pick by (simp add: mayPick_def isWaiting_def targetedNodes_def)
  moreover have "\<not> isWaiting lib d n'"
    by (simp add: isWaiting_def state_iff rewrote_labels [OF r])
  ultimately have "keysOf (isWaiting lib d) c' = keysOf (isWaiting lib d) c - {?k}"
    and "?k \<in> keysOf (isWaiting lib d) c"
    using keysOf_rewrote [OF r st, of "isWaiting lib d"] mem_keysOf [OF st, of "isWaiting lib d"] by simp_all
  moreover have "finite (keysOf (isWaiting lib d) c)" using finite_keysOf assms(2) by (simp add: calm_def)
  ultimately have "card (keysOf (isWaiting lib d) c) = Suc (card (keysOf (isWaiting lib d) c'))"
    using card.remove [of "keysOf (isWaiting lib d) c" ?k] by simp
  moreover have "keysOf (isTaintedDone lib d) c' \<subseteq> insert ?k (keysOf (isTaintedDone lib d) c)"
    using keysOf_rewrote [OF r st, of "isTaintedDone lib d"] by auto
  moreover have "keyOf (node_Meta m) = ?k" if "m \<in> inUpgrade lib d c'" for m
  proof (rule ccontr)
    assume "keyOf (node_Meta m) \<noteq> ?k"
    then have "m \<in> inUpgrade lib d c" using that rewrote_stored [OF r, of m] by (simp add: mem_inUpgrade)
    with assms(2) show False by (simp add: calm_def)
  qed
  ultimately show ?thesis using owns fin by blast
next
  assume "c' = c" and "\<forall>n. \<not> mayPick lib d c n"
  with assms(2) show ?thesis
    by (simp add: calm_def mayPick_def keysOf_empty isWaiting_def targetedNodes_def)
qed

section \<open>KMM's answer\<close>

text \<open>KMM loads the module of the version a node is labelled with and reports it ready.\<close>

definition readied :: "library \<Rightarrow> DeviceConfig \<Rightarrow> Node \<Rightarrow> Node \<Rightarrow> bool" where
  "readied lib d n n' \<longleftrightarrow> nodeIs n
     (case mapGet (node_Labels n) (versionLabel lib d) of None \<Rightarrow> mapGet (node_Labels n)
      | Some v \<Rightarrow> (mapGet (node_Labels n))(readyLabel lib d \<mapsto> v)) (node_Taints n) n'"

definition allReady :: "library \<Rightarrow> DeviceConfig \<Rightarrow> cluster \<Rightarrow> cluster \<Rightarrow> bool" where
  "allReady lib d c c' \<longleftrightarrow> (\<forall>k. rel_option (readied lib d) (cl_Nodes c k) (cl_Nodes c' k))"

lemma readied_key: "readied lib d n n' \<Longrightarrow> keyOf (node_Meta n') = keyOf (node_Meta n)"
  unfolding readied_def by (rule nodeIs_key)

lemma allReady_stored:
  assumes "allReady lib d c c'" and "keyed node_Meta (cl_Nodes c)"
  shows "stored c' n' \<Longrightarrow> \<exists>n. stored c n \<and> readied lib d n n'"
    and "stored c n \<Longrightarrow> \<exists>n'. stored c' n' \<and> readied lib d n n'"
proof -
  note rel = assms(1) [unfolded allReady_def, THEN spec]
  show "\<exists>n. stored c n \<and> readied lib d n n'" if "stored c' n'"
  proof -
    from rel [of "keyOf (node_Meta n')"] that obtain n where
      n: "cl_Nodes c (keyOf (node_Meta n')) = Some n" "readied lib d n n'"
      by (auto simp: stored_def option_rel_Some2)
    with keyedD [OF assms(2) n(1)] show ?thesis by (intro exI [of _ n]) (simp add: stored_def)
  qed
  show "\<exists>n'. stored c' n' \<and> readied lib d n n'" if "stored c n"
  proof -
    from rel [of "keyOf (node_Meta n)"] that obtain n' where
      n': "cl_Nodes c' (keyOf (node_Meta n)) = Some n'" "readied lib d n n'"
      by (auto simp: stored_def option_rel_Some1)
    with readied_key [OF n'(2)] show ?thesis by (intro exI [of _ n']) (simp add: stored_def)
  qed
qed

lemma allReady_dom: "allReady lib d c c' \<Longrightarrow> dom (cl_Nodes c') = dom (cl_Nodes c)"
proof -
  assume "allReady lib d c c'"
  then have "rel_option (readied lib d) (cl_Nodes c k) (cl_Nodes c' k)" for k by (simp add: allReady_def)
  then have "cl_Nodes c' k = None \<longleftrightarrow> cl_Nodes c k = None" for k by (metis option.rel_sel)
  then show ?thesis by (auto simp: dom_def)
qed

lemma allReady_keysOf:
  assumes "allReady lib d c c'" and "keyed node_Meta (cl_Nodes c)"
    and "\<And>n n'. stored c n \<Longrightarrow> readied lib d n n' \<Longrightarrow> P n' \<longleftrightarrow> Q n"
  shows "keysOf P c' = keysOf Q c"
proof (rule set_eqI)
  fix k
  show "k \<in> keysOf P c' \<longleftrightarrow> k \<in> keysOf Q c"
    unfolding keysOf_iff by (metis allReady_stored [OF assms(1,2)] assms(3) readied_key)
qed

lemma readied_facts:
  assumes "readied lib d n n'" and "plainSelector lib d" and "lawfulLabels lib"
  shows "isWaiting lib d n' \<longleftrightarrow> isWaiting lib d n"
    and "getNodeUpgradeState lib n' d \<noteq> nodeInUpgrade"
    and "isTaintedDone lib d n' \<longleftrightarrow> selects (Selector (dc_Spec d)) (node_Labels n) \<and>
      getNodeUpgradeState lib n d \<noteq> nodeBeforeUpgrade \<and> isNodeTainted n"
    and "ownTaint n' \<longleftrightarrow> ownTaint n"
proof -
  have ne: "versionLabel lib d \<noteq> readyLabel lib d" using assms(3) by (simp add: lawfulLabels_def)
  have l: "mapGet (node_Labels n') k = (if k = readyLabel lib d \<and> mapGet (node_Labels n) (versionLabel lib d) \<noteq> None
      then mapGet (node_Labels n) (versionLabel lib d) else mapGet (node_Labels n) k)" for k
    using nodeIs_labels [OF assms(1) [unfolded readied_def], of k] by (auto split: option.splits)
  have t: "node_Taints n' = node_Taints n" using assms(1) unfolding readied_def by (rule nodeIs_taints)
  have sel: "selects (Selector (dc_Spec d)) (node_Labels n') = selects (Selector (dc_Spec d)) (node_Labels n)"
    by (rule selects_plain [OF assms(2)]) (simp add: l)
  have v: "mapGet (node_Labels n') (versionLabel lib d) = mapGet (node_Labels n) (versionLabel lib d)"
    and r: "mapGet (node_Labels n) (versionLabel lib d) = Some (wanted d) \<Longrightarrow>
      mapGet (node_Labels n') (readyLabel lib d) = Some (wanted d)"
    using ne by (simp_all add: l)
  show "isWaiting lib d n' \<longleftrightarrow> isWaiting lib d n" by (simp add: isWaiting_def sel state_iff v)
  show "getNodeUpgradeState lib n' d \<noteq> nodeInUpgrade" using r by (auto simp: state_iff v)
  show "isTaintedDone lib d n' \<longleftrightarrow> selects (Selector (dc_Spec d)) (node_Labels n) \<and>
      getNodeUpgradeState lib n d \<noteq> nodeBeforeUpgrade \<and> isNodeTainted n"
    using r by (auto simp: isTaintedDone_def sel state_iff v isNodeTainted_iff t)
  show "ownTaint n' \<longleftrightarrow> ownTaint n" by (simp add: ownTaint_def t)
qed

section \<open>Rounds\<close>

text \<open>One round: a call of the handler that succeeds, then KMM's answer.\<close>

definition upgradeRound ::
  "library \<Rightarrow> ('w \<Rightarrow> cluster) \<Rightarrow> 'w deviceConfigReconcilerHelper \<Rightarrow> DeviceConfig \<Rightarrow> 'w \<Rightarrow> 'w \<Rightarrow> bool" where
  "upgradeRound lib cl dcrh d w w' \<longleftrightarrow>
     (\<exists>w1. dcrh_handleModuleVersionUpgrade dcrh d w = (Inr (), w1) \<and> allReady lib d (cl w1) (cl w'))"

lemma round_todo:
  assumes "started lib d c1 c2" and "calm lib d c1" and "allReady lib d c2 c3"
    and "keyed node_Meta (cl_Nodes c2)" and "plainSelector lib d" and "lawfulLabels lib"
  shows "calm lib d c3 \<and>
    (card (keysOf (isWaiting lib d) c1) = Suc (card (keysOf (isWaiting lib d) c3)) \<and>
       card (keysOf (isTaintedDone lib d) c3) \<le> Suc (card (keysOf (isTaintedDone lib d) c1)) \<or>
     keysOf (isWaiting lib d) c1 = {} \<and> keysOf (isWaiting lib d) c3 = {} \<and>
       keysOf (isTaintedDone lib d) c3 = keysOf (isTaintedDone lib d) c1)"
proof -
  note facts = readied_facts [OF _ assms(5,6)]
  note start = started_count [OF assms(1,2,5)]
  have calm: "calm lib d c3"
  proof -
    have "inUpgrade lib d c3 = {}"
      using allReady_stored(1) [OF assms(3,4)] facts(2) unfolding inUpgrade_def
      by (blast dest: targetedNodes_stored)
    moreover have "ownTaint n" if "stored c3 n" for n
      using allReady_stored(1) [OF assms(3,4) that] facts(4) start by blast
    ultimately show ?thesis using start by (simp add: calm_def allReady_dom [OF assms(3)])
  qed
  have wait: "keysOf (isWaiting lib d) c3 = keysOf (isWaiting lib d) c2"
    by (rule allReady_keysOf [OF assms(3,4)]) (rule facts(1))
  have busy: "keysOf (isTaintedDone lib d) c3 = keysOf (\<lambda>n. selects (Selector (dc_Spec d)) (node_Labels n) \<and>
      getNodeUpgradeState lib n d \<noteq> nodeBeforeUpgrade \<and> isNodeTainted n) c2"
    by (rule allReady_keysOf [OF assms(3,4)]) (rule facts(3))
  then have sub: "keysOf (isTaintedDone lib d) c3 \<subseteq> keysOf (isTaintedDone lib d) c2 \<union>
      (\<lambda>n. keyOf (node_Meta n)) ` inUpgrade lib d c2"
    by (auto simp: keysOf_def isTaintedDone_def inUpgrade_def targetedNodes_def
        intro: nodeUpgradeState.exhaust)
  have "keysOf (isTaintedDone lib d) c2 \<subseteq> keysOf (isTaintedDone lib d) c3"
    unfolding busy by (auto simp: keysOf_def isTaintedDone_def)
  then have dn: "keysOf (isTaintedDone lib d) c3 = keysOf (isTaintedDone lib d) c2"
    if "inUpgrade lib d c2 = {}" using that sub by blast
  from start have "(c2 = c1 \<and> keysOf (isWaiting lib d) c1 = {}) \<or>
     (\<exists>k. card (keysOf (isWaiting lib d) c1) = Suc (card (keysOf (isWaiting lib d) c2)) \<and>
        keysOf (isTaintedDone lib d) c2 \<subseteq> insert k (keysOf (isTaintedDone lib d) c1) \<and>
        (\<forall>m \<in> inUpgrade lib d c2. keyOf (node_Meta m) = k))" by blast
  then show ?thesis
  proof (elim disjE exE conjE)
    assume "c2 = c1" "keysOf (isWaiting lib d) c1 = {}"
    with dn assms(2) calm wait show ?thesis by (simp add: calm_def)
  next
    fix k
    assume w: "card (keysOf (isWaiting lib d) c1) = Suc (card (keysOf (isWaiting lib d) c2))"
      and d2: "keysOf (isTaintedDone lib d) c2 \<subseteq> insert k (keysOf (isTaintedDone lib d) c1)"
      and k: "\<forall>m \<in> inUpgrade lib d c2. keyOf (node_Meta m) = k"
    have "keysOf (isTaintedDone lib d) c3 \<subseteq> insert k (keysOf (isTaintedDone lib d) c1)"
      using sub d2 k by blast
    moreover have "finite (keysOf (isTaintedDone lib d) c1)" using finite_keysOf assms(2) by (simp add: calm_def)
    ultimately have "card (keysOf (isTaintedDone lib d) c3) \<le> card (insert k (keysOf (isTaintedDone lib d) c1))"
      by (intro card_mono) simp_all
    also have "\<dots> \<le> Suc (card (keysOf (isTaintedDone lib d) c1))"
      using \<open>finite (keysOf (isTaintedDone lib d) c1)\<close> by (simp add: card_insert_if)
    finally have "card (keysOf (isTaintedDone lib d) c3) \<le> Suc (card (keysOf (isTaintedDone lib d) c1))" .
    with w wait calm show ?thesis by simp
  qed
qed

lemma call_todo:
  assumes "lawfulClient lib c cl" and "lawfulLabels lib" and "plainSelector lib d" and "wanted d \<noteq> []"
    and "dcrh_handleModuleVersionUpgrade (operatorHelper lib c f b) d w = (Inr (), w1)"
    and "allReady lib d (cl w1) C" and "calm lib d (cl w)"
  shows "calm lib d C \<and> (todo lib d C < todo lib d (cl w) \<or> (todo lib d (cl w) = 0 \<and> todo lib d C = 0))"
proof -
  from ui.upgrade_success [OF assms(1) _ assms(4,5)] obtain c1 where
    un: "uncordoned lib d (cl w) c1" and st: "started lib d c1 (cl w1)" by auto
  have keyed: "keyed node_Meta (cl_Nodes (cl w1))"
    using lawfulClientD(1) [OF assms(1), of w1] by (simp add: wellKeyed_def)
  note one = uncordoned_count [OF un assms(7)]
  from round_todo [OF st one(1) assms(6) keyed assms(3,2)] one(2,3)
  show ?thesis unfolding todo_def by auto
qed

interpretation rollout: measured_rounds "upgradeRound lib cl (operatorHelper lib c f b) d"
  "\<lambda>w. lawfulClient lib c cl \<and> lawfulLabels lib \<and> plainSelector lib d \<and> wanted d \<noteq> [] \<and> calm lib d (cl w)"
  "\<lambda>w. todo lib d (cl w)" for lib cl c f b d
proof (unfold_locales, elim conjE)
  fix w w'
  assume step: "upgradeRound lib cl (operatorHelper lib c f b) d w w'"
    and inv: "lawfulClient lib c cl" "lawfulLabels lib" "plainSelector lib d" "wanted d \<noteq> []" "calm lib d (cl w)"
  from step obtain w1 where "dcrh_handleModuleVersionUpgrade (operatorHelper lib c f b) d w = (Inr (), w1)"
    "allReady lib d (cl w1) (cl w')" unfolding upgradeRound_def by blast
  from call_todo [OF inv(1-4) this inv(5)] inv show
    "(lawfulClient lib c cl \<and> lawfulLabels lib \<and> plainSelector lib d \<and> wanted d \<noteq> [] \<and> calm lib d (cl w')) \<and>
     (todo lib d (cl w') < todo lib d (cl w) \<or> (todo lib d (cl w) = 0 \<and> todo lib d (cl w') = 0))"
    by blast
qed

lemma todo_0:
  assumes "calm lib d c" and "todo lib d c = 0" and "n \<in> targetedNodes d c"
  shows "getNodeUpgradeState lib n d = nodeUpgraded \<and> \<not> isNodeTainted n"
proof -
  have "finite (keysOf P c)" for P using finite_keysOf assms(1) by (simp add: calm_def)
  with assms(2) have "keysOf (isWaiting lib d) c = {}" "keysOf (isTaintedDone lib d) c = {}"
    by (simp_all add: todo_def)
  then have "\<not> isWaiting lib d n" "\<not> isTaintedDone lib d n"
    using assms(3) by (auto simp: keysOf_empty targetedNodes_def)
  moreover have "getNodeUpgradeState lib n d \<noteq> nodeInUpgrade"
    using assms(1,3) by (auto simp: calm_def inUpgrade_def)
  ultimately show ?thesis using assms(3)
    by (cases "getNodeUpgradeState lib n d") (auto simp: isWaiting_def isTaintedDone_def targetedNodes_def)
qed

section \<open>Properties\<close>

text \<open>
  C8: the handler refines the protocol. Whatever its outcome, what it did to the cluster is
  a run of protocol steps, each at most once and in the order uncordon, cordon, start.
\<close>

theorem upgrade_refines_protocol:
  assumes "lawfulClient lib c cl"
    and "dcrh_handleModuleVersionUpgrade (operatorHelper lib c f b) d w = (r, w')"
  shows "\<exists>as. subseq as [Uncordon, Cordon, Start] \<and> rollout_run lib d as (cl w) (cl w')"
  using ui.upgrade_did [OF assms(1) _ assms(2)] by (simp add: did_def)

lemma upgrade_refines_protocol_witness:
  "let d = setFinalizers [deviceConfigFinalizer] (exDC ''2''); w = exWorld [exFresh ''a'', exFresh ''b''] [];
       w' = w\<lparr>m_Nodes := [exStarted ''b'', exFresh ''a'']\<rparr>
   in dcrh_handleModuleVersionUpgrade exHelper d w = (Inr (), w') \<and>
      (\<exists>as. subseq as [Uncordon, Cordon, Start] \<and> rollout_run memLib d as (memCluster w) (memCluster w'))"
proof -
  let ?w = "exWorld [exFresh ''a'', exFresh ''b''] []"
  have "m_Nodes ?w = [exFresh ''a'', exFresh ''b'']" by simp
  from upgrade_refines_protocol [OF lawfulClient_mem ex_upgrade [OF this]] ex_upgrade [OF this]
  show ?thesis by (simp only: Let_def)
qed

text \<open>
  Workloads are moved off first, without interference. Whatever the outcome of the handler, a node whose
  version label changed was new to the rollout or carries the NoExecute taint.
\<close>

theorem upgrade_drains_first:
  assumes "lawfulClient lib c cl"
    and "dcrh_handleModuleVersionUpgrade (operatorHelper lib c f b) d w = (r, w')"
    and "cl_Nodes (cl w) k = Some n" and "cl_Nodes (cl w') k = Some n'"
    and "mapGet (node_Labels n') (versionLabel lib d) \<noteq> mapGet (node_Labels n) (versionLabel lib d)"
  shows "isNewNodeForUpgrade lib n d \<or> hasUpgradeTaint (node_Taints n')"
proof -
  have "drained lib d (cl w) (cl w')" by (rule did_drained) (rule ui.upgrade_did [OF assms(1) _ assms(2)], simp)
  with assms(3-) show ?thesis unfolding drained_def by blast
qed

text \<open>A node that runs version 1 is cordoned and asked for version 2 in one call.\<close>

lemma ex_replace:
  assumes "m_Nodes w = [exNode ''a'' [''neuron'' \<mapsto> ''true'', exVersionLabel \<mapsto> ''1'', exReadyLabel \<mapsto> ''1''] []]"
  shows "dcrh_handleModuleVersionUpgrade exHelper (exDC ''2'') w = (Inr (), w\<lparr>m_Nodes :=
    [exNode ''a'' [''neuron'' \<mapsto> ''true'', exVersionLabel \<mapsto> ''2'', exReadyLabel \<mapsto> ''1''] [upgradeTaint]]\<rparr>)"
proof -
  let ?m = "[''neuron'' \<mapsto> ''true'', exVersionLabel \<mapsto> ''1'', exReadyLabel \<mapsto> ''1'']"
  have b: "\<not> isNewNodeForUpgrade memLib (exNode ''a'' ?m ts) (exDC ''2'')"
    "getNodeUpgradeState memLib (exNode ''a'' ?m ts) (exDC ''2'') = nodeBeforeUpgrade" for ts
    by (simp_all add: isNewNodeForUpgrade_def getNodeUpgradeState_def)
  have taint: "(exNode ''a'' ?m [])\<lparr>node_Taints := [upgradeTaint]\<rparr> = exNode ''a'' ?m [upgradeTaint]"
    by (simp add: exNode_def)
  have merged: "(nodeSetLabels (Some (mergedLabel (Some ?m) (Some ?m) (Some ?m))) (exNode ''a'' ?m []))
      \<lparr>node_Taints := mergedList [] [upgradeTaint] []\<rparr> = exNode ''a'' ?m [upgradeTaint]"
    by (simp add: exNode_def nodeSetLabels_def mergedLabel_def mergedList_def fun_eq_iff)
  show ?thesis
    by (simp add: dcrh_handleModuleVersionUpgrade_def bindE_def wrapE_def tryE_def Let_def b assms taint
        upgradeImpl_GetTargetedNodes_def upgradeImpl_GetNodeForUpgrade_def memClient_simps memList_def listing_def
        upgradeImpl_UncordonUpgradedNode_def upgradeImpl_CordonNodeForUpgrade_def upgradeImpl_KickoffUpgrade_def
        memPatchNode_def putObj_def removeKey_def merged)
       (simp add: exNode_def nodeSetLabels_def mergedLabel_def mergedList_def fun_eq_iff)
qed

lemma upgrade_drains_first_witness:
  "let n = exNode ''a'' [''neuron'' \<mapsto> ''true'', exVersionLabel \<mapsto> ''1'', exReadyLabel \<mapsto> ''1''] [];
       (r, w') = dcrh_handleModuleVersionUpgrade exHelper (exDC ''2'') (exWorld [n] []);
       n' = the (cl_Nodes (memCluster w') (NN [] ''a''))
   in r = Inr () \<and> mapGet (node_Labels n') exVersionLabel = Some ''2'' \<and> hasUpgradeTaint (node_Taints n')"
proof -
  let ?m = "[''neuron'' \<mapsto> ''true'', exVersionLabel \<mapsto> ''1'', exReadyLabel \<mapsto> ''1'']"
  let ?n = "exNode ''a'' ?m []"
  let ?n' = "exNode ''a'' [''neuron'' \<mapsto> ''true'', exVersionLabel \<mapsto> ''2'', exReadyLabel \<mapsto> ''1''] [upgradeTaint]"
  have m: "m_Nodes (exWorld [?n] []) = [?n]" by simp
  have "isNewNodeForUpgrade memLib ?n (exDC ''2'') \<or> hasUpgradeTaint (node_Taints ?n')"
    by (rule upgrade_drains_first [OF lawfulClient_mem ex_replace [OF m], of "NN [] ''a''"]) simp_all
  then have "hasUpgradeTaint (node_Taints ?n')" by (simp add: isNewNodeForUpgrade_def)
  then show ?thesis by (simp add: ex_replace [OF m] Let_def del: hasUpgradeTaint.simps)
qed

text \<open>
  The rollout completes, the handler alone. Start with no node in upgrade and alternate successful calls
  of the handler with KMM's answer: after two rounds per waiting node and one per node
  still to be uncordoned, every targeted node has the wanted version and no upgrade taint.
  (Nobody else uses the key of that taint, and the selector does not mention the labels
  of the rollout.)
\<close>

theorem rollout_completes:
  assumes "lawfulClient lib c cl" and "lawfulLabels lib" and "plainSelector lib d" and "wanted d \<noteq> []"
    and "calm lib d (cl w)"
    and "(upgradeRound lib cl (operatorHelper lib c f b) d ^^ k) w w'"
    and "todo lib d (cl w) \<le> k" and "n \<in> targetedNodes d (cl w')"
  shows "getNodeUpgradeState lib n d = nodeUpgraded \<and> \<not> isNodeTainted n"
proof -
  from rollout.enough_rounds [OF assms(6)] assms(1-5,7) have "calm lib d (cl w')" "todo lib d (cl w') = 0"
    by blast+
  then show ?thesis by (rule todo_0) (rule assms(8))
qed

lemma two_steps: "R a b \<Longrightarrow> R b c \<Longrightarrow> (R ^^ 2) a c"
  by (auto simp: numeral_2_eq_2)

text \<open>One fresh node: started in the first round, found ready in the second.\<close>

lemma rollout_completes_witness:
  "let d = exDC ''2''; w = exWorld [exFresh ''a''] [];
       done' = exNode ''a'' [''neuron'' \<mapsto> ''true'', exVersionLabel \<mapsto> ''2'', exReadyLabel \<mapsto> ''2''] []
   in (upgradeRound memLib memCluster exHelper d ^^ 2) w (exWorld [done'] []) \<and> todo memLib d (memCluster w) \<le> 2 \<and>
      getNodeUpgradeState memLib done' d = nodeUpgraded \<and> \<not> isNodeTainted done'"
proof -
  let ?d = "exDC ''2''" and ?w = "exWorld [exFresh ''a''] []"
  let ?n = "exNode ''a'' [''neuron'' \<mapsto> ''true'', exVersionLabel \<mapsto> ''2'', exReadyLabel \<mapsto> ''2''] []"
  have fresh: "isNewNodeForUpgrade memLib (exFresh ''a'') ?d"
    "getNodeUpgradeState memLib (exFresh ''a'') ?d = nodeBeforeUpgrade"
    and up: "getNodeUpgradeState memLib ?n ?d = nodeUpgraded" "\<not> isNodeTainted ?n"
    by (simp_all add: isNewNodeForUpgrade_def getNodeUpgradeState_def isNodeTainted_def)
  have 1: "dcrh_handleModuleVersionUpgrade exHelper ?d ?w = (Inr (), exWorld [exStarted ''a''] [])"
    by (simp add: dcrh_handleModuleVersionUpgrade_def bindE_def wrapE_def tryE_def Let_def fresh
        upgradeImpl_GetTargetedNodes_def upgradeImpl_GetNodeForUpgrade_def memClient_simps memList_def listing_def
        upgradeImpl_UncordonUpgradedNode_def upgradeImpl_CordonNodeForUpgrade_def upgradeImpl_KickoffUpgrade_def
        memPatchNode_def putObj_def removeKey_def)
       (simp add: exWorld_def exNode_def nodeSetLabels_def mergedLabel_def mergedList_def fun_eq_iff)
  have 2: "dcrh_handleModuleVersionUpgrade exHelper ?d (exWorld [?n] []) = (Inr (), exWorld [?n] [])"
    by (simp add: dcrh_handleModuleVersionUpgrade_def bindE_def wrapE_def tryE_def Let_def up
        upgradeImpl_GetTargetedNodes_def upgradeImpl_GetNodeForUpgrade_def memClient_simps memList_def listing_def
        upgradeImpl_UncordonUpgradedNode_def upgradeImpl_CordonNodeForUpgrade_def upgradeImpl_KickoffUpgrade_def)
  have "allReady memLib ?d (memCluster (exWorld [exStarted ''a''] [])) (memCluster (exWorld [?n] []))"
    "allReady memLib ?d (memCluster (exWorld [?n] [])) (memCluster (exWorld [?n] []))"
    by (simp_all add: allReady_def readied_def nodeIs_def) (simp_all add: exNode_def)
  with 1 2 have "upgradeRound memLib memCluster exHelper ?d ?w (exWorld [?n] [])"
    and "upgradeRound memLib memCluster exHelper ?d (exWorld [?n] []) (exWorld [?n] [])"
    unfolding upgradeRound_def by blast+
  then have steps: "(upgradeRound memLib memCluster exHelper ?d ^^ 2) ?w (exWorld [?n] [])"
    by (rule two_steps)
  have one: "stored (memCluster ?w) n \<Longrightarrow> n = exFresh ''a''" for n using stored_mem [of ?w n] by simp
  have calm: "calm memLib ?d (memCluster ?w)"
    unfolding calm_def
  proof (intro conjI allI impI)
    show "inUpgrade memLib ?d (memCluster ?w) = {}"
      using one fresh(2) unfolding inUpgrade_def by (fastforce dest: targetedNodes_stored)
    show "ownTaint n" if "stored (memCluster ?w) n" for n using one [OF that] by (simp add: ownTaint_def)
    show "finite (dom (cl_Nodes (memCluster ?w)))"
      by (rule finite_subset [of _ "{NN [] ''a''}"]) (auto split: if_splits)
  qed
  have keys: "keysOf P (memCluster ?w) \<subseteq> {NN [] ''a''}" for P by (auto simp: keysOf_def dest!: one)
  have "keysOf (isTaintedDone memLib ?d) (memCluster ?w) = {}"
    unfolding keysOf_empty by (auto simp: isTaintedDone_def isNodeTainted_def dest!: one)
  moreover have "card (keysOf (isWaiting memLib ?d) (memCluster ?w)) \<le> 1"
    using card_mono [OF _ keys [of "isWaiting memLib ?d"]] by simp
  ultimately have todo: "todo memLib ?d (memCluster ?w) \<le> 2" by (simp add: todo_def)
  have "getNodeUpgradeState memLib ?n ?d = nodeUpgraded \<and> \<not> isNodeTainted ?n"
  proof (rule rollout_completes [where cl = memCluster and c = memClient and w = ?w and w' = "exWorld [?n] []" and k = 2])
    show "todo memLib ?d (memCluster ?w) \<le> 2" by (rule todo)
    show "calm memLib ?d (memCluster ?w)" by (rule calm)
    show "(upgradeRound memLib memCluster exHelper ?d ^^ 2) ?w (exWorld [?n] [])" by (rule steps)
  qed (simp_all add: lawfulClient_mem lawfulLabels_mem plainSelector_def targetedNodes_def stored_def)
  with steps todo show ?thesis by (simp only: Let_def) simp
qed

end
