(* ===== verification/Reconciler.thy ===== *)
theory Reconciler
  imports Example
begin

text \<open>
  What the reconciler as a whole guarantees: which objects of the cluster it may touch, and
  the invariants that \<open>Reconcile\<close> keeps when each operation of its helper keeps them (the
  locales \<open>reconciler_handlers\<close> and \<open>reconciler_helper\<close>, interpreted on the real helper here
  and in the theories after this one).
\<close>

section \<open>The footprint of a DeviceConfig\<close>

text \<open>
  The objects that belong to a DeviceConfig are named after it. \<open>footprint lib d c c'\<close>: from
  \<open>c\<close> to \<open>c'\<close> only these changed, of the DeviceConfig itself only its finalizers (or it is
  gone), and on nodes only the version label and the upgrade taint.
\<close>

definition nodeTouched :: "library \<Rightarrow> DeviceConfig \<Rightarrow> Node \<Rightarrow> Node \<Rightarrow> bool" where
  "nodeTouched lib d n n' \<longleftrightarrow>
     (\<forall>k. k \<noteq> versionLabel lib d \<longrightarrow> mapGet (node_Labels n') k = mapGet (node_Labels n) k) \<and>
     filter (\<lambda>t. \<not> isUpgradeTaint t) (node_Taints n') = filter (\<lambda>t. \<not> isUpgradeTaint t) (node_Taints n)"

definition sameOutside :: "nsname set \<Rightarrow> (nsname \<rightharpoonup> 'o) \<Rightarrow> (nsname \<rightharpoonup> 'o) \<Rightarrow> bool" where
  "sameOutside K m m' \<longleftrightarrow> (\<forall>k. k \<notin> K \<longrightarrow> m' k = m k)"

definition finalizersOnly :: "DeviceConfig option \<Rightarrow> DeviceConfig option \<Rightarrow> bool" where
  "finalizersOnly x x' \<longleftrightarrow> (case x' of None \<Rightarrow> True
     | Some d' \<Rightarrow> \<exists>d fs. x = Some d \<and> d' = setFinalizers fs d)"

definition footprint :: "library \<Rightarrow> DeviceConfig \<Rightarrow> cluster \<Rightarrow> cluster \<Rightarrow> bool" where
  "footprint lib d c c' \<longleftrightarrow> (let ns = dc_Namespace d; nm = dc_Name d in
     sameOutside {NN ns nm} (cl_Modules c) (cl_Modules c') \<and>
     sameOutside {NN ns (nm @ ''-node-metrics'')} (cl_DaemonSets c) (cl_DaemonSets c') \<and>
     sameOutside {NN ns (nm @ ''-custom-scheduler''), NN ns (nm @ ''-custom-scheduler-extension'')}
       (cl_Deployments c) (cl_Deployments c') \<and>
     sameOutside {NN ns (''dockerfile-'' @ nm)} (cl_ConfigMaps c) (cl_ConfigMaps c') \<and>
     sameOutside {NN ns nm} (cl_DeviceConfigs c) (cl_DeviceConfigs c') \<and>
     finalizersOnly (cl_DeviceConfigs c (NN ns nm)) (cl_DeviceConfigs c' (NN ns nm)) \<and>
     (\<forall>k. rel_option (nodeTouched lib d) (cl_Nodes c k) (cl_Nodes c' k)))"

lemma sameOutside_refl [simp]: "sameOutside K m m"
  by (simp add: sameOutside_def)

lemma sameOutside_trans: "sameOutside K a b \<Longrightarrow> sameOutside K b c \<Longrightarrow> sameOutside K a c"
  by (simp add: sameOutside_def)

lemma sameOutside_upd [simp]: "k \<in> K \<Longrightarrow> sameOutside K m (m(k := z))"
  by (auto simp: sameOutside_def)

lemma setFinalizers_twice [simp]: "setFinalizers fs (setFinalizers gs d) = setFinalizers fs d"
  by (simp add: setFinalizers_def)

lemma setFinalizers_same [simp]: "setFinalizers (dc_Finalizers d) d = d"
  by (simp add: setFinalizers_def)

lemma finalizersOnly_refl [simp]: "finalizersOnly x x"
  unfolding finalizersOnly_def by (cases x) (auto intro: setFinalizers_same [symmetric])

lemma finalizersOnly_trans: "finalizersOnly x y \<Longrightarrow> finalizersOnly y z \<Longrightarrow> finalizersOnly x z"
  unfolding finalizersOnly_def by (cases z) (auto split: option.splits)

lemma nodeTouched_refl [simp]: "nodeTouched lib d n n"
  by (simp add: nodeTouched_def)

lemma nodeTouched_trans: "nodeTouched lib d a b \<Longrightarrow> nodeTouched lib d b c \<Longrightarrow> nodeTouched lib d a c"
  by (simp add: nodeTouched_def)

lemma footprint_refl [simp]: "footprint lib d c c"
  by (auto simp: footprint_def Let_def option.rel_refl)

lemma footprint_trans:
  assumes "footprint lib d a b" and "footprint lib d b c"
  shows "footprint lib d a c"
proof -
  have "rel_option (nodeTouched lib d) (cl_Nodes a k) (cl_Nodes c k)" for k
    by (rule rel_option_trans [where R = "nodeTouched lib d" and S = "nodeTouched lib d"
          and y = "cl_Nodes b k"], erule (1) nodeTouched_trans)
       (use assms in \<open>simp_all add: footprint_def Let_def\<close>)
  with assms show ?thesis unfolding footprint_def Let_def
    by (auto intro: sameOutside_trans finalizersOnly_trans)
qed

lemma footprint_key:
  assumes "keyOf (dc_Meta d') = keyOf (dc_Meta d)"
  shows "footprint lib d' c c' \<longleftrightarrow> footprint lib d c c'"
proof -
  have "nodeTouched lib d' = nodeTouched lib d"
    using assms by (simp add: fun_eq_iff nodeTouched_def keyOf_def)
  with assms show ?thesis by (simp add: footprint_def keyOf_def Let_def)
qed

lemma did_footprint: "did lib d acts c c' \<Longrightarrow> footprint lib d c c'"
proof -
  assume "did lib d acts c c'"
  then have f: "clusterFrame lib d c c'" by (rule did_frame)
  have "rel_option (nodeTouched lib d) (cl_Nodes c k) (cl_Nodes c' k)" for k
    by (rule option.rel_mono_strong [of "nodeFrame lib d"])
       (use f in \<open>auto simp: clusterFrame_def nodeFrame_def nodeTouched_def\<close>)
  with f show ?thesis by (simp add: footprint_def clusterFrame_def Let_def)
qed

lemma unlabelling_footprint:
  assumes "unlabelling (versionLabel lib d) c c' ns r" and "\<And>n. n \<in> set ns \<Longrightarrow> stored c n"
  shows "footprint lib d c c'"
proof -
  have "rel_option (nodeTouched lib d) (cl_Nodes c k) (cl_Nodes c' k)" for k
  proof (cases "k \<in> (\<lambda>n. keyOf (node_Meta n)) ` set ns")
    case True
    then obtain n n' where n: "n \<in> set ns" "k = keyOf (node_Meta n)" "cl_Nodes c' k = Some n'"
      and "unlabelled (versionLabel lib d) n n' \<or> n' = n"
      using assms(1) by (auto simp: unlabelling_def)
    then have "nodeTouched lib d n n'"
      by (auto simp: nodeTouched_def unlabelled_def nodeIs_labels nodeIs_taints)
    with n assms(2) [OF n(1)] show ?thesis by (simp add: stored_def)
  next
    case False
    with assms(1) show ?thesis by (simp add: unlabelling_def option.rel_refl)
  qed
  with assms(1) show ?thesis by (simp add: footprint_def unlabelling_def sameButNodes_def Let_def)
qed

lemma storeDC_footprint:
  assumes "cl_DeviceConfigs c (keyOf (dc_Meta d)) = Some d'" and "keyOf (dc_Meta d') = keyOf (dc_Meta d)"
  shows "footprint lib d c (storeDC (setFinalizers fs d') c)"
proof -
  have k: "keyOf (dc_Meta (setFinalizers fs d')) = NN (dc_Namespace d) (dc_Name d)"
    using assms(2) by (simp add: setFinalizers_def keyOf_def)
  with assms(1) show ?thesis unfolding footprint_def storeDC_def Let_def
    by (auto simp: option.rel_refl finalizersOnly_def keyOf_def)
qed

section \<open>Single operations\<close>

lemma dcMerged_finalizers: "dcMerged base obj srv =
    setFinalizers (mergedList (dc_Finalizers base) (dc_Finalizers obj) (dc_Finalizers srv)) srv"
  by (simp add: dcMerged_def setFinalizers_def)

lemma triple_patchDC:
  assumes "lawfulClient lib c cl"
    and "\<And>x d fs. I x \<Longrightarrow> cl_DeviceConfigs x (keyOf (dc_Meta obj)) = Some d \<Longrightarrow>
      keyOf (dc_Meta d) = keyOf (dc_Meta obj) \<Longrightarrow> I (storeDC (setFinalizers fs d) x) \<and> Q d"
  shows "triple (\<lambda>w. I (cl w)) (apiPatch (DeviceConfigs c) obj base)
    (\<lambda>new w. I (cl w) \<and> (\<exists>d fs. new = setFinalizers fs d \<and> keyOf (dc_Meta d) = keyOf (dc_Meta obj) \<and> Q d))
    (\<lambda>e w. I (cl w))"
proof -
  let ?k = "keyOf (dc_Meta obj)"
  have law: "case apiPatch (DeviceConfigs c) obj base w of
      (Inl e, w') \<Rightarrow> cl w' = cl w \<or> (\<exists>srv. cl_DeviceConfigs (cl w) ?k = Some srv \<and>
        cl w' = storeDC (dcMerged base obj srv) (cl w))
    | (Inr new, w') \<Rightarrow> \<exists>srv. cl_DeviceConfigs (cl w) ?k = Some srv \<and> new = dcMerged base obj srv \<and>
        cl w' = storeDC new (cl w)" for w
    using lawfulClientD(8) [OF assms(1), unfolded lawfulPatchDC_def Let_def, THEN spec, of obj,
        THEN spec, of base, THEN spec, of w] by (auto split: prod.splits sum.splits)
  have step: "I (storeDC (dcMerged base obj srv) (cl w))" "Q srv" "keyOf (dc_Meta srv) = ?k"
    if "I (cl w)" "cl_DeviceConfigs (cl w) ?k = Some srv" for w srv
    using wellKeyed_key(4) [OF lawfulClientD(1) [OF assms(1)] that(2)] assms(2) [OF that]
    by (simp_all add: dcMerged_finalizers)
  show ?thesis
  proof (rule tripleI)
    fix w new w' assume i: "I (cl w)" and "apiPatch (DeviceConfigs c) obj base w = (Inr new, w')"
    with law [of w] obtain srv where srv: "cl_DeviceConfigs (cl w) ?k = Some srv"
      and new: "new = dcMerged base obj srv" "cl w' = storeDC new (cl w)" by auto
    from step [OF i srv] show "I (cl w') \<and> (\<exists>d fs. new = setFinalizers fs d \<and>
        keyOf (dc_Meta d) = ?k \<and> Q d)"
      unfolding new dcMerged_finalizers by blast
  next
    fix w e w' assume i: "I (cl w)" and "apiPatch (DeviceConfigs c) obj base w = (Inl e, w')"
    with law [of w] have "cl w' = cl w \<or> (\<exists>srv. cl_DeviceConfigs (cl w) ?k = Some srv \<and>
        cl w' = storeDC (dcMerged base obj srv) (cl w))" by simp
    with step(1) [OF i] i show "I (cl w')" by metis
  qed
qed

lemma keeps_patchDC:
  assumes "lawfulClient lib c cl"
    and "\<And>x d fs. I x \<Longrightarrow> cl_DeviceConfigs x (keyOf (dc_Meta obj)) = Some d \<Longrightarrow>
      keyOf (dc_Meta d) = keyOf (dc_Meta obj) \<Longrightarrow> I (storeDC (setFinalizers fs d) x)"
  shows "keeps (\<lambda>w. I (cl w)) (apiPatch (DeviceConfigs c) obj base)"
  unfolding keeps_triple
  by (rule triple_conseq [OF triple_patchDC [OF assms(1), where Q = "\<lambda>_. True"]]) (use assms(2) in auto)

lemma keeps_unlabel:
  assumes "lawfulClient lib c cl"
    and "\<And>x x' ns r. I x \<Longrightarrow> unlabelling (versionLabel lib d) x x' ns r \<Longrightarrow>
      (\<And>n. n \<in> set ns \<Longrightarrow> stored x n) \<Longrightarrow> I x'"
  shows "keeps (\<lambda>w. I (cl w)) (upgradeImpl_RemoveUpgradeLabels lib c d)"
  unfolding keeps_def
proof (intro allI impI)
  fix w assume i: "I (cl w)"
  let ?key = "versionLabel lib d" and ?sel = "Some [versionLabel lib d \<mapsto> wanted d]"
  obtain r1 w1 where l: "apiList (Nodes c) ?sel w = (r1, w1)" by fastforce
  note list = lawful_list_nodes [OF assms(1) l]
  show "I (cl (snd (upgradeImpl_RemoveUpgradeLabels lib c d w)))"
  proof (cases r1)
    case (Inl e)
    with l list(1) i show ?thesis
      by (simp add: upgradeImpl_RemoveUpgradeLabels_def Let_def bindE_def wrapE_def tryE_def)
  next
    case (Inr ns)
    obtain r w' where loop: "removeLabelLoop c ?key ns w1 = (r, w')" by fastforce
    have "unlabelling ?key (cl w1) (cl w') ns r"
      using removeLabelLoop_effect [OF assms(1) _ _ loop] list Inr by simp
    moreover have "snd (upgradeImpl_RemoveUpgradeLabels lib c d w) = w'"
      using l Inr loop by (simp add: upgradeImpl_RemoveUpgradeLabels_def Let_def bindE_def wrapE_def tryE_def)
    ultimately show ?thesis using assms(2) [OF i, of "cl w'" ns r] list Inr by simp
  qed
qed

lemma keeps_upgrade:
  assumes "lawfulClient lib c cl"
    and "\<And>x x'. I x \<Longrightarrow> did lib d [Uncordon, Cordon, Start] x x' \<Longrightarrow> I x'"
  shows "keeps (\<lambda>w. I (cl w))
    (dcrh_handleModuleVersionUpgrade (operatorHelper lib c f b) d)"
  unfolding keeps_def
proof (intro allI impI)
  fix w assume i: "I (cl w)"
  let ?h = "operatorHelper lib c f b"
  obtain r w' where run: "dcrh_handleModuleVersionUpgrade ?h d w = (r, w')" by fastforce
  have "did lib d [Uncordon, Cordon, Start] (cl w) (cl w')"
    by (rule ui.upgrade_did [OF assms(1) _ run]) (simp add: operatorHelper_defs)
  with assms(2) [OF i] run show "I (cl (snd (dcrh_handleModuleVersionUpgrade ?h d w)))" by simp
qed

lemma keeps_build:
  assumes "lawfulClient lib c cl"
    and "\<And>x z. I x \<Longrightarrow> I (x\<lparr>cl_ConfigMaps := (cl_ConfigMaps x)(NN (dc_Namespace d) (''dockerfile-'' @ dc_Name d) := z)\<rparr>)"
  shows "keeps (\<lambda>w. I (cl w)) (dcrh_handleBuildConfigMap (operatorHelper lib c f b) d)"
  unfolding dcrh_handleBuildConfigMap_def Let_def newHelper_simps
  by (intro keeps_bind keeps_ret keeps_upsert [OF lawfulClientD(11) [OF assms(1)]])
     (simp_all add: GetDockerfileCMName_def assms(2) [simplified])

lemma keeps_kmm:
  assumes "lawfulClient lib c cl"
    and "\<And>x z. I x \<Longrightarrow> I (x\<lparr>cl_Modules := (cl_Modules x)(NN (dc_Namespace d) (dc_Name d) := z)\<rparr>)"
  shows "keeps (\<lambda>w. I (cl w)) (dcrh_handleKMMModule (operatorHelper lib c f b) d)"
  unfolding dcrh_handleKMMModule_def Let_def newHelper_simps
  by (intro keeps_bind keeps_ret keeps_upsert [OF lawfulClientD(13) [OF assms(1)]]) (simp_all add: assms(2))

lemma keeps_scheduler:
  assumes "lawfulClient lib c cl"
    and "\<And>x z. I x \<Longrightarrow> I (x\<lparr>cl_Deployments := (cl_Deployments x)(NN (dc_Namespace d) (dc_Name d @ ''-custom-scheduler'') := z)\<rparr>)"
    and "\<And>x z. I x \<Longrightarrow> I (x\<lparr>cl_Deployments := (cl_Deployments x)
      (NN (dc_Namespace d) (dc_Name d @ ''-custom-scheduler-extension'') := z)\<rparr>)"
  shows "keeps (\<lambda>w. I (cl w)) (dcrh_handleCustomScheduler lib (operatorHelper lib c f b) d)"
  unfolding dcrh_handleCustomScheduler_def Let_def newHelper_simps
  by (intro keeps_bind keeps_wrap keeps_ret keeps_upsert [OF lawfulClientD(14) [OF assms(1)]])
     (simp_all add: assms(2,3))

lemma keeps_metrics:
  assumes "lawfulClient lib c cl"
    and "\<And>x z. I x \<Longrightarrow> I (x\<lparr>cl_DaemonSets := (cl_DaemonSets x)(NN (dc_Namespace d) (dc_Name d @ ''-node-metrics'') := z)\<rparr>)"
  shows "keeps (\<lambda>w. I (cl w)) (dcrh_handleNodeMetrics (operatorHelper lib c f b) d)"
  unfolding dcrh_handleNodeMetrics_def Let_def newHelper_simps
  by (intro keeps_bind keeps_ret keeps_upsert [OF lawfulClientD(15) [OF assms(1)]]) (simp_all add: assms(2))

lemma triple_get:
  assumes "lawfulGet lib op cl sel" and "\<And>w. keyed meta (sel (cl w))"
  shows "triple (\<lambda>w. I (cl w)) (op k) (\<lambda>x w. I (cl w) \<and> keyOf (meta x) = k) (\<lambda>e w. I (cl w))"
proof (rule tripleI)
  fix w x w' assume "I (cl w)" "op k w = (Inr x, w')"
  with assms(1) [unfolded lawfulGet_def, THEN spec, of k, THEN spec, of w]
  have "cl w' = cl w" "sel (cl w) k = Some x" by simp_all
  with \<open>I (cl w)\<close> keyedD [OF assms(2)] show "I (cl w') \<and> keyOf (meta x) = k" by metis
next
  fix w e w' assume "I (cl w)" "op k w = (Inl e, w')"
  with assms(1) [unfolded lawfulGet_def, THEN spec, of k, THEN spec, of w] show "I (cl w')" by simp
qed

text \<open>A delete of an object that was read by its name.\<close>

lemma triple_delete:
  assumes "lawfulDelete lib op meta cl sel put"
    and "\<And>c z. I c \<Longrightarrow> I (put ((sel c)(k := z)) c)"
  shows "triple (\<lambda>w. I (cl w) \<and> keyOf (meta x) = k) (op x) (\<lambda>_ w. I (cl w)) (\<lambda>_ w. I (cl w))"
proof (cases "keyOf (meta x) = k")
  case True
  with keeps_delete [OF assms(1), of I x] assms(2) show ?thesis by (simp add: keeps_triple)
next
  case False
  then show ?thesis by (simp add: triple_def)
qed

section \<open>Finalization\<close>

lemma keeps_finalize:
  assumes "lawfulClient lib c cl"
    and ds: "\<And>x z. I x \<Longrightarrow> I (x\<lparr>cl_DaemonSets := (cl_DaemonSets x)
      (NN (dc_Namespace d) (dc_Name d @ ''-node-metrics'') := z)\<rparr>)"
    and mods: "\<And>x z. I x \<Longrightarrow> I (x\<lparr>cl_Modules := (cl_Modules x)(NN (dc_Namespace d) (dc_Name d) := z)\<rparr>)"
    and labels: "\<And>x x' ns r. I x \<Longrightarrow> unlabelling (versionLabel lib d) x x' ns r \<Longrightarrow>
      (\<And>n. n \<in> set ns \<Longrightarrow> stored x n) \<Longrightarrow> I x'"
    and patch: "\<And>x d' fs. I x \<Longrightarrow> cl_DeviceConfigs x (keyOf (dc_Meta d)) = Some d' \<Longrightarrow>
      keyOf (dc_Meta d') = keyOf (dc_Meta d) \<Longrightarrow> I (storeDC (setFinalizers fs d') x)"
  shows "keeps (\<lambda>w. I (cl w)) (dcrh_finalizeDeviceConfig lib (operatorHelper lib c f b) d)"
proof -
  note law = lawfulClientD [OF assms(1)]
  have key: "keyOf (dc_Meta (setFinalizers fs d)) = keyOf (dc_Meta d)" for fs
    by (simp add: setFinalizers_def)
  have getDS: "triple (\<lambda>w. I (cl w)) (apiGet (DaemonSets c) k)
      (\<lambda>x w. I (cl w) \<and> keyOf (ds_Meta x) = k) (\<lambda>e w. I (cl w))" for k
    by (rule triple_get [OF law(4)]) (use law(1) in \<open>simp add: wellKeyed_def\<close>)
  have getMod: "triple (\<lambda>w. I (cl w)) (apiGet (Modules c) k)
      (\<lambda>x w. I (cl w) \<and> keyOf (mod_Meta x) = k) (\<lambda>e w. I (cl w))" for k
    by (rule triple_get [OF law(5)]) (use law(1) in \<open>simp add: wellKeyed_def\<close>)
  note delDS = triple_delete [OF law(9), of I "NN (dc_Namespace d) (dc_Name d @ ''-node-metrics'')"]
  note delMod = triple_delete [OF law(10), of I "NN (dc_Namespace d) (dc_Name d)"]
  have last: "keeps (\<lambda>w. I (cl w)) (bindE (wrapE g (upgradeImpl_RemoveUpgradeLabels lib c d))
      (\<lambda>_. apiPatch (DeviceConfigs c) (setFinalizers fs d) d))" for g fs
    by (intro keeps_bind keeps_wrap keeps_unlabel [OF assms(1) labels] keeps_patchDC [OF assms(1)])
       (simp_all add: key patch)
  show ?thesis
    unfolding dcrh_finalizeDeviceConfig_def Let_def newHelper_simps NewUpgradeAPI_simps keeps_triple
    by (intro triple_if triple_try [OF getDS] triple_try [OF getMod] triple_bind [OF delDS] triple_try [OF delMod])
       (simp_all add: ds mods triple_ret triple_fail last [unfolded keeps_triple])
qed

section \<open>The helper's contract\<close>

text \<open>
  The part of \<open>Reconcile\<close> that follows setFinalizer. It relies on its five handlers: given
  a DeviceConfig with \<open>P\<close>, each keeps the invariant \<open>I\<close> whatever its outcome; the handler of
  the custom scheduler is only called when no DRA driver image is set.
\<close>

definition afterFinalizer :: "'w deviceConfigReconcilerHelperAPI \<Rightarrow> DeviceConfig \<Rightarrow> ('w, Result) io" where
  "afterFinalizer h devConfig =
     bindE (wrapE (\<lambda>err. Errorf ''failed to handle build ConfigMap for DeviceConfig: %v'' [] (Some err))
       (handleBuildConfigMap h devConfig)) (\<lambda>_.
     bindE (wrapE (\<lambda>err. Errorf ''failed to handle KMM module for DeviceConfig: %v'' [] (Some err))
       (handleKMMModule h devConfig)) (\<lambda>_.
     bindE (wrapE (\<lambda>err. Errorf ''failed to handle KMM module version upgrade for DeviceConfig: %v'' [] (Some err))
       (handleModuleVersionUpgrade h devConfig)) (\<lambda>_.
     bindE (if DRADriverImage (dc_Spec devConfig) = []
       then wrapE (\<lambda>err. Errorf ''failed to handle customScheduler for DeviceConfig: %v'' [] (Some err))
         (handleCustomScheduler h devConfig)
       else ret ()) (\<lambda>_.
     bindE (wrapE (\<lambda>err. Errorf ''failed to handle node metrics for DeviceConfig: %v'' [] (Some err))
       (handleNodeMetrics h devConfig)) (\<lambda>_. ret zeroResult)))))"

lemma Reconcile_deleted:
  "om_DeletionTimestamp (dc_Meta d) \<noteq> None \<Longrightarrow> Reconcile h d =
     bindE (wrapE (\<lambda>err. Errorf ''failed to finalize DeviceConfig: %v'' [] (Some err))
       (finalizeDeviceConfig h d)) (\<lambda>_. ret zeroResult)"
  by (simp add: Reconcile_def)

lemma Reconcile_alive:
  "om_DeletionTimestamp (dc_Meta d) = None \<Longrightarrow> Reconcile h d =
     bindE (wrapE (\<lambda>err. Errorf ''failed to set finalizer for DeviceConfig: %v'' [] (Some err))
       (setFinalizer h d)) (afterFinalizer h)"
  by (simp add: Reconcile_def afterFinalizer_def [abs_def])

locale reconciler_handlers =
  fixes h :: "'w deviceConfigReconcilerHelperAPI" and P :: "DeviceConfig \<Rightarrow> bool" and I :: "'w \<Rightarrow> bool"
  assumes build: "P d \<Longrightarrow> keeps I (handleBuildConfigMap h d)"
    and kmm: "P d \<Longrightarrow> keeps I (handleKMMModule h d)"
    and upgrade: "P d \<Longrightarrow> keeps I (handleModuleVersionUpgrade h d)"
    and scheduler: "P d \<Longrightarrow> DRADriverImage (dc_Spec d) = [] \<Longrightarrow> keeps I (handleCustomScheduler h d)"
    and metrics: "P d \<Longrightarrow> keeps I (handleNodeMetrics h d)"
begin

lemma afterFinalizer_keeps: "P d \<Longrightarrow> keeps I (afterFinalizer h d)"
  unfolding afterFinalizer_def
  by (intro keeps_bind keeps_wrap keeps_if keeps_ret build kmm upgrade scheduler metrics)

lemma afterFinalizer_triple: "triple (\<lambda>w. I w \<and> P d) (afterFinalizer h d) (\<lambda>_. I) (\<lambda>_. I)"
  by (cases "P d") (use afterFinalizer_keeps in \<open>simp_all add: keeps_triple triple_def\<close>)

end

text \<open>
  The whole of \<open>Reconcile\<close> relies on two operations more: the DeviceConfig that setFinalizer
  returns has \<open>P\<close> again.
\<close>

locale reconciler_helper = reconciler_handlers h P I
  for h :: "'w deviceConfigReconcilerHelperAPI" and P :: "DeviceConfig \<Rightarrow> bool" and I :: "'w \<Rightarrow> bool" +
  assumes set_finalizer: "P d \<Longrightarrow> triple I (setFinalizer h d) (\<lambda>d' w. I w \<and> P d') (\<lambda>_. I)"
    and finalize: "P d \<Longrightarrow> keeps I (finalizeDeviceConfig h d)"
begin

lemma Reconcile_keeps:
  assumes "P d"
  shows "keeps I (Reconcile h d)"
proof (cases "om_DeletionTimestamp (dc_Meta d) = None")
  case False
  then show ?thesis by (auto simp: Reconcile_deleted intro!: keeps_bind keeps_wrap finalize assms)
next
  case True
  show ?thesis unfolding Reconcile_alive [OF True] keeps_triple
    by (rule triple_bind [OF triple_wrap [OF set_finalizer [OF assms]] afterFinalizer_triple])
qed

end

section \<open>The real helper\<close>

text \<open>
  The writes to the cluster that an operation of the helper may do for the DeviceConfig
  named \<open>NN ns nm\<close>, working from a spec in \<open>S\<close>.
\<close>

inductive helper_write :: "library \<Rightarrow> string \<Rightarrow> string \<Rightarrow> DeviceConfigSpec set \<Rightarrow> cluster \<Rightarrow> cluster \<Rightarrow> bool"
  for lib :: library and ns nm :: string and S :: "DeviceConfigSpec set" where
  write_DeviceConfig: "cl_DeviceConfigs c (NN ns nm) = Some d \<Longrightarrow> keyOf (dc_Meta d) = NN ns nm \<Longrightarrow>
    helper_write lib ns nm S c (storeDC (setFinalizers fs d) c)"
| write_ConfigMap: "helper_write lib ns nm S c
    (c\<lparr>cl_ConfigMaps := (cl_ConfigMaps c)(NN ns (''dockerfile-'' @ nm) := cm)\<rparr>)"
| write_Module: "helper_write lib ns nm S c (c\<lparr>cl_Modules := (cl_Modules c)(NN ns nm := m)\<rparr>)"
| write_scheduler: "helper_write lib ns nm S c
    (c\<lparr>cl_Deployments := (cl_Deployments c)(NN ns (nm @ ''-custom-scheduler'') := dep)\<rparr>)"
| write_extension: "helper_write lib ns nm S c
    (c\<lparr>cl_Deployments := (cl_Deployments c)(NN ns (nm @ ''-custom-scheduler-extension'') := dep)\<rparr>)"
| write_metrics: "helper_write lib ns nm S c
    (c\<lparr>cl_DaemonSets := (cl_DaemonSets c)(NN ns (nm @ ''-node-metrics'') := ds)\<rparr>)"
| write_upgrade: "keyOf (dc_Meta d) = NN ns nm \<Longrightarrow> dc_Spec d \<in> S \<Longrightarrow>
    did lib d [Uncordon, Cordon, Start] c c' \<Longrightarrow> helper_write lib ns nm S c c'"
| write_unlabel: "unlabelling (getModuleVersionLabelName lib ns nm) c c' nodes r \<Longrightarrow>
    (\<And>n. n \<in> set nodes \<Longrightarrow> stored c n) \<Longrightarrow> helper_write lib ns nm S c c'"

definition writes :: "library \<Rightarrow> string \<Rightarrow> string \<Rightarrow> DeviceConfigSpec set \<Rightarrow> cluster \<Rightarrow> cluster \<Rightarrow> bool" where
  "writes lib ns nm S c0 c \<longleftrightarrow> (helper_write lib ns nm S)\<^sup>*\<^sup>* c0 c \<and>
     (\<forall>d. cl_DeviceConfigs c (NN ns nm) = Some d \<longrightarrow> dc_Spec d \<in> S)"

lemma writes_refl:
  "(\<And>d. cl_DeviceConfigs c (NN ns nm) = Some d \<Longrightarrow> dc_Spec d \<in> S) \<Longrightarrow> writes lib ns nm S c c"
  by (simp add: writes_def)

text \<open>No write of the helper changes a DeviceConfig's spec.\<close>

lemma helper_write_spec:
  "helper_write lib ns nm S c c' \<Longrightarrow> cl_DeviceConfigs c' (NN ns nm) = Some d' \<Longrightarrow>
     \<exists>d. cl_DeviceConfigs c (NN ns nm) = Some d \<and> dc_Spec d = dc_Spec d'"
proof (induction rule: helper_write.induct)
  case (write_upgrade d c c')
  then show ?case using did_frame by (auto simp: clusterFrame_def)
qed (auto simp: storeDC_def setFinalizers_def unlabelling_def sameButNodes_def split: if_splits)

lemma writes_step:
  "writes lib ns nm S c0 c \<Longrightarrow> helper_write lib ns nm S c c' \<Longrightarrow> writes lib ns nm S c0 c'"
  unfolding writes_def by (metis helper_write_spec rtranclp.rtrancl_into_rtrancl)

text \<open>Each operation of the real helper does such writes only.\<close>

lemma key_NN: "keyOf (dc_Meta d) = NN ns nm \<longleftrightarrow> dc_Namespace d = ns \<and> dc_Name d = nm"
  by (simp add: keyOf_def)

lemma writes_setFinalizer:
  assumes "lawfulClient lib c cl" and "keyOf (dc_Meta d) = NN ns nm" and "dc_Spec d \<in> S"
  shows "triple (\<lambda>w. writes lib ns nm S c0 (cl w))
    (dcrh_setFinalizer lib (operatorHelper lib c f b) d)
    (\<lambda>d' w. writes lib ns nm S c0 (cl w) \<and> keyOf (dc_Meta d') = NN ns nm \<and> dc_Spec d' \<in> S)
    (\<lambda>e w. writes lib ns nm S c0 (cl w))"
proof -
  let ?obj = "setFinalizers (addFinalizer lib (dc_Finalizers d) deviceConfigFinalizer) d"
  have k: "keyOf (dc_Meta (setFinalizers fs d')) = keyOf (dc_Meta d')" "dc_Spec (setFinalizers fs d') = dc_Spec d'"
    for fs d' by (simp_all add: setFinalizers_def)
  have "triple (\<lambda>w. writes lib ns nm S c0 (cl w)) (apiPatch (DeviceConfigs c) ?obj d)
      (\<lambda>new w. writes lib ns nm S c0 (cl w) \<and>
        (\<exists>d' fs. new = setFinalizers fs d' \<and> keyOf (dc_Meta d') = keyOf (dc_Meta ?obj) \<and> dc_Spec d' \<in> S))
      (\<lambda>e w. writes lib ns nm S c0 (cl w))"
  proof (rule triple_patchDC [OF assms(1)])
    fix x d' fs
    assume w: "writes lib ns nm S c0 x" and "cl_DeviceConfigs x (keyOf (dc_Meta ?obj)) = Some d'"
      and "keyOf (dc_Meta d') = keyOf (dc_Meta ?obj)"
    then have d': "cl_DeviceConfigs x (NN ns nm) = Some d'" "keyOf (dc_Meta d') = NN ns nm"
      using assms(2) k(1) by simp_all
    with w show "writes lib ns nm S c0 (storeDC (setFinalizers fs d') x) \<and> dc_Spec d' \<in> S"
      by (auto simp: writes_def intro!: writes_step [OF w, unfolded writes_def] write_DeviceConfig)
  qed
  then have "triple (\<lambda>w. writes lib ns nm S c0 (cl w)) (apiPatch (DeviceConfigs c) ?obj d)
    (\<lambda>d' w. writes lib ns nm S c0 (cl w) \<and> keyOf (dc_Meta d') = NN ns nm \<and> dc_Spec d' \<in> S)
    (\<lambda>e w. writes lib ns nm S c0 (cl w))"
    by (rule triple_conseq) (use assms(2) k in auto)
  with assms(2,3) show ?thesis
    by (auto simp: dcrh_setFinalizer_def Let_def intro!: triple_if triple_ret)
qed

lemma writes_handlers:
  fixes f :: string and b :: bool
  assumes "lawfulClient lib c cl" and "keyOf (dc_Meta d) = NN ns nm" and "dc_Spec d \<in> S"
  defines "H \<equiv> operatorHelper lib c f b"
  shows "keeps (\<lambda>w. writes lib ns nm S c0 (cl w)) (dcrh_handleBuildConfigMap H d)"
    and "keeps (\<lambda>w. writes lib ns nm S c0 (cl w)) (dcrh_handleKMMModule H d)"
    and "keeps (\<lambda>w. writes lib ns nm S c0 (cl w)) (dcrh_handleModuleVersionUpgrade H d)"
    and "keeps (\<lambda>w. writes lib ns nm S c0 (cl w)) (dcrh_handleCustomScheduler lib H d)"
    and "keeps (\<lambda>w. writes lib ns nm S c0 (cl w)) (dcrh_handleNodeMetrics H d)"
    and "keeps (\<lambda>w. writes lib ns nm S c0 (cl w)) (dcrh_finalizeDeviceConfig lib H d)"
proof -
  from assms(2) have n: "dc_Namespace d = ns" "dc_Name d = nm" by (simp_all add: key_NN)
  show "keeps (\<lambda>w. writes lib ns nm S c0 (cl w)) (dcrh_handleBuildConfigMap H d)"
    unfolding H_def by (rule keeps_build [OF assms(1)]) (unfold n, erule writes_step, rule write_ConfigMap)
  show "keeps (\<lambda>w. writes lib ns nm S c0 (cl w)) (dcrh_handleKMMModule H d)"
    unfolding H_def by (rule keeps_kmm [OF assms(1)]) (unfold n, erule writes_step, rule write_Module)
  show "keeps (\<lambda>w. writes lib ns nm S c0 (cl w)) (dcrh_handleModuleVersionUpgrade H d)"
    unfolding H_def
    by (rule keeps_upgrade [OF assms(1)]) (blast intro: writes_step write_upgrade [OF assms(2,3)])
  show "keeps (\<lambda>w. writes lib ns nm S c0 (cl w)) (dcrh_handleCustomScheduler lib H d)"
    unfolding H_def
    by (rule keeps_scheduler [OF assms(1)])
       (unfold n, (erule writes_step, rule write_scheduler), (erule writes_step, rule write_extension))
  show "keeps (\<lambda>w. writes lib ns nm S c0 (cl w)) (dcrh_handleNodeMetrics H d)"
    unfolding H_def by (rule keeps_metrics [OF assms(1)]) (unfold n, erule writes_step, rule write_metrics)
  show "keeps (\<lambda>w. writes lib ns nm S c0 (cl w)) (dcrh_finalizeDeviceConfig lib H d)"
    unfolding H_def
  proof (rule keeps_finalize [OF assms(1)], goal_cases)
    case (1 x z)
    from writes_step [OF this write_metrics] show ?case unfolding n .
  next
    case (2 x z)
    from writes_step [OF this write_Module] show ?case unfolding n .
  next
    case (3 x x' ns' r)
    from 3(2) have "unlabelling (getModuleVersionLabelName lib ns nm) x x' ns' r" unfolding n .
    from writes_step [OF 3(1) write_unlabel [OF this 3(3)]] show ?case .
  next
    case (4 x d' fs)
    from 4(2,3) have "cl_DeviceConfigs x (NN ns nm) = Some d'" "keyOf (dc_Meta d') = NN ns nm"
      unfolding assms(2) .
    from writes_step [OF 4(1) write_DeviceConfig [OF this]] show ?case .
  qed
qed

interpretation real: reconciler_helper "operatorReconciler lib c f b"
  "\<lambda>d. lawfulClient lib c cl \<longrightarrow> keyOf (dc_Meta d) = NN ns nm \<and> dc_Spec d \<in> S"
  "\<lambda>w. lawfulClient lib c cl \<longrightarrow> writes lib ns nm S c0 (cl w)"
  for lib c f b ns nm S cl c0
proof (cases "lawfulClient lib c cl")
  case True
  then show "reconciler_helper (operatorReconciler lib c f b)
     (\<lambda>d. lawfulClient lib c cl \<longrightarrow> keyOf (dc_Meta d) = NN ns nm \<and> dc_Spec d \<in> S)
     (\<lambda>w. lawfulClient lib c cl \<longrightarrow> writes lib ns nm S c0 (cl w))"
    by unfold_locales (simp_all add: writes_handlers writes_setFinalizer)
next
  case False
  then show "reconciler_helper (operatorReconciler lib c f b)
     (\<lambda>d. lawfulClient lib c cl \<longrightarrow> keyOf (dc_Meta d) = NN ns nm \<and> dc_Spec d \<in> S)
     (\<lambda>w. lawfulClient lib c cl \<longrightarrow> writes lib ns nm S c0 (cl w))"
    by unfold_locales (simp_all add: keeps_def triple_def)
qed

lemma Reconcile_writes:
  assumes "lawfulClient lib c cl" and "dc_Spec d \<in> S"
    and "\<And>d'. cl_DeviceConfigs (cl w) (keyOf (dc_Meta d)) = Some d' \<Longrightarrow> dc_Spec d' \<in> S"
    and "Reconcile (operatorReconciler lib c f b) d w = (r, w')"
  shows "writes lib (dc_Namespace d) (dc_Name d) S (cl w) (cl w')"
proof -
  have "keeps (\<lambda>v. lawfulClient lib c cl \<longrightarrow> writes lib (dc_Namespace d) (dc_Name d) S (cl w) (cl v))
      (Reconcile (operatorReconciler lib c f b) d)"
    by (rule real.Reconcile_keeps) (simp add: assms(2) keyOf_def)
  moreover have "writes lib (dc_Namespace d) (dc_Name d) S (cl w) (cl w)"
    by (rule writes_refl) (use assms(3) in \<open>simp add: keyOf_def\<close>)
  ultimately show ?thesis using assms(1,4) by (simp add: keeps_def) (metis snd_conv)
qed

lemma helper_write_footprint:
  "helper_write lib (dc_Namespace d) (dc_Name d) S c c' \<Longrightarrow> footprint lib d c c'"
proof (induction rule: helper_write.induct)
  case (write_DeviceConfig c d' fs)
  then show ?case by (intro storeDC_footprint) (simp_all add: keyOf_def)
next
  case (write_upgrade d' c c')
  from did_footprint [OF write_upgrade(3)] footprint_key [of d' d lib c c'] write_upgrade(1)
  show ?case by (simp add: keyOf_def)
next
  case (write_unlabel c c' nodes r)
  then show ?case by (rule unlabelling_footprint)
qed (auto simp: footprint_def Let_def option.rel_refl)

lemma writes_footprint: "writes lib (dc_Namespace d) (dc_Name d) S c c' \<Longrightarrow> footprint lib d c c'"
proof -
  assume "writes lib (dc_Namespace d) (dc_Name d) S c c'"
  then have "(helper_write lib (dc_Namespace d) (dc_Name d) S)\<^sup>*\<^sup>* c c'" by (simp add: writes_def)
  then show ?thesis
    by (induction rule: rtranclp_induct) (auto intro: footprint_trans helper_write_footprint)
qed

section \<open>Properties\<close>

text \<open>
  The footprint of a whole reconciliation, without interference. Whatever its outcome, it
  touches only the objects named after its DeviceConfig; of the DeviceConfig it changes only
  the finalizers; on nodes it changes only the version label and the upgrade taint, and it
  neither adds nor removes a node.
\<close>

theorem Reconcile_footprint:
  assumes "lawfulClient lib c cl" and "Reconcile (operatorReconciler lib c f b) d w = (r, w')"
  shows "footprint lib d (cl w) (cl w')"
  by (rule writes_footprint [OF Reconcile_writes [OF assms(1) UNIV_I _ assms(2)]]) simp

lemma Reconcile_footprint_witness:
  "\<exists>w'. Reconcile (operatorReconciler memLib memClient ''FROM'' False) (exDC ''2'')
       (exWorld [exFresh ''a'', exFresh ''b''] [exDC ''2'']) = (Inr zeroResult, w') \<and>
     footprint memLib (exDC ''2'') (memCluster (exWorld [exFresh ''a'', exFresh ''b''] [exDC ''2'']))
       (memCluster w') \<and> m_Nodes w' = [exStarted ''b'', exFresh ''a'']"
proof -
  obtain w' where run: "Reconcile (operatorReconciler memLib memClient ''FROM'' False) (exDC ''2'')
      (exWorld [exFresh ''a'', exFresh ''b''] [exDC ''2'']) = (Inr zeroResult, w')"
    and "m_Nodes w' = [exStarted ''b'', exFresh ''a'']"
    using ex_Reconcile [OF ex_upgrade] by blast
  with Reconcile_footprint [OF lawfulClient_mem run] show ?thesis by blast
qed

end
