(* ===== verification/Finalize.thy ===== *)
theory Finalize
  imports Reconciler
begin

text \<open>
  The life of the finalizer: it is set before anything is created, and it is given back
  only when the metrics DaemonSet and the KMM Module are gone and no node carries the
  version label; a bounded number of successful reconciliations gets there.
\<close>

section \<open>Set before anything is created\<close>

text \<open>The DeviceConfigs of the cluster are none of the five handlers' business.\<close>

lemma keeps_DeviceConfigs:
  assumes "lawfulClient lib c cl"
  shows "keeps (\<lambda>w. cl_DeviceConfigs (cl w) = m) (dcrh_handleBuildConfigMap (operatorHelper lib c f b) d)"
    and "keeps (\<lambda>w. cl_DeviceConfigs (cl w) = m) (dcrh_handleKMMModule (operatorHelper lib c f b) d)"
    and "keeps (\<lambda>w. cl_DeviceConfigs (cl w) = m)
      (dcrh_handleModuleVersionUpgrade (operatorHelper lib c f b) d)"
    and "keeps (\<lambda>w. cl_DeviceConfigs (cl w) = m)
      (dcrh_handleCustomScheduler lib (operatorHelper lib c f b) d)"
    and "keeps (\<lambda>w. cl_DeviceConfigs (cl w) = m) (dcrh_handleNodeMetrics (operatorHelper lib c f b) d)"
proof -
  let ?I = "\<lambda>c. cl_DeviceConfigs c = m"
  show "keeps (\<lambda>w. cl_DeviceConfigs (cl w) = m) (dcrh_handleModuleVersionUpgrade (operatorHelper lib c f b) d)"
    by (rule keeps_upgrade [where I = ?I, OF assms]) (auto dest!: did_frame simp: clusterFrame_def)
qed (rule keeps_build [where I = "\<lambda>c. cl_DeviceConfigs c = m", OF assms]
      keeps_kmm [where I = "\<lambda>c. cl_DeviceConfigs c = m", OF assms]
      keeps_scheduler [where I = "\<lambda>c. cl_DeviceConfigs c = m", OF assms]
      keeps_metrics [where I = "\<lambda>c. cl_DeviceConfigs c = m", OF assms]; simp)+

interpretation devconfigs: reconciler_handlers "operatorReconciler lib c f b" "\<lambda>d. True"
  "\<lambda>w. lawfulClient lib c cl \<longrightarrow> cl_DeviceConfigs (cl w) = m" for lib c f b cl m
proof (cases "lawfulClient lib c cl")
  case True
  then show "reconciler_handlers (operatorReconciler lib c f b) (\<lambda>d. True)
      (\<lambda>w. lawfulClient lib c cl \<longrightarrow> cl_DeviceConfigs (cl w) = m)"
    by unfold_locales (simp_all add: keeps_DeviceConfigs)
next
  case False
  then show "reconciler_handlers (operatorReconciler lib c f b) (\<lambda>d. True)
      (\<lambda>w. lawfulClient lib c cl \<longrightarrow> cl_DeviceConfigs (cl w) = m)"
    by unfold_locales (simp_all add: keeps_def)
qed

definition holdsFinalizer :: "DeviceConfig \<Rightarrow> cluster \<Rightarrow> bool" where
  "holdsFinalizer d c \<longleftrightarrow> (\<exists>d'. cl_DeviceConfigs c (keyOf (dc_Meta d)) = Some d' \<and>
     deviceConfigFinalizer \<in> set (dc_Finalizers d'))"

lemma patchDC_exact:
  assumes "lawfulClient lib c cl"
  shows "case apiPatch (DeviceConfigs c) obj base w of
      (Inl e, w') \<Rightarrow> cl w' = cl w \<or> (\<exists>srv. cl_DeviceConfigs (cl w) (keyOf (dc_Meta obj)) = Some srv \<and>
        cl w' = storeDC (setFinalizers (mergedList (dc_Finalizers base) (dc_Finalizers obj) (dc_Finalizers srv)) srv) (cl w))
    | (Inr new, w') \<Rightarrow> (\<exists>srv. cl_DeviceConfigs (cl w) (keyOf (dc_Meta obj)) = Some srv \<and>
        new = setFinalizers (mergedList (dc_Finalizers base) (dc_Finalizers obj) (dc_Finalizers srv)) srv \<and>
        cl w' = storeDC new (cl w))"
  using lawfulClientD(8) [OF assms(1), unfolded lawfulPatchDC_def Let_def, THEN spec, of obj,
      THEN spec, of base, THEN spec, of w]
  by (auto simp: dcMerged_finalizers split: prod.splits sum.splits)

lemma setFinalizers_simps [simp]:
  "dc_Finalizers (setFinalizers fs d) = fs" "keyOf (dc_Meta (setFinalizers fs d)) = keyOf (dc_Meta d)"
  "om_DeletionTimestamp (dc_Meta (setFinalizers fs d)) = om_DeletionTimestamp (dc_Meta d)"
  "dc_Spec (setFinalizers fs d) = dc_Spec d" "dc_Name (setFinalizers fs d) = dc_Name d"
  "dc_Namespace (setFinalizers fs d) = dc_Namespace d"
  by (simp_all add: setFinalizers_def)

lemma storeDC_at: "cl_DeviceConfigs (storeDC d c) k = (if k = keyOf (dc_Meta d) then
    (if dc_Finalizers d = [] \<and> om_DeletionTimestamp (dc_Meta d) \<noteq> None then None else Some d)
    else cl_DeviceConfigs c k)"
  by (simp add: storeDC_def)

lemma setFinalizer_holds:
  assumes "lawfulClient lib c cl" and "lawfulFinalizers lib" and "cl_DeviceConfigs (cl w) (keyOf (dc_Meta d)) = Some d"
    and "dcrh_setFinalizer lib (operatorHelper lib c f b) d w = (r, w')"
  shows "r = Inr d' \<Longrightarrow> holdsFinalizer d (cl w')" and "isl r \<Longrightarrow> cl w' = cl w \<or> holdsFinalizer d (cl w')"
proof -
  have cf: "containsFinalizer lib fs x \<longleftrightarrow> x \<in> set fs" "x \<in> set (addFinalizer lib fs x)" for fs x
    using assms(2) by (auto simp: lawfulFinalizers_def)
  have "(\<forall>d'. r = Inr d' \<longrightarrow> holdsFinalizer d (cl w')) \<and> (isl r \<longrightarrow> cl w' = cl w \<or> holdsFinalizer d (cl w'))"
  proof (cases "deviceConfigFinalizer \<in> set (dc_Finalizers d)")
    case True
    with assms(3,4) show ?thesis by (auto simp: dcrh_setFinalizer_def cf holdsFinalizer_def)
  next
    case False
    let ?fs = "addFinalizer lib (dc_Finalizers d) deviceConfigFinalizer"
    have new: "deviceConfigFinalizer \<in> set ?fs" "?fs \<noteq> dc_Finalizers d" "?fs \<noteq> []"
      using cf(2) [of deviceConfigFinalizer "dc_Finalizers d"] False by auto
    have "apiPatch (DeviceConfigs c) (setFinalizers ?fs d) d w = (r, w')"
      using assms(4) False by (simp add: dcrh_setFinalizer_def cf Let_def)
    with patchDC_exact [OF assms(1), where obj = "setFinalizers ?fs d" and base = d and w = w] assms(3) new show ?thesis
      by (cases r) (auto simp: holdsFinalizer_def storeDC_at mergedList_def)
  qed
  then show "r = Inr d' \<Longrightarrow> holdsFinalizer d (cl w')" and "isl r \<Longrightarrow> cl w' = cl w \<or> holdsFinalizer d (cl w')"
    by blast+
qed

section \<open>What one finalization does\<close>

text \<open>
  One call works on one of four stages: the metrics DaemonSet, the Module, the labels, the
  finalizer. \<open>finalize_outcome\<close> lists what it may leave behind, with its result.
\<close>

definition goneOrMarked :: "('o \<Rightarrow> ObjectMeta) \<Rightarrow> 'o option \<Rightarrow> bool" where
  "goneOrMarked meta x \<longleftrightarrow> (case x of None \<Rightarrow> True | Some y \<Rightarrow> om_DeletionTimestamp (meta y) \<noteq> None)"

abbreviation metricsKey :: "DeviceConfig \<Rightarrow> nsname" where
  "metricsKey d \<equiv> NN (dc_Namespace d) (dc_Name d @ ''-node-metrics'')"

abbreviation ownKey :: "DeviceConfig \<Rightarrow> nsname" where
  "ownKey d \<equiv> NN (dc_Namespace d) (dc_Name d)"

definition versionGone :: "library \<Rightarrow> DeviceConfig \<Rightarrow> cluster \<Rightarrow> bool" where
  "versionGone lib d c \<longleftrightarrow> (\<forall>k n. cl_Nodes c k = Some n \<longrightarrow>
     mapGet (node_Labels n) (versionLabel lib d) \<noteq> Some (wanted d))"

inductive finalize_outcome ::
  "library \<Rightarrow> DeviceConfig \<Rightarrow> cluster \<Rightarrow> goerr + DeviceConfig \<Rightarrow> cluster \<Rightarrow> bool"
  for lib :: library and d :: DeviceConfig where
  outcome_nothing: "isl r \<Longrightarrow> finalize_outcome lib d c r c"
| outcome_metrics: "cl_DaemonSets c (metricsKey d) \<noteq> None \<Longrightarrow> isl r \<or> goneOrMarked ds_Meta z \<Longrightarrow>
    finalize_outcome lib d c r (c\<lparr>cl_DaemonSets := (cl_DaemonSets c)(metricsKey d := z)\<rparr>)"
| outcome_module: "cl_DaemonSets c (metricsKey d) = None \<Longrightarrow> cl_Modules c (ownKey d) \<noteq> None \<Longrightarrow>
    isl r \<or> goneOrMarked mod_Meta z \<Longrightarrow>
    finalize_outcome lib d c r (c\<lparr>cl_Modules := (cl_Modules c)(ownKey d := z)\<rparr>)"
| outcome_labels: "cl_DaemonSets c (metricsKey d) = None \<Longrightarrow> cl_Modules c (ownKey d) = None \<Longrightarrow>
    sameButNodes c c' \<Longrightarrow> isl r \<Longrightarrow> finalize_outcome lib d c r c'"
| outcome_release: "cl_DaemonSets c (metricsKey d) = None \<Longrightarrow> cl_Modules c (ownKey d) = None \<Longrightarrow>
    sameButNodes c c1 \<Longrightarrow> versionGone lib d c1 \<Longrightarrow>
    cl_DeviceConfigs c (ownKey d) = Some srv \<Longrightarrow> keyOf (dc_Meta srv) = ownKey d \<Longrightarrow>
    finalize_outcome lib d c r (storeDC (setFinalizers (mergedList (dc_Finalizers d)
      (removeFinalizer lib (dc_Finalizers d) deviceConfigFinalizer) (dc_Finalizers srv)) srv) c1)"

lemma lawful_get:
  assumes "lawfulGet lib op cl sel" and "op k w = (r, w')"
  shows "cl w' = cl w" and "r = Inr x \<Longrightarrow> sel (cl w) k = Some x"
    and "r = Inl e \<Longrightarrow> isNotFound lib e \<Longrightarrow> sel (cl w) k = None"
  using assms(1) [unfolded lawfulGet_def, THEN spec, of k, THEN spec, of w] assms(2) by auto

lemma lawful_delete:
  assumes "lawfulDelete lib op meta cl sel put" and "lens sel put" and "keyOf (meta x) = k" and "op x w = (r, w')"
  shows "\<exists>z. cl w' = put ((sel (cl w))(k := z)) (cl w) \<and>
    (\<not> isl r \<or> (\<exists>e. r = Inl e \<and> isNotFound lib e) \<longrightarrow> goneOrMarked meta z)"
proof -
  note law = assms(1) [unfolded lawfulDelete_def Let_def, THEN spec, of x, THEN spec, of w, unfolded assms(3,4)]
  have same: "put ((sel (cl w))(k := sel (cl w) k)) (cl w) = cl w" and
    get: "\<And>m. sel (put m (cl w)) = m" using assms(2) by (simp_all add: lens_def)
  show ?thesis
  proof (cases r)
    case (Inr u)
    with law obtain z where "cl w' = put ((sel (cl w))(k := z)) (cl w)" "goneOrMarked meta z"
      unfolding goneOrMarked_def by (auto split: option.splits)
    then show ?thesis by blast
  next
    case (Inl e)
    with law have z: "cl w' = cl w \<or> (\<exists>z. cl w' = put ((sel (cl w))(k := z)) (cl w))"
      and nf: "isNotFound lib e \<Longrightarrow> sel (cl w') k = None" by auto
    then obtain z where z: "cl w' = put ((sel (cl w))(k := z)) (cl w)" using same by metis
    with nf have "isNotFound lib e \<Longrightarrow> z = None" using get by (metis fun_upd_same)
    with z Inl show ?thesis by (auto simp: goneOrMarked_def)
  qed
qed

lemma RemoveUpgradeLabels_outcome:
  assumes "lawfulClient lib c cl" and "upgradeImpl_RemoveUpgradeLabels lib c d w = (r, w')"
  shows "sameButNodes (cl w) (cl w')" and "r = Inr () \<Longrightarrow> versionGone lib d (cl w')"
proof -
  have "keeps (\<lambda>v. sameButNodes (cl w) (cl v)) (upgradeImpl_RemoveUpgradeLabels lib c d)"
    by (rule keeps_unlabel [OF assms(1)]) (auto simp: sameButNodes_def unlabelling_def)
  with assms(2) show "sameButNodes (cl w) (cl w')"
    unfolding keeps_def by (metis sameButNodes_refl snd_conv)
  assume "r = Inr ()"
  with assms(2) have run: "upgradeImpl_RemoveUpgradeLabels lib c d w = (Inr (), w')" by simp
  note spec = RemoveUpgradeLabels_spec [OF assms(1) run, THEN conjunct2, THEN spec]
  show "versionGone lib d (cl w')" unfolding versionGone_def
  proof (intro allI impI)
    fix k n' assume n': "cl_Nodes (cl w') k = Some n'"
    with spec [of k] show "mapGet (node_Labels n') (versionLabel lib d) \<noteq> Some (wanted d)"
      by (cases "cl_Nodes (cl w) k") (auto simp: unlabelled_def nodeIs_labels split: if_splits)
  qed
qed

lemma release_step:
  assumes "lawfulClient lib c cl" and "cl_DaemonSets (cl w) (metricsKey d) = None" and "cl_Modules (cl w) (ownKey d) = None"
    and "bindE (wrapE g (upgradeImpl_RemoveUpgradeLabels lib c d)) (\<lambda>_.
      apiPatch (DeviceConfigs c) (setFinalizers (removeFinalizer lib (dc_Finalizers d) deviceConfigFinalizer) d) d) w
      = (r, w')"
  shows "finalize_outcome lib d (cl w) r (cl w')"
proof -
  obtain r1 w1 where l: "upgradeImpl_RemoveUpgradeLabels lib c d w = (r1, w1)" by fastforce
  note off = RemoveUpgradeLabels_outcome [OF assms(1) l]
  show ?thesis
  proof (cases r1)
    case (Inl e)
    with assms(4) l have "w' = w1" "isl r" by (auto simp: bindE_def wrapE_def tryE_def)
    with off(1) assms(2,3) show ?thesis by (simp add: outcome_labels)
  next
    case (Inr u)
    let ?obj = "setFinalizers (removeFinalizer lib (dc_Finalizers d) deviceConfigFinalizer) d"
    from assms(4) l Inr have p: "apiPatch (DeviceConfigs c) ?obj d w1 = (r, w')"
      by (simp add: bindE_def wrapE_def tryE_def)
    have key: "keyOf (dc_Meta ?obj) = ownKey d" by (simp add: keyOf_def)
    note patch = patchDC_exact [OF assms(1), where obj = ?obj and base = d and w = w1, unfolded p key]
    show ?thesis
    proof (cases "cl w' = cl w1 \<and> isl r")
      case True
      with off(1) assms(2,3) show ?thesis by (simp add: outcome_labels)
    next
      case False
      with patch obtain srv where srv: "cl_DeviceConfigs (cl w1) (ownKey d) = Some srv" and
        w': "cl w' = storeDC (setFinalizers (mergedList (dc_Finalizers d)
          (removeFinalizer lib (dc_Finalizers d) deviceConfigFinalizer) (dc_Finalizers srv)) srv) (cl w1)"
        by (cases r) auto
      have "cl_DeviceConfigs (cl w) (ownKey d) = Some srv" using srv off(1) by (simp add: sameButNodes_def)
      moreover have "keyOf (dc_Meta srv) = ownKey d"
        by (rule wellKeyed_key(4) [OF lawfulClientD(1) [OF assms(1)] srv])
      ultimately show ?thesis unfolding w'
        using outcome_release [OF assms(2,3) off(1)] off(2) Inr by simp
    qed
  qed
qed

lemma module_step:
  assumes "lawfulClient lib c cl" and "cl_DaemonSets (cl w) (metricsKey d) = None"
    and "tryE (apiGet (Modules c) (ownKey d)) (\<lambda>err. if \<not> isNotFound lib err then fail (g1 err)
         else bindE (wrapE g (upgradeImpl_RemoveUpgradeLabels lib c d)) (\<lambda>_.
           apiPatch (DeviceConfigs c) (setFinalizers (removeFinalizer lib (dc_Finalizers d) deviceConfigFinalizer) d) d))
       (\<lambda>m. tryE (apiDelete (Modules c) m)
          (\<lambda>err. if \<not> isNotFound lib err then fail (g2 err) else ret d) (\<lambda>_. ret d)) w = (r, w')"
  shows "finalize_outcome lib d (cl w) r (cl w')"
proof -
  obtain r1 w1 where get: "apiGet (Modules c) (ownKey d) w = (r1, w1)" by fastforce
  note got = lawful_get [OF lawfulClientD(5) [OF assms(1)] get]
  show ?thesis
  proof (cases r1)
    case (Inl e)
    show ?thesis
    proof (cases "isNotFound lib e")
      case True
      from got(3) [OF Inl True] got(1) have "cl_Modules (cl w1) (ownKey d) = None" by simp
      moreover have "cl_DaemonSets (cl w1) (metricsKey d) = None" using assms(2) got(1) by simp
      ultimately have "finalize_outcome lib d (cl w1) r (cl w')"
        by (intro release_step [OF assms(1)]) (use assms(3) get Inl True in \<open>simp_all add: tryE_def\<close>)
      then show ?thesis using got(1) by simp
    next
      case False
      with assms(3) get Inl got(1) show ?thesis by (auto simp: tryE_def intro: outcome_nothing)
    qed
  next
    case (Inr m)
    from got(2) [OF Inr] have m: "cl_Modules (cl w) (ownKey d) = Some m" .
    have key: "keyOf (mod_Meta m) = ownKey d"
      by (rule wellKeyed_key(2) [OF lawfulClientD(1) [OF assms(1)] m])
    obtain r2 w2 where del: "apiDelete (Modules c) m w1 = (r2, w2)" by fastforce
    from lawful_delete [OF lawfulClientD(10) [OF assms(1)] _ key del] obtain z where
      z: "cl w2 = (cl w1)\<lparr>cl_Modules := (cl_Modules (cl w1))(ownKey d := z)\<rparr>"
        "\<not> isl r2 \<or> (\<exists>e. r2 = Inl e \<and> isNotFound lib e) \<longrightarrow> goneOrMarked mod_Meta z" by auto
    have "w' = w2" "isl r \<or> goneOrMarked mod_Meta z"
      using assms(3) get Inr del z(2) by (auto simp: tryE_def split: sum.splits if_splits)
    with z(1) m assms(2) got(1) show ?thesis by (simp add: outcome_module)
  qed
qed

lemma finalize_run:
  assumes "lawfulClient lib c cl"
    and "dcrh_finalizeDeviceConfig lib (operatorHelper lib c f b) d w = (r, w')"
  shows "finalize_outcome lib d (cl w) r (cl w')"
proof -
  obtain r1 w1 where get: "apiGet (DaemonSets c) (metricsKey d) w = (r1, w1)" by fastforce
  note got = lawful_get [OF lawfulClientD(4) [OF assms(1)] get]
  note run = assms(2) [unfolded dcrh_finalizeDeviceConfig_def Let_def newHelper_simps NewUpgradeAPI_simps]
  show ?thesis
  proof (cases r1)
    case (Inl e)
    show ?thesis
    proof (cases "isNotFound lib e")
      case True
      from got(3) [OF Inl True] got(1) have "cl_DaemonSets (cl w1) (metricsKey d) = None" by simp
      from module_step [OF assms(1) this] run get Inl True
      have "finalize_outcome lib d (cl w1) r (cl w')" by (simp add: tryE_def [of "apiGet (DaemonSets c) _"])
      then show ?thesis using got(1) by simp
    next
      case False
      with run get Inl got(1) show ?thesis by (auto simp: tryE_def intro: outcome_nothing)
    qed
  next
    case (Inr x)
    from got(2) [OF Inr] have x: "cl_DaemonSets (cl w) (metricsKey d) = Some x" .
    have key: "keyOf (ds_Meta x) = metricsKey d"
      by (rule wellKeyed_key(3) [OF lawfulClientD(1) [OF assms(1)] x])
    obtain r2 w2 where del: "apiDelete (DaemonSets c) x w1 = (r2, w2)" by fastforce
    from lawful_delete [OF lawfulClientD(9) [OF assms(1)] _ key del] obtain z where
      z: "cl w2 = (cl w1)\<lparr>cl_DaemonSets := (cl_DaemonSets (cl w1))(metricsKey d := z)\<rparr>"
        "\<not> isl r2 \<longrightarrow> goneOrMarked ds_Meta z" by auto
    have "w' = w2" "isl r \<or> goneOrMarked ds_Meta z"
      using run get Inr del z(2) by (auto simp: tryE_def bindE_def split: sum.splits)
    with z(1) x got(1) show ?thesis by (simp add: outcome_metrics)
  qed
qed

section \<open>Rounds of finalization\<close>

text \<open>
  How many stages are left, from the state of the cluster: the finalizer is the last to go.
\<close>

definition stagesLeft :: "nsname \<Rightarrow> nsname \<Rightarrow> cluster \<Rightarrow> nat" where
  "stagesLeft k km c = (case cl_DeviceConfigs c k of None \<Rightarrow> 0 | Some d \<Rightarrow>
     if deviceConfigFinalizer \<notin> set (dc_Finalizers d) then 0
     else if cl_DaemonSets c km \<noteq> None then 3 else if cl_Modules c k \<noteq> None then 2 else 1)"

text \<open>
  Between two calls the objects that were deleted vanish (their own finalizers are done).
\<close>

definition reaped :: "nsname \<Rightarrow> nsname \<Rightarrow> cluster \<Rightarrow> cluster \<Rightarrow> bool" where
  "reaped k km c c' \<longleftrightarrow> cl_DeviceConfigs c' k = cl_DeviceConfigs c k \<and>
     cl_DaemonSets c' km = (if goneOrMarked ds_Meta (cl_DaemonSets c km) then None else cl_DaemonSets c km) \<and>
     cl_Modules c' k = (if goneOrMarked mod_Meta (cl_Modules c k) then None else cl_Modules c k)"

text \<open>One round: a reconciliation that succeeds, if the DeviceConfig still exists, then the reaping.\<close>

definition finalizeRound ::
  "library \<Rightarrow> ('w \<Rightarrow> cluster) \<Rightarrow> 'w deviceConfigReconcilerHelperAPI \<Rightarrow> string \<Rightarrow> string \<Rightarrow> 'w \<Rightarrow> 'w \<Rightarrow> bool" where
  "finalizeRound lib cl h ns nm w w' \<longleftrightarrow> (case cl_DeviceConfigs (cl w) (NN ns nm) of
     None \<Rightarrow> cl w' = cl w
   | Some d \<Rightarrow> \<exists>res w1. Reconcile h d w = (Inr res, w1) \<and>
       reaped (NN ns nm) (NN ns (nm @ ''-node-metrics'')) (cl w1) (cl w'))"

definition beingDeleted :: "string \<Rightarrow> string \<Rightarrow> cluster \<Rightarrow> bool" where
  "beingDeleted ns nm c \<longleftrightarrow> (\<forall>d. cl_DeviceConfigs c (NN ns nm) = Some d \<longrightarrow>
     om_DeletionTimestamp (dc_Meta d) \<noteq> None)"

text \<open>A successful call, on the DeviceConfig as it is stored, does away with one stage.\<close>

lemma outcome_stages:
  assumes "finalize_outcome lib d c (Inr d') c1" and "lawfulFinalizers lib"
    and "cl_DeviceConfigs c (ownKey d) = Some d" and "om_DeletionTimestamp (dc_Meta d) \<noteq> None"
    and "reaped (ownKey d) (metricsKey d) c1 c'"
  shows "beingDeleted (dc_Namespace d) (dc_Name d) c' \<and>
    (stagesLeft (ownKey d) (metricsKey d) c' < stagesLeft (ownKey d) (metricsKey d) c \<or>
     (stagesLeft (ownKey d) (metricsKey d) c = 0 \<and> stagesLeft (ownKey d) (metricsKey d) c' = 0))"
  using assms(1)
proof cases
  case (outcome_metrics z)
  with assms(3-5) show ?thesis by (auto simp: reaped_def beingDeleted_def stagesLeft_def)
next
  case (outcome_module z)
  with assms(3-5) show ?thesis
    by (auto simp: reaped_def beingDeleted_def stagesLeft_def goneOrMarked_def [of ds_Meta])
next
  case (outcome_release c0 srv)
  let ?fs = "removeFinalizer lib (dc_Finalizers d) deviceConfigFinalizer"
  from outcome_release(6) assms(3) have srv: "srv = d" by simp
  have fs: "deviceConfigFinalizer \<notin> set ?fs" using assms(2) by (simp add: lawfulFinalizers_def)
  have k: "keyOf (dc_Meta d) = ownKey d" by (simp add: keyOf_def)
  have "mergedList (dc_Finalizers d) ?fs (dc_Finalizers d) = ?fs" by simp
  then have at: "cl_DeviceConfigs c1 (ownKey d) = (if ?fs = [] then None else Some (setFinalizers ?fs d))"
    using assms(4) by (simp add: outcome_release(1) srv storeDC_at k)
  with assms(5) have "stagesLeft (ownKey d) (metricsKey d) c' = 0" "beingDeleted (dc_Namespace d) (dc_Name d) c'"
    using fs assms(4) by (auto simp: stagesLeft_def reaped_def beingDeleted_def)
  then show ?thesis by auto
qed simp_all

interpretation finalization: measured_rounds
  "finalizeRound lib cl (operatorReconciler lib c f b) ns nm"
  "\<lambda>w. lawfulClient lib c cl \<and> lawfulFinalizers lib \<and> beingDeleted ns nm (cl w)"
  "\<lambda>w. stagesLeft (NN ns nm) (NN ns (nm @ ''-node-metrics'')) (cl w)" for lib cl c f b ns nm
proof (unfold_locales, elim conjE)
  fix w w'
  assume step: "finalizeRound lib cl (operatorReconciler lib c f b) ns nm w w'"
    and inv: "lawfulClient lib c cl" "lawfulFinalizers lib" "beingDeleted ns nm (cl w)"
  let ?left = "\<lambda>w. stagesLeft (NN ns nm) (NN ns (nm @ ''-node-metrics'')) (cl w)"
  have "beingDeleted ns nm (cl w') \<and> (?left w' < ?left w \<or> (?left w = 0 \<and> ?left w' = 0))"
  proof (cases "cl_DeviceConfigs (cl w) (NN ns nm)")
    case None
    with step inv(3) show ?thesis by (simp add: finalizeRound_def stagesLeft_def)
  next
    case (Some d)
    have key: "keyOf (dc_Meta d) = NN ns nm"
      by (rule wellKeyed_key(4) [OF lawfulClientD(1) [OF inv(1)] Some])
    then have names: "dc_Namespace d = ns" "dc_Name d = nm" by (simp_all add: keyOf_def)
    have del: "om_DeletionTimestamp (dc_Meta d) \<noteq> None" using inv(3) Some by (simp add: beingDeleted_def)
    from step Some obtain res w1 where run: "Reconcile (operatorReconciler lib c f b) d w = (Inr res, w1)"
      and reap: "reaped (NN ns nm) (NN ns (nm @ ''-node-metrics'')) (cl w1) (cl w')"
      by (auto simp: finalizeRound_def)
    from run obtain d' where
      "dcrh_finalizeDeviceConfig lib (operatorHelper lib c f b) d w = (Inr d', w1)"
      by (auto simp: Reconcile_deleted [OF del] io_simps)
    from outcome_stages [OF finalize_run [OF inv(1) this] inv(2) _ del] Some reap
    show ?thesis by (simp add: names)
  qed
  with inv(1,2) show "(lawfulClient lib c cl \<and> lawfulFinalizers lib \<and> beingDeleted ns nm (cl w')) \<and>
     (?left w' < ?left w \<or> (?left w = 0 \<and> ?left w' = 0))" by blast
qed

section \<open>An example\<close>

text \<open>A DeviceConfig that is being deleted, with a finalizer of someone else beside the operator's.\<close>

definition exDying :: "string list \<Rightarrow> DeviceConfig" where
  "exDying fs = setFinalizers fs ((exDC ''2'')\<lparr>dc_Meta := (dc_Meta (exDC ''2''))\<lparr>om_DeletionTimestamp := Some ''now''\<rparr>\<rparr>)"

lemma exDying_simps [simp]:
  "dc_Name (exDying fs) = ''neuron''" "dc_Namespace (exDying fs) = ''ns''" "wanted (exDying fs) = ''2''"
  "keyOf (dc_Meta (exDying fs)) = NN ''ns'' ''neuron''" "dc_Finalizers (exDying fs) = fs"
  "om_DeletionTimestamp (dc_Meta (exDying fs)) = Some ''now''" "setFinalizers gs (exDying fs) = exDying gs"
  by (simp_all add: exDying_def setFinalizers_def keyOf_def)

lemma ex_finalize:
  assumes "fs \<in> {[deviceConfigFinalizer, ''other''], [''other'']}"
    and "n \<in> {exStarted ''a'', exFresh ''a''}"
  shows "dcrh_finalizeDeviceConfig memLib exHelper (exDying fs) (exWorld [n] [exDying fs]) =
    (Inr (exDying [''other'']), exWorld [exFresh ''a''] [exDying [''other'']])"
proof -
  have nf: "isNotFound memLib notFoundErr" "removeFinalizer memLib fs deviceConfigFinalizer = [''other'']"
    using assms(1) by (auto simp: memLib_def deviceConfigFinalizer_def)
  have labels: "upgradeImpl_RemoveUpgradeLabels memLib memClient (exDying fs) (exWorld [n] [exDying fs]) =
      (Inr (), exWorld [exFresh ''a''] [exDying fs])"
    using assms(2)
    by (auto simp: upgradeImpl_RemoveUpgradeLabels_def Let_def bindE_def wrapE_def tryE_def memClient_simps
        memList_def listing_def memPatchNode_def putObj_def removeKey_def exWorld_def emptyMem_def)
       (simp add: exNode_def nodeSetLabels_def mergedLabel_def mergedList_def fun_eq_iff)
  have "memPatchDC (exDying [''other'']) (exDying fs) (exWorld [exFresh ''a''] [exDying fs]) =
      (Inr (exDying [''other'']), exWorld [exFresh ''a''] [exDying [''other'']])"
    by (simp add: memPatchDC_def Let_def dcMerged_finalizers putObj_def removeKey_def mergedList_def exWorld_def emptyMem_def)
  with labels nf show ?thesis
    by (simp add: dcrh_finalizeDeviceConfig_def Let_def bindE_def wrapE_def tryE_def memClient_simps memGet_def)
qed

lemma ex_finalizeRound:
  assumes "fs \<in> {[deviceConfigFinalizer, ''other''], [''other'']}" and "n \<in> {exStarted ''a'', exFresh ''a''}"
  shows "finalizeRound memLib memCluster (operatorReconciler memLib memClient ''FROM'' False) ''ns'' ''neuron''
    (exWorld [n] [exDying fs]) (exWorld [exFresh ''a''] [exDying [''other'']])"
  by (simp add: finalizeRound_def Reconcile_deleted bindE_def wrapE_def tryE_def ex_finalize [OF assms] reaped_def)

section \<open>Properties\<close>

text \<open>
  The finalizer comes first, without interference. A reconciliation of a stored DeviceConfig that is not being
  deleted has changed nothing at all in the cluster unless the finalizer is on the
  DeviceConfig, whatever the outcome.
\<close>

theorem finalizer_before_objects:
  assumes "lawfulClient lib c cl" and "lawfulFinalizers lib"
    and "cl_DeviceConfigs (cl w) (keyOf (dc_Meta d)) = Some d" and "om_DeletionTimestamp (dc_Meta d) = None"
    and "Reconcile (operatorReconciler lib c f b) d w = (r, w')" and "cl w' \<noteq> cl w"
  shows "\<exists>d'. cl_DeviceConfigs (cl w') (keyOf (dc_Meta d)) = Some d' \<and>
    deviceConfigFinalizer \<in> set (dc_Finalizers d')"
proof -
  let ?h = "operatorReconciler lib c f b"
  obtain r1 w1 where s: "dcrh_setFinalizer lib (operatorHelper lib c f b) d w = (r1, w1)" by fastforce
  have "holdsFinalizer d (cl w')"
  proof (cases r1)
    case (Inl e)
    then have "w' = w1" using assms(5) s by (simp add: Reconcile_alive [OF assms(4)] bindE_def wrapE_def tryE_def)
    with setFinalizer_holds(2) [OF assms(1-3) s] Inl assms(6) show ?thesis by auto
  next
    case (Inr d')
    then have run: "afterFinalizer ?h d' w1 = (r, w')"
      using assms(5) s by (simp add: Reconcile_alive [OF assms(4)] bindE_def wrapE_def tryE_def)
    have "keeps (\<lambda>v. lawfulClient lib c cl \<longrightarrow> cl_DeviceConfigs (cl v) = cl_DeviceConfigs (cl w1)) (afterFinalizer ?h d')"
      by (rule devconfigs.afterFinalizer_keeps) simp
    then have "cl_DeviceConfigs (cl w') = cl_DeviceConfigs (cl w1)"
      using run assms(1) unfolding keeps_def by (metis snd_conv)
    with setFinalizer_holds(1) [OF assms(1-3) s Inr] show ?thesis by (simp add: holdsFinalizer_def)
  qed
  then show ?thesis by (simp add: holdsFinalizer_def)
qed

lemma finalizer_before_objects_witness:
  "\<exists>w'. Reconcile (operatorReconciler memLib memClient ''FROM'' False) (exDC ''2'')
       (exWorld [exFresh ''a'', exFresh ''b''] [exDC ''2'']) = (Inr zeroResult, w') \<and>
     (\<exists>d'. cl_DeviceConfigs (memCluster w') (NN ''ns'' ''neuron'') = Some d' \<and>
        deviceConfigFinalizer \<in> set (dc_Finalizers d'))"
proof -
  let ?w = "exWorld [exFresh ''a'', exFresh ''b''] [exDC ''2'']"
  obtain w' where run: "Reconcile (operatorReconciler memLib memClient ''FROM'' False) (exDC ''2'') ?w =
      (Inr zeroResult, w')" and nodes: "m_Nodes w' = [exStarted ''b'', exFresh ''a'']"
    using ex_Reconcile [OF ex_upgrade] by blast
  have "mapGet (node_Labels (the (cl_Nodes (memCluster w') (NN [] ''b'')))) exVersionLabel \<noteq>
      mapGet (node_Labels (the (cl_Nodes (memCluster ?w) (NN [] ''b'')))) exVersionLabel"
    by (simp add: nodes)
  then have "memCluster w' \<noteq> memCluster ?w" by metis
  with finalizer_before_objects [OF lawfulClient_mem lawfulFinalizers_mem _ _ run] run show ?thesis by simp
qed

text \<open>
  The finalizer goes last, without interference. Whatever the outcome of a finalization, if the DeviceConfig
  held the finalizer before and does not hold it, or does not exist, afterwards, then the
  metrics DaemonSet and the Module are gone and no node carries the label of its version.
\<close>

theorem finalizer_released_last:
  assumes "lawfulClient lib c cl" and "holdsFinalizer d (cl w)"
    and "dcrh_finalizeDeviceConfig lib (operatorHelper lib c f b) d w = (r, w')"
    and "\<not> holdsFinalizer d (cl w')"
  shows "cl_DaemonSets (cl w') (NN (dc_Namespace d) (dc_Name d @ ''-node-metrics'')) = None \<and>
    cl_Modules (cl w') (NN (dc_Namespace d) (dc_Name d)) = None \<and>
    (\<forall>k n. cl_Nodes (cl w') k = Some n \<longrightarrow>
       mapGet (node_Labels n) (versionLabel lib d) \<noteq> Some (wanted d))"
  using finalize_run [OF assms(1,3)]
proof cases
  case (outcome_release c1 srv)
  then show ?thesis by (simp add: storeDC_def sameButNodes_def versionGone_def)
qed (use assms(2,4) in \<open>simp_all add: holdsFinalizer_def sameButNodes_def\<close>)

lemma finalizer_released_last_witness:
  "dcrh_finalizeDeviceConfig memLib exHelper (exDying [deviceConfigFinalizer, ''other''])
       (exWorld [exStarted ''a''] [exDying [deviceConfigFinalizer, ''other'']]) =
     (Inr (exDying [''other'']), exWorld [exFresh ''a''] [exDying [''other'']]) \<and>
   cl_Modules (memCluster (exWorld [exFresh ''a''] [exDying [''other'']])) (NN ''ns'' ''neuron'') = None \<and>
   mapGet (node_Labels (exFresh ''a'')) exVersionLabel \<noteq> Some ''2''"
proof -
  let ?d = "exDying [deviceConfigFinalizer, ''other'']"
  have run: "dcrh_finalizeDeviceConfig memLib exHelper ?d (exWorld [exStarted ''a''] [?d]) =
     (Inr (exDying [''other'']), exWorld [exFresh ''a''] [exDying [''other'']])" by (rule ex_finalize) simp_all
  have "holdsFinalizer ?d (memCluster (exWorld [exStarted ''a''] [?d]))" by (simp add: holdsFinalizer_def)
  moreover have "\<not> holdsFinalizer ?d (memCluster (exWorld [exFresh ''a''] [exDying [''other'']]))"
    by (simp add: holdsFinalizer_def deviceConfigFinalizer_def)
  ultimately have "cl_Modules (memCluster (exWorld [exFresh ''a''] [exDying [''other'']])) (NN ''ns'' ''neuron'') = None"
    "cl_Nodes (memCluster (exWorld [exFresh ''a''] [exDying [''other'']])) k = Some n \<Longrightarrow>
       mapGet (node_Labels n) exVersionLabel \<noteq> Some ''2''" for k n
    using finalizer_released_last [OF lawfulClient_mem _ run] by simp_all
  from this(1) this(2) [of "NN [] ''a''" "exFresh ''a''"] run show ?thesis by simp
qed

text \<open>
  C7: deletion completes. While a DeviceConfig is being deleted, three successful
  reconciliations, each followed by the disappearance of what was deleted, release it:
  afterwards it does not exist or holds only finalizers of others.
\<close>

theorem finalization_completes:
  assumes "lawfulClient lib c cl" and "lawfulFinalizers lib" and "beingDeleted ns nm (cl w)"
    and "(finalizeRound lib cl (operatorReconciler lib c f b) ns nm ^^ n) w w'" and "3 \<le> n"
    and "cl_DeviceConfigs (cl w') (NN ns nm) = Some d"
  shows "deviceConfigFinalizer \<notin> set (dc_Finalizers d)"
proof -
  have "stagesLeft (NN ns nm) (NN ns (nm @ ''-node-metrics'')) (cl w) \<le> n"
    using assms(5) by (auto simp: stagesLeft_def split: option.splits)
  with finalization.enough_rounds [OF assms(4)] assms(1-3)
  have "stagesLeft (NN ns nm) (NN ns (nm @ ''-node-metrics'')) (cl w') = 0" by blast
  with assms(6) show ?thesis by (auto simp: stagesLeft_def split: if_splits)
qed

lemma finalization_completes_witness:
  "(finalizeRound memLib memCluster (operatorReconciler memLib memClient ''FROM'' False) ''ns'' ''neuron'' ^^ 3)
       (exWorld [exStarted ''a''] [exDying [deviceConfigFinalizer, ''other'']])
       (exWorld [exFresh ''a''] [exDying [''other'']]) \<and>
     deviceConfigFinalizer \<notin> set (dc_Finalizers (exDying [''other'']))"
proof -
  let ?w = "exWorld [exStarted ''a''] [exDying [deviceConfigFinalizer, ''other'']]"
  let ?w' = "exWorld [exFresh ''a''] [exDying [''other'']]"
  have three: "(finalizeRound memLib memCluster (operatorReconciler memLib memClient ''FROM'' False)
      ''ns'' ''neuron'' ^^ 3) ?w ?w'"
    unfolding numeral_3_eq_3
    by (rule relpowp_Suc_I [where y = ?w'], rule relpowp_Suc_I [where y = ?w'], rule relpowp_Suc_I,
        rule relpowp_0_I) (rule ex_finalizeRound; simp)+
  have "beingDeleted ''ns'' ''neuron'' (memCluster ?w)" by (simp add: beingDeleted_def)
  from finalization_completes [OF lawfulClient_mem lawfulFinalizers_mem this three] three show ?thesis by simp
qed

end
