(* ===== verification/Workloads.thy ===== *)
theory Workloads
  imports Example
begin

text \<open>
  What the objects the operator writes are like: the Module of a DeviceConfig in each mode
  and over a history of modes, the nodes it runs on, its tolerations against the taint of
  the upgrade, the well-formedness of the pods, and that the result does not depend on what
  someone else has made of the object.
\<close>

section \<open>What Kubernetes makes of the objects\<close>

text \<open>When a toleration tolerates a taint: an empty key or effect stands for any.\<close>

definition tolerates :: "Toleration \<Rightarrow> Taint \<Rightarrow> bool" where
  "tolerates tol t \<longleftrightarrow> (tol_Effect tol = [] \<or> tol_Effect tol = taint_Effect t) \<and>
     (tol_Key tol = [] \<or> tol_Key tol = taint_Key t) \<and>
     (tol_Operator tol = ''Exists'' \<or>
      (tol_Operator tol \<in> {[], ''Equal''} \<and> tol_Value tol = taint_Value t))"

text \<open>
  What the API server requires of a pod template, of the fields modelled: containers have
  names, which are unique, and images; volumes have names, which are unique; mounts have
  paths, which are unique in their container, and refer to volumes.
\<close>

definition mountsOK :: "Volume list \<Rightarrow> VolumeMount list \<Rightarrow> bool" where
  "mountsOK vols mounts \<longleftrightarrow> distinct (map vol_Name vols) \<and> [] \<notin> set (map vol_Name vols) \<and>
     distinct (map vm_MountPath mounts) \<and> [] \<notin> set (map vm_MountPath mounts) \<and>
     list_all (\<lambda>m. vm_Name m \<in> set (map vol_Name vols)) mounts"

definition podOK :: "PodSpec \<Rightarrow> bool" where
  "podOK p \<longleftrightarrow> pod_Containers p \<noteq> [] \<and> distinct (map c_Name (pod_Containers p)) \<and>
     list_all (\<lambda>c. c_Name c \<noteq> [] \<and> c_Image c \<noteq> [] \<and> mountsOK (pod_Volumes p) (c_VolumeMounts c)) (pod_Containers p)"

text \<open>A workload's selector selects its own pods (and is not empty, so not everyone's).\<close>

definition selectsOwn :: "gomap option \<Rightarrow> PodTemplateSpec \<Rightarrow> bool" where
  "selectsOwn sel t \<longleftrightarrow> (case sel of None \<Rightarrow> False
     | Some s \<Rightarrow> selects s (tmpl_Labels t) \<and> \<not> selects s (Some Map.empty))"

definition selectsPods :: "gomap option \<Rightarrow> PodTemplateSpec \<Rightarrow> bool" where
  "selectsPods sel t \<longleftrightarrow> (case sel of None \<Rightarrow> False | Some s \<Rightarrow> selects s (tmpl_Labels t))"

section \<open>A history of modes\<close>

text \<open>The Module after reconciliations for a sequence of versions of the DeviceConfig.\<close>

fun setInTurn :: "library \<Rightarrow> DeviceConfig list \<Rightarrow> Module \<Rightarrow> goerr + Module" where
  "setInTurn lib [] m = Inr m"
| "setInTurn lib (d # ds) m =
     (case SetKMMModuleAsDesired lib d m of Inl e \<Rightarrow> Inl e | Inr m' \<Rightarrow> setInTurn lib ds m')"

definition hasDRA :: "Module \<Rightarrow> bool" where "hasDRA m \<longleftrightarrow> ms_DRA (mod_Spec m) \<noteq> None"
definition hasPlugin :: "Module \<Rightarrow> bool" where "hasPlugin m \<longleftrightarrow> ms_DevicePlugin (mod_Spec m) \<noteq> None"

lemma modes_one_step:
  assumes "SetKMMModuleAsDesired lib d m = Inr m'"
  shows "hasDRA m' \<longleftrightarrow> modeOf (dc_Spec d) = DRAMode \<or> hasDRA m"
    and "hasPlugin m' \<longleftrightarrow> modeOf (dc_Spec d) = PluginMode \<or> (modeOf (dc_Spec d) = DriverOnly \<and> hasPlugin m)"
  using SetKMMModule_fields(5-8) [OF assms]
  by (auto simp: hasDRA_def hasPlugin_def modeOf_def split: if_splits)

lemma modes_in_turn:
  "setInTurn lib ds m = Inr m' \<Longrightarrow>
     (hasDRA m' \<longleftrightarrow> hasDRA m \<or> (\<exists>d \<in> set ds. modeOf (dc_Spec d) = DRAMode)) \<and>
     (hasPlugin m' \<longleftrightarrow> (case find_last (\<lambda>d. modeOf (dc_Spec d) \<noteq> DriverOnly) ds of
        None \<Rightarrow> hasPlugin m | Some d \<Rightarrow> modeOf (dc_Spec d) = PluginMode))"
proof (induction ds arbitrary: m)
  case Nil
  then show ?case by simp
next
  case (Cons d ds)
  then obtain m1 where m1: "SetKMMModuleAsDesired lib d m = Inr m1" and "setInTurn lib ds m1 = Inr m'"
    by (auto split: sum.splits)
  with Cons.IH [of m1] modes_one_step [OF m1] show ?case
    by (cases "modeOf (dc_Spec d)") (auto split: option.splits)
qed

section \<open>Properties of the Module\<close>

text \<open>
  C17: modes over time. Whatever sequence of versions of the DeviceConfig the Module has been
  through: it has a device plugin exactly when the last version that was not driver-only
  asked for one, and it has the DRA driver exactly when some version ever asked for it. So
  leaving the device-plugin mode cleans up, and leaving the DRA mode does not.
\<close>

theorem module_mode_history:
  assumes "setInTurn lib ds m = Inr m'" and "\<not> hasDRA m" and "\<not> hasPlugin m"
  shows "(hasDRA m' \<longleftrightarrow> (\<exists>d \<in> set ds. modeOf (dc_Spec d) = DRAMode)) \<and>
    (hasPlugin m' \<longleftrightarrow> (\<exists>d. find_last (\<lambda>d. modeOf (dc_Spec d) \<noteq> DriverOnly) ds = Some d \<and>
       modeOf (dc_Spec d) = PluginMode))"
  using modes_in_turn [OF assms(1)] assms(2,3) by (auto split: option.splits)

text \<open>From DRA mode to device-plugin mode: the Module ends with both.\<close>

definition exMode :: "string \<Rightarrow> string \<Rightarrow> DeviceConfig" where
  "exMode dra plugin = (exDC ''2'')\<lparr>dc_Spec := (dc_Spec (exDC ''2''))\<lparr>DRADriverImage := dra,
     DevicePluginImage := plugin, CustomSchedulerImage := plugin, SchedulerExtensionImage := plugin\<rparr>\<rparr>"

definition exModule :: Module where
  "exModule = \<lparr>mod_Meta = zeroMeta\<lparr>om_Namespace := ''ns'', om_Name := ''neuron''\<rparr>, mod_Spec = zeroModuleSpec\<rparr>"

lemma exMode_simps [simp]:
  "modeOf (dc_Spec (exMode dra plugin)) =
     (if dra \<noteq> [] then DRAMode else if plugin \<noteq> [] then PluginMode else DriverOnly)"
  "keyOf (dc_Meta (exMode dra plugin)) = NN ''ns'' ''neuron''"
  "om_DeletionTimestamp (dc_Meta (exMode dra plugin)) = None"
  by (simp_all add: exMode_def modeOf_def keyOf_def)

lemma exModule_simps [simp]: "\<not> hasDRA exModule" "\<not> hasPlugin exModule" "om_OwnerReferences (mod_Meta exModule) = []"
  by (simp_all add: exModule_def hasDRA_def hasPlugin_def zeroModuleSpec_def zeroMeta_def)

lemma kmm_own: "om_OwnerReferences (mod_Meta m) \<in> {[], [controllerOf (exDC ''2'')]} \<Longrightarrow>
    \<exists>m'. SetKMMModuleAsDesired memLib (exMode dra plugin) m = Inr m' \<and>
      om_OwnerReferences (mod_Meta m') = [controllerOf (exDC ''2'')]"
  by (auto simp: kmm_defs Let_def memLib_def exMode_def controllerOf_def)

lemma module_mode_history_witness:
  "\<exists>m'. setInTurn memLib [exMode ''dra'' [], exMode [] ''plugin''] exModule = Inr m' \<and> hasDRA m' \<and> hasPlugin m'"
proof -
  obtain m1 where m1: "SetKMMModuleAsDesired memLib (exMode ''dra'' []) exModule = Inr m1"
    "om_OwnerReferences (mod_Meta m1) = [controllerOf (exDC ''2'')]" using kmm_own [of exModule] by auto
  then obtain m' where "SetKMMModuleAsDesired memLib (exMode [] ''plugin'') m1 = Inr m'"
    using kmm_own [of m1] by auto
  with m1 have run: "setInTurn memLib [exMode ''dra'' [], exMode [] ''plugin''] exModule = Inr m'" by simp
  from module_mode_history [OF run] run show ?thesis by simp
qed

text \<open>
  What a DeviceConfig asks of its Module, in every mode: the driver container with its image
  and its build, the nodes and the tolerations; in DRA mode the DRA driver with the device
  classes of the spec, or one class for the devices of this driver, and no device plugin; in
  device-plugin mode the device plugin.
\<close>

definition driverAsked :: "DeviceConfig \<Rightarrow> ModuleSpec \<Rightarrow> bool" where
  "driverAsked d s \<longleftrightarrow>
     ms_ModuleLoader s = Some \<lparr>ml_ModuleName = ''neuron'',
       ml_KernelMappings = [\<lparr>km_Regexp = ''^.+$'',
         km_ContainerImage = (if DriversImage (dc_Spec d) \<noteq> [] then DriversImage (dc_Spec d)
             else ''image-registry.openshift-image-registry.svc:5000/$MOD_NAMESPACE/neuron-kernel-module:'' @ wanted d) @
           ''-$KERNEL_VERSION'',
         km_InTreeModulesToRemove = [''neuron''],
         km_Build = Some \<lparr>build_DockerfileConfigMap = Some (''dockerfile-'' @ dc_Name d),
           build_BuildArgs = [(''DRIVER_VERSION'', wanted d)]\<rparr>\<rparr>],
       ml_ImagePullPolicy = ''Always'', ml_Version = wanted d,
       ml_ServiceAccountName = ''awslabs-gpu-operator-kmm-module-loader''\<rparr> \<and>
     ms_ImageRepoSecret s = ImageRepoSecret (dc_Spec d) \<and>
     (\<forall>ls. selects (ms_Selector s) ls \<longleftrightarrow> (case Selector (dc_Spec d) of Some m \<Rightarrow> selects (Some m) ls
        | None \<Rightarrow> mapGet ls ''feature.node.kubernetes.io/pci-1d0f.present'' = Some ''true'')) \<and>
     (\<forall>t. list_ex (\<lambda>tol. tolerates tol t) (ms_Tolerations s) \<longleftrightarrow>
        t = upgradeTaint \<or> (taint_Key t = ''node.kubernetes.io/unschedulable'' \<and> taint_Effect t = ''NoSchedule''))"

definition classOf :: "DeviceClassSpec \<Rightarrow> DeviceClass \<Rightarrow> bool" where
  "classOf s c \<longleftrightarrow> cls_Name c = dcs_Name s \<and> cls_Selectors c = dcs_Selectors s \<and> cls_Config c = dcs_Config s"

definition draAsked :: "DeviceConfig \<Rightarrow> DRASpec \<Rightarrow> bool" where
  \<open>draAsked d r \<longleftrightarrow> dra_Image r = DRADriverImage (dc_Spec d) \<and> dra_Command r = [''k8s-neuron-dra-driver''] \<and>
     dra_ServiceAccountName r = ''awslabs-gpu-operator-dra-driver'' \<and>
     res_Requests (dra_Resources r) = [''cpu'' \<mapsto> MustParse ''20m'', ''memory'' \<mapsto> MustParse ''256Mi''] \<and>
     res_Limits (dra_Resources r) = res_Requests (dra_Resources r) \<and>
     (if DeviceClasses (dc_Spec d) = [] then \<exists>c. dra_DeviceClasses r = [c] \<and> cls_Name c = dra_DriverName r \<and>
        cls_Selectors c = [CEL (''device.driver == "'' @ dra_DriverName r @ ''"'')] \<and> cls_Config c = []
      else list_all2 classOf (DeviceClasses (dc_Spec d)) (dra_DeviceClasses r))\<close>

definition pluginAsked :: "DeviceConfig \<Rightarrow> DevicePluginSpec \<Rightarrow> bool" where
  "pluginAsked d p \<longleftrightarrow> dp_Image p = DevicePluginImage (dc_Spec d) \<and>
     dp_ServiceAccountName p = ''awslabs-gpu-operator-kmm-device-plugin'' \<and>
     dp_AutomountServiceAccountToken p = Some False \<and> mountsOK (dp_Volumes p) (dp_VolumeMounts p) \<and>
     map (\<lambda>e. (env_Name e, env_FieldPath e)) (dp_Env p) = [(''NODE_NAME'', Some ''spec.nodeName'')] \<and>
     map (\<lambda>v. (vm_Name v, vm_MountPath v, vm_ReadOnly v)) (dp_VolumeMounts p) = [(''sys'', ''/sys'', False),
       (''kube-api-kubelet-access'', ''/var/run/secrets/kubernetes.io/serviceaccount'', True)]"

definition modeAsked :: "DeviceConfig \<Rightarrow> ModuleSpec \<Rightarrow> bool" where
  "modeAsked d s \<longleftrightarrow> (case modeOf (dc_Spec d) of
       DRAMode \<Rightarrow> ms_DevicePlugin s = None \<and> (\<exists>r. ms_DRA s = Some r \<and> draAsked d r)
     | PluginMode \<Rightarrow> \<exists>p. ms_DevicePlugin s = Some p \<and> pluginAsked d p
     | DriverOnly \<Rightarrow> True)"

text \<open>They ask the same of DeviceConfigs that differ in their finalizers only.\<close>

lemma asked_cong:
  assumes "dc_Spec d' = dc_Spec d" and "dc_Name d' = dc_Name d"
  shows "driverAsked d' s = driverAsked d s" and "modeAsked d' s = modeAsked d s"
proof -
  have "draAsked d' r = draAsked d r" "pluginAsked d' p = pluginAsked d p" for r p
    by (simp_all only: draAsked_def pluginAsked_def assms)
  then show "driverAsked d' s = driverAsked d s" "modeAsked d' s = modeAsked d s"
    by (simp_all only: driverAsked_def modeAsked_def assms)
qed

lemma module_tolerations:
  assumes "SetKMMModuleAsDesired lib d m = Inr m'"
  shows "list_ex (\<lambda>tol. tolerates tol t) (ms_Tolerations (mod_Spec m')) \<longleftrightarrow>
    t = upgradeTaint \<or> (taint_Key t = ''node.kubernetes.io/unschedulable'' \<and> taint_Effect t = ''NoSchedule'')"
proof -
  have "ms_Tolerations (mod_Spec m') = [
      zeroToleration\<lparr>tol_Key := UpgradeTaintTolerationKey, tol_Value := ''true'', tol_Operator := ''Equal'',
        tol_Effect := TaintEffectNoExecute\<rparr>,
      zeroToleration\<lparr>tol_Key := TaintNodeUnschedulable, tol_Operator := ''Exists'', tol_Effect := TaintEffectNoSchedule\<rparr>]"
    using assms by (auto simp: kmm_defs Let_def split: sum.splits if_splits)
  then show ?thesis
    by (cases t) (auto simp: tolerates_def upgradeTaint_def zeroToleration_def TaintNodeUnschedulable_def
        TaintEffectNoSchedule_def TaintEffectNoExecute_def UpgradeTaintTolerationKey_def)
qed

lemma module_selects:
  assumes "SetKMMModuleAsDesired lib d m = Inr m'"
  shows "selects (ms_Selector (mod_Spec m')) ls \<longleftrightarrow> (case Selector (dc_Spec d) of Some m \<Rightarrow> selects (Some m) ls
    | None \<Rightarrow> mapGet ls ''feature.node.kubernetes.io/pci-1d0f.present'' = Some ''true'')"
  unfolding SetKMMModule_fields(2) [OF assms] getNodeSelector_def PCIVendorID_def
  by (auto simp: selects_def split: option.splits)

lemma module_driver:
  assumes "SetKMMModuleAsDesired lib d m = Inr m'"
  shows "driverAsked d (mod_Spec m')"
proof -
  have "ms_ModuleLoader (mod_Spec m') = ms_ModuleLoader (mod_Spec (projr (setKMMModuleLoader m d)))"
    using assms by (auto simp: kmm_defs Let_def split: sum.splits if_splits)
  then show ?thesis unfolding driverAsked_def
    by (simp add: module_tolerations [OF assms] module_selects [OF assms] SetKMMModule_fields(3) [OF assms]
        setKMMModuleLoader_def driversImageOf_def gpuDriverModuleName_def GetDockerfileCMName_def Let_def)
qed

lemma mapDeviceClasses_asked:
  "ds \<noteq> [] \<Longrightarrow> list_all2 classOf ds (mapDeviceClasses ds)"
  by (simp add: mapDeviceClasses_def mapDeviceClassesLoop_map list_all2_map2 classOf_def list_all2_refl)

lemma dra_asked:
  assumes "ms_DRA (mod_Spec (setKMMDRA m d)) = Some r"
  shows "draAsked d r"
proof (cases "DeviceClasses (dc_Spec d) = []")
  case True
  with assms show ?thesis
    by (auto simp: setKMMDRA_def Let_def draAsked_def draServiceAccountName_def mapDeviceClasses_def defaultDeviceClassName_def
        defaultDRADriverName_def)
next
  case False
  from mapDeviceClasses_asked [OF this] assms False show ?thesis
    by (auto simp: setKMMDRA_def Let_def draAsked_def draServiceAccountName_def)
qed

lemma module_mode:
  assumes "SetKMMModuleAsDesired lib d m = Inr m'"
  shows "modeAsked d (mod_Spec m')"
proof (cases "modeOf (dc_Spec d)")
  case DRAMode
  then have dra: "DRADriverImage (dc_Spec d) \<noteq> []" by (auto simp: modeOf_def split: if_splits)
  with assms obtain m1 where "ms_DRA (mod_Spec m') = ms_DRA (mod_Spec (setKMMDRA m1 d))"
    by (auto simp: SetKMMModuleAsDesired_def setKMMModuleLoader_def ownModule_def Let_def split: sum.splits)
  with SetKMMModule_fields(5) [OF assms dra] obtain r where "ms_DevicePlugin (mod_Spec m') = None"
    "ms_DRA (mod_Spec m') = Some r" "draAsked d r" using dra_asked [of m1 d] by (metis not_None_eq)
  with DRAMode show ?thesis by (simp add: modeAsked_def)
next
  case PluginMode
  with assms show ?thesis
    by (auto simp: kmm_defs Let_def modeOf_def modeAsked_def pluginAsked_def mountsOK_def zeroVolumeMount_def
        split: sum.splits if_splits)
qed (simp add: modeAsked_def)



text \<open>
  C24: drivers run on targeted nodes only. Every node the Module selects is one the upgrade
  targets; with a selector in the DeviceConfig, and only then in general, the two are the
  same nodes.
\<close>

theorem module_nodes_targeted:
  assumes "SetKMMModuleAsDesired lib d m = Inr m'"
  shows "{n. stored c n \<and> selects (ms_Selector (mod_Spec m')) (node_Labels n)} =
    (if Selector (dc_Spec d) \<noteq> None then targetedNodes d c
     else {n \<in> targetedNodes d c. mapGet (node_Labels n) ''feature.node.kubernetes.io/pci-1d0f.present'' = Some ''true''})"
proof -
  have sel: "ms_Selector (mod_Spec m') = getNodeSelector d" using SetKMMModule_fields(2) [OF assms] .
  have empty: "([''feature.node.kubernetes.io/pci-1d0f.present'' \<mapsto> ''true'']
      (''feature.node.kubernetes.io/pci-1d0f.present'' := None) :: string \<rightharpoonup> string) = Map.empty" by simp
  show ?thesis
    unfolding sel getNodeSelector_def targetedNodes_def PCIVendorID_def
    by (cases "Selector (dc_Spec d)") (auto simp: empty simp del: fun_upd_apply)
qed

lemma module_nodes_targeted_witness:
  "\<exists>m'. SetKMMModuleAsDesired memLib (exMode [] []) exModule = Inr m' \<and>
     exFresh ''a'' \<in> {n. stored (memCluster (exWorld [exFresh ''a''] [])) n \<and>
       selects (ms_Selector (mod_Spec m')) (node_Labels n)}"
proof -
  obtain m' where run: "SetKMMModuleAsDesired memLib (exMode [] []) exModule = Inr m'"
    using kmm_own [of exModule] by auto
  have sel: "Selector (dc_Spec (exMode [] [])) = Some [''neuron'' \<mapsto> ''true'']" by (simp add: exMode_def)
  then have "exFresh ''a'' \<in> targetedNodes (exMode [] []) (memCluster (exWorld [exFresh ''a''] []))"
    by (simp add: targetedNodes_def stored_def)
  moreover have "{n. stored (memCluster (exWorld [exFresh ''a''] [])) n \<and>
      selects (ms_Selector (mod_Spec m')) (node_Labels n)} = targetedNodes (exMode [] []) (memCluster (exWorld [exFresh ''a''] []))"
    using module_nodes_targeted [OF run] sel by simp
  ultimately show ?thesis using run by blast
qed

section \<open>Properties of the workloads\<close>

text \<open>The pods of the three workloads, over any object that was there.\<close>

lemmas workload_defs = SetCustomSchedulerAsDesired_def SetCustomSchedulerExtensionAsDesired_def metricsSpec_def
  getVolumesAndMount_def Let_def zeroPodSpec_def zeroContainer_def zeroVolumeMount_def zeroDaemonSetSpec_def
  zeroDeploymentSpec_def

lemma workload_pods:
  "podOK (tmpl_Spec (dps_Template (dep_Spec (SetCustomSchedulerAsDesired b dp d)))) \<longleftrightarrow> CustomSchedulerImage (dc_Spec d) \<noteq> []"
  "podOK (tmpl_Spec (dps_Template (dep_Spec (SetCustomSchedulerExtensionAsDesired dp d)))) \<longleftrightarrow>
     SchedulerExtensionImage (dc_Spec d) \<noteq> []"
  "podOK (tmpl_Spec (dss_Template (metricsSpec lib d))) \<longleftrightarrow> NodeMetricsImage (dc_Spec d) \<noteq> []"
  by (simp_all add: podOK_def mountsOK_def workload_defs)

lemma workload_selectors:
  "selectsOwn (dps_Selector (dep_Spec (SetCustomSchedulerAsDesired b dp d)))
     (dps_Template (dep_Spec (SetCustomSchedulerAsDesired b dp d)))"
  "selectsOwn (dps_Selector (dep_Spec (SetCustomSchedulerExtensionAsDesired dp d)))
     (dps_Template (dep_Spec (SetCustomSchedulerExtensionAsDesired dp d)))"
  "selectsOwn (dss_Selector (metricsSpec lib d)) (dss_Template (metricsSpec lib d))"
  "\<not> selectsPods (dps_Selector (dep_Spec (SetCustomSchedulerAsDesired b dp d)))
     (dps_Template (dep_Spec (SetCustomSchedulerExtensionAsDesired dp' d')))"
  "\<not> selectsPods (dps_Selector (dep_Spec (SetCustomSchedulerExtensionAsDesired dp d)))
     (dps_Template (dep_Spec (SetCustomSchedulerAsDesired b dp' d')))"
  by (simp_all add: selectsOwn_def selectsPods_def workload_defs)

lemma workload_overlap:
  "selectsPods (dps_Selector (dep_Spec (SetCustomSchedulerAsDesired b dp d)))
     (dps_Template (dep_Spec (SetCustomSchedulerAsDesired b' dp' d')))"
  "selectsPods (dps_Selector (dep_Spec (SetCustomSchedulerExtensionAsDesired dp d)))
     (dps_Template (dep_Spec (SetCustomSchedulerExtensionAsDesired dp' d')))"
  "selectsPods (dss_Selector (metricsSpec lib d)) (dss_Template (metricsSpec lib' d'))"
  by (simp_all add: selectsPods_def workload_defs)

definition imagesOf :: "Deployment \<Rightarrow> string list" where
  "imagesOf dp = map c_Image (pod_Containers (tmpl_Spec (dps_Template (dep_Spec dp))))"

text \<open>
  Images follow the mode. The three workloads run the images of the spec. For an admitted
  spec these are set in device-plugin mode and empty otherwise: the reconciler, which leaves
  the scheduler out in DRA mode only, makes Deployments without an image in driver-only mode.
\<close>

theorem scheduler_images:
  assumes "admitted (dc_Spec d)"
  shows "imagesOf (SetCustomSchedulerAsDesired b dp d) = [CustomSchedulerImage (dc_Spec d)] \<and>
    imagesOf (SetCustomSchedulerExtensionAsDesired dp d) = [SchedulerExtensionImage (dc_Spec d)] \<and>
    (if modeOf (dc_Spec d) = PluginMode
     then CustomSchedulerImage (dc_Spec d) \<noteq> [] \<and> SchedulerExtensionImage (dc_Spec d) \<noteq> []
     else CustomSchedulerImage (dc_Spec d) = [] \<and> SchedulerExtensionImage (dc_Spec d) = []) \<and>
    (DRADriverImage (dc_Spec d) = [] \<longleftrightarrow> modeOf (dc_Spec d) \<in> {PluginMode, DriverOnly})"
proof -
  have "imagesOf (SetCustomSchedulerAsDesired b dp d) = [CustomSchedulerImage (dc_Spec d)]"
    "imagesOf (SetCustomSchedulerExtensionAsDesired dp d) = [SchedulerExtensionImage (dc_Spec d)]"
    by (simp_all add: imagesOf_def SetCustomSchedulerAsDesired_def SetCustomSchedulerExtensionAsDesired_def Let_def)
  moreover have dra: "DRADriverImage (dc_Spec d) = [] \<longleftrightarrow> modeOf (dc_Spec d) \<noteq> DRAMode" by (simp add: modeOf_def)
  ultimately show ?thesis
    using admitted_modes [OF assms(1)] dra by (cases "modeOf (dc_Spec d)") simp_all
qed

lemma scheduler_images_witness:
  "admitted (dc_Spec (exMode [] [])) \<and>
   imagesOf (SetCustomSchedulerAsDesired False \<lparr>dep_Meta = zeroMeta, dep_Spec = zeroDeploymentSpec\<rparr> (exMode [] []))
     = [[]]"
proof -
  have a: "admitted (dc_Spec (exMode [] []))"
    by (simp add: admitted_def draExclusive_def pluginImagesTogether_def exMode_def)
  from scheduler_images [OF a, where b = False and dp = "\<lparr>dep_Meta = zeroMeta, dep_Spec = zeroDeploymentSpec\<rparr>"] a
  show ?thesis by simp
qed

text \<open>
  C37: drift is repaired. The result of setting an object as desired does not depend on what
  its spec was: two objects with the same metadata end equal. Of the Module only the DRA
  driver and the device plugin can survive, of the config map only its other keys.
\<close>

theorem drift_is_repaired:
  assumes "dep_Meta dp = dep_Meta dp'" and "ds_Meta ds = ds_Meta ds'" and "mod_Meta m = mod_Meta m'"
    and "ms_DRA (mod_Spec m) = ms_DRA (mod_Spec m')" and "ms_DevicePlugin (mod_Spec m) = ms_DevicePlugin (mod_Spec m')"
  shows "schedulerMutate b lib d dp = schedulerMutate b lib d dp' \<and>
    extensionMutate lib d dp = extensionMutate lib d dp' \<and> metricsMutate lib d ds = metricsMutate lib d ds' \<and>
    SetKMMModuleAsDesired lib d m = SetKMMModuleAsDesired lib d m'"
proof (intro conjI)
  show "schedulerMutate b lib d dp = schedulerMutate b lib d dp'" "extensionMutate lib d dp = extensionMutate lib d dp'"
    using assms(1) by (cases dp; cases dp'; simp add: schedulerMutate_def extensionMutate_def
        SetCustomSchedulerAsDesired_def SetCustomSchedulerExtensionAsDesired_def Let_def)+
  show "metricsMutate lib d ds = metricsMutate lib d ds'"
    using assms(2) by (cases ds; cases ds') (simp add: metricsMutate_def SetNodeMetricsAsDesired_def)
  show "SetKMMModuleAsDesired lib d m = SetKMMModuleAsDesired lib d m'"
    using assms(3-5) by (cases m; cases m'; cases "mod_Spec m"; cases "mod_Spec m'") (simp add: kmm_defs Let_def)
qed

text \<open>A Module whose selector someone has emptied.\<close>

lemma drift_is_repaired_witness:
  "SetKMMModuleAsDesired memLib (exMode [] []) (exModule\<lparr>mod_Spec := (mod_Spec exModule)\<lparr>ms_Selector := Some Map.empty\<rparr>\<rparr>) =
   SetKMMModuleAsDesired memLib (exMode [] []) exModule"
  using drift_is_repaired [OF refl refl, where m = "exModule\<lparr>mod_Spec := (mod_Spec exModule)\<lparr>ms_Selector := Some Map.empty\<rparr>\<rparr>"
      and m' = exModule and lib = memLib and d = "exMode [] []"]
  by simp

section \<open>The device plugin and the CA bundle\<close>

text \<open>Every key that a projected volume takes from a config map of the pod's namespace exists.\<close>

fun projectionResolves :: "cluster \<Rightarrow> string \<Rightarrow> VolumeProjection \<Rightarrow> bool" where
  "projectionResolves c ns (ConfigMapItems nm items) = (\<forall>(key, path) \<in> set items. \<exists>v. configMapHas c ns nm key v)"
| "projectionResolves c ns (ServiceAccountToken path seconds) = True"
| "projectionResolves c ns (DownwardAPI items) = True"

fun volumeResolves :: "cluster \<Rightarrow> string \<Rightarrow> VolumeSource \<Rightarrow> bool" where
  "volumeResolves c ns (Projected mode ps) = list_all (projectionResolves c ns) ps"
| "volumeResolves c ns (HostPath path type) = True"
| "volumeResolves c ns (ConfigMapVolume nm) = True"

text \<open>
  C38: the device plugin finds its CA bundle. In device-plugin mode the plugin mounts, in
  place of the service account's directory, a projected volume; after the start-up step has
  succeeded, every config map key it projects exists, provided that the DeviceConfig lives
  in the operator's namespace, the only one the bundle is written to.
\<close>

theorem plugin_ca_resolves:
  assumes "lawfulClient lib c cl" and "CreateKubeletKubeRootCAConfigMap getenv c w = (Inr (), w')"
    and "dc_Namespace d = getenv ''OPERATOR_NAMESPACE''" and "modeOf (dc_Spec d) = PluginMode"
    and "SetKMMModuleAsDesired lib d m = Inr m'"
  shows "\<exists>p. ms_DevicePlugin (mod_Spec m') = Some p \<and>
    list_all (\<lambda>v. volumeResolves (cl w') (dc_Namespace d) (vol_Source v)) (dp_Volumes p) \<and>
    list_ex (\<lambda>vm. vm_Name vm = ''kube-api-kubelet-access'' \<and>
      vm_MountPath vm = ''/var/run/secrets/kubernetes.io/serviceaccount'') (dp_VolumeMounts p)"
proof -
  have "\<exists>v. configMapHas (cl w') (dc_Namespace d) ''kube-root-kubelet-ca'' ''ca-bundle.crt'' v"
    unfolding assms(3)
    by (rule CreateKubelet_run [OF assms(1,2) disjI2 [OF refl]])
       (auto simp: configMapHas_def kubeletKubeRootCAConfigMapName_def kubeletKubeRootCAKey_def)
  with assms(4,5) show ?thesis
    by (auto simp: kmm_defs Let_def modeOf_def zeroVolumeMount_def split: sum.splits if_splits)
qed

lemma plugin_ca_resolves_witness:
  "\<exists>w' m' p. CreateKubeletKubeRootCAConfigMap exEnv memClient exCAs = (Inr (), w') \<and>
     SetKMMModuleAsDesired memLib ((exMode [] ''plugin'')\<lparr>dc_Meta := zeroMeta\<lparr>om_Namespace := ''op''\<rparr>\<rparr>) exModule = Inr m' \<and>
     ms_DevicePlugin (mod_Spec m') = Some p \<and>
     list_all (\<lambda>v. volumeResolves (memCluster w') ''op'' (vol_Source v)) (dp_Volumes p)"
proof -
  let ?d = "(exMode [] ''plugin'')\<lparr>dc_Meta := zeroMeta\<lparr>om_Namespace := ''op''\<rparr>\<rparr>"
  obtain w' where w': "CreateKubeletKubeRootCAConfigMap exEnv memClient exCAs = (Inr (), w')"
    using ex_unified by blast
  obtain m' where m': "SetKMMModuleAsDesired memLib ?d exModule = Inr m'"
    by (simp add: kmm_defs Let_def memLib_def)
  have ns: "dc_Namespace ?d = exEnv ''OPERATOR_NAMESPACE''" by (simp add: exEnv_def)
  have mode: "modeOf (dc_Spec ?d) = PluginMode" by simp
  from plugin_ca_resolves [OF lawfulClient_mem w' ns mode m'] w' m' show ?thesis by auto
qed

end
