(* ===== verification/Converge.thy ===== *)
theory Converge
  imports Finalize Workloads
begin

text \<open>
  Convergence of the reconciliation: a successful call leaves every object of the
  DeviceConfig at a fixed point of its "set as desired" operation, so that the references
  between them resolve, and on such a cluster further calls only work on nodes.
\<close>

section \<open>The converged cluster\<close>

definition builtAt :: "library \<Rightarrow> string \<Rightarrow> DeviceConfig \<Rightarrow> cluster \<Rightarrow> bool" where
  "builtAt lib f d c \<longleftrightarrow> desiredAt (cl_ConfigMaps c) (NN (dc_Namespace d) (''dockerfile-'' @ dc_Name d))
     (SetBuildConfigMapAsDesired f lib d)"

definition moduleAt :: "library \<Rightarrow> DeviceConfig \<Rightarrow> cluster \<Rightarrow> bool" where
  "moduleAt lib d c \<longleftrightarrow> desiredAt (cl_Modules c) (ownKey d) (SetKMMModuleAsDesired lib d)"

definition schedulerAt :: "library \<Rightarrow> bool \<Rightarrow> DeviceConfig \<Rightarrow> cluster \<Rightarrow> bool" where
  "schedulerAt lib b d c \<longleftrightarrow>
     desiredAt (cl_Deployments c) (NN (dc_Namespace d) (dc_Name d @ ''-custom-scheduler'')) (schedulerMutate b lib d) \<and>
     desiredAt (cl_Deployments c) (NN (dc_Namespace d) (dc_Name d @ ''-custom-scheduler-extension''))
       (extensionMutate lib d)"

definition metricsAt :: "library \<Rightarrow> DeviceConfig \<Rightarrow> cluster \<Rightarrow> bool" where
  "metricsAt lib d c \<longleftrightarrow> desiredAt (cl_DaemonSets c) (metricsKey d) (metricsMutate lib d)"

definition converged :: "library \<Rightarrow> string \<Rightarrow> bool \<Rightarrow> DeviceConfig \<Rightarrow> cluster \<Rightarrow> bool" where
  "converged lib f b d c \<longleftrightarrow> builtAt lib f d c \<and> moduleAt lib d c \<and>
     (DRADriverImage (dc_Spec d) = [] \<longrightarrow> schedulerAt lib b d c) \<and> metricsAt lib d c"

lemma mutates_eq:
  "(\<lambda>dep. ownDeployment lib d (SetCustomSchedulerAsDesired b dep d)) = schedulerMutate b lib d"
  "(\<lambda>dep. ownDeployment lib d (SetCustomSchedulerExtensionAsDesired dep d)) = extensionMutate lib d"
  "(\<lambda>ds. SetNodeMetricsAsDesired lib (Some ds) d) = metricsMutate lib d"
  by (simp_all add: fun_eq_iff schedulerMutate_def extensionMutate_def metricsMutate_def)

section \<open>Each handler establishes its part\<close>

lemma triple_bind_ret:
  "triple P m (\<lambda>_. Q) E \<Longrightarrow> triple P (bindE m (\<lambda>_. ret ())) (\<lambda>_. Q) E"
  by (rule triple_bind, assumption) (simp add: triple_ret)

lemma build_desired:
  assumes "lawfulClient lib c cl" and "lawfulOwner lib"
  shows "triple (\<lambda>_. True) (dcrh_handleBuildConfigMap (operatorHelper lib c f b) d)
    (\<lambda>_ w. builtAt lib f d (cl w)) (\<lambda>_ _. True)"
  unfolding dcrh_handleBuildConfigMap_def Let_def newHelper_simps builtAt_def
  using buildcm.upsert_desired [OF assms(2) lawfulClientD(11) [OF assms(1)] lenses(4),
      where x = "\<lparr>cm_Meta = zeroMeta\<lparr>om_Namespace := dc_Namespace d, om_Name := GetDockerfileCMName d\<rparr>, cm_Data = None\<rparr>"]
  by (intro triple_bind_ret) (simp add: GetDockerfileCMName_def)

lemma kmm_desired:
  assumes "lawfulClient lib c cl" and "lawfulOwner lib"
  shows "triple (\<lambda>_. True) (dcrh_handleKMMModule (operatorHelper lib c f b) d)
    (\<lambda>_ w. moduleAt lib d (cl w)) (\<lambda>_ _. True)"
  unfolding dcrh_handleKMMModule_def Let_def newHelper_simps moduleAt_def
  using kmm.upsert_desired [OF assms(2) lawfulClientD(13) [OF assms(1)] lenses(1),
      where x = "\<lparr>mod_Meta = zeroMeta\<lparr>om_Namespace := dc_Namespace d, om_Name := dc_Name d\<rparr>, mod_Spec = zeroModuleSpec\<rparr>"]
  by (intro triple_bind_ret) simp

lemma metrics_desired:
  assumes "lawfulClient lib c cl" and "lawfulOwner lib"
  shows "triple (\<lambda>_. True) (dcrh_handleNodeMetrics (operatorHelper lib c f b) d)
    (\<lambda>_ w. metricsAt lib d (cl w)) (\<lambda>_ _. True)"
  unfolding dcrh_handleNodeMetrics_def Let_def newHelper_simps metricsAt_def mutates_eq
  using metrics.upsert_desired [OF assms(2) lawfulClientD(15) [OF assms(1)] lenses(2),
      where x = "\<lparr>ds_Meta = zeroMeta\<lparr>om_Namespace := dc_Namespace d, om_Name := dc_Name d @ ''-node-metrics''\<rparr>,
        ds_Spec = zeroDaemonSetSpec\<rparr>"]
  by (intro triple_bind_ret) simp

lemma scheduler_desired:
  assumes "lawfulClient lib c cl" and "lawfulOwner lib"
  shows "triple (\<lambda>_. True) (dcrh_handleCustomScheduler lib (operatorHelper lib c f b) d)
    (\<lambda>_ w. schedulerAt lib b d (cl w)) (\<lambda>_ _. True)"
proof -
  let ?S = "\<lambda>w. desiredAt (cl_Deployments (cl w)) (NN (dc_Namespace d) (dc_Name d @ ''-custom-scheduler'')) (schedulerMutate b lib d)"
  let ?dep = "\<lambda>nm. \<lparr>dep_Meta = zeroMeta\<lparr>om_Namespace := dc_Namespace d, om_Name := nm\<rparr>, dep_Spec = zeroDeploymentSpec\<rparr>"
  note law = lawfulClientD(14) [OF assms(1)]
  have first: "triple (\<lambda>_. True) (apiCreateOrPatch (Deployments c) (?dep (dc_Name d @ ''-custom-scheduler''))
      (schedulerMutate b lib d)) (\<lambda>_. ?S) (\<lambda>_ _. True)"
    using scheduler.upsert_desired [OF assms(2) law lenses(3), where x = "?dep (dc_Name d @ ''-custom-scheduler'')"] by simp
  have second: "triple (\<lambda>_. True) (apiCreateOrPatch (Deployments c) (?dep (dc_Name d @ ''-custom-scheduler-extension''))
      (extensionMutate lib d)) (\<lambda>_ w. desiredAt (cl_Deployments (cl w))
        (NN (dc_Namespace d) (dc_Name d @ ''-custom-scheduler-extension'')) (extensionMutate lib d)) (\<lambda>_ _. True)"
    using extension.upsert_desired [OF assms(2) law lenses(3), where x = "?dep (dc_Name d @ ''-custom-scheduler-extension'')"]
    by simp
  have keep: "keeps ?S (apiCreateOrPatch (Deployments c) (?dep (dc_Name d @ ''-custom-scheduler-extension''))
      (extensionMutate lib d))"
    by (rule keeps_upsert [OF law lenses(3), where I = "\<lambda>c. desiredAt (cl_Deployments c)
          (NN (dc_Namespace d) (dc_Name d @ ''-custom-scheduler'')) (schedulerMutate b lib d)"])
       (simp add: desiredAt_def)
  show ?thesis
    unfolding dcrh_handleCustomScheduler_def Let_def newHelper_simps mutates_eq schedulerAt_def
    by (rule triple_bind [OF triple_wrap [OF first]]) (rule triple_bind_ret, rule triple_and [OF keep second])
qed

text \<open>What a built config map and a Module at its desired state hold.\<close>

lemma builtAt_dockerfile:
  assumes "builtAt lib f d c"
  shows "configMapHas c (dc_Namespace d) (''dockerfile-'' @ dc_Name d) ''dockerfile'' f"
proof -
  from assms obtain cm where cm: "cl_ConfigMaps c (NN (dc_Namespace d) (''dockerfile-'' @ dc_Name d)) = Some cm"
    "SetBuildConfigMapAsDesired f lib d cm = Inr cm" by (auto simp: builtAt_def desiredAt_def)
  from cm(2) obtain meta where "cm\<lparr>cm_Data := Some ((mapGet (cm_Data cm))(''dockerfile'' \<mapsto> f)), cm_Meta := meta\<rparr> = cm"
    by (auto simp: SetBuildConfigMap_eq split: sum.splits)
  from arg_cong [OF this, of cm_Data] have "cm_Data cm = Some ((mapGet (cm_Data cm))(''dockerfile'' \<mapsto> f))" by simp
  then have "mapGet (cm_Data cm) ''dockerfile'' = Some f" by (metis fun_upd_same mapGet.simps(2))
  with cm(1) show ?thesis by (simp add: configMapHas_def)
qed

lemma moduleAt_loader:
  assumes "moduleAt lib d c"
  obtains m l mp where "cl_Modules c (NN (dc_Namespace d) (dc_Name d)) = Some m" "ms_ModuleLoader (mod_Spec m) = Some l"
    "ml_Version l = wanted d" "ml_KernelMappings l = [mp]"
    "km_Build mp = Some \<lparr>build_DockerfileConfigMap = Some (''dockerfile-'' @ dc_Name d),
       build_BuildArgs = [(''DRIVER_VERSION'', wanted d)]\<rparr>"
proof -
  from assms obtain m where m: "cl_Modules c (NN (dc_Namespace d) (dc_Name d)) = Some m"
    "SetKMMModuleAsDesired lib d m = Inr m" by (auto simp: moduleAt_def desiredAt_def)
  from SetKMMModule_fields(4) [OF m(2)] obtain l where l: "ms_ModuleLoader (mod_Spec m) = Some l" "ml_Version l = wanted d"
    "map km_Build (ml_KernelMappings l) = [Some \<lparr>build_DockerfileConfigMap = Some (''dockerfile-'' @ dc_Name d),
       build_BuildArgs = [(''DRIVER_VERSION'', wanted d)]\<rparr>]" by (auto simp: GetDockerfileCMName_def)
  from l(3) obtain mp where mp: "ml_KernelMappings l = [mp]" by auto
  with l(3) show thesis by (intro that [OF m(1) l(1,2) mp]) simp
qed

section \<open>A successful reconciliation converges\<close>

lemma afterFinalizer_converges:
  assumes "lawfulClient lib c cl" and "lawfulOwner lib"
  shows "triple (\<lambda>_. True) (afterFinalizer (operatorReconciler lib c f b) d)
    (\<lambda>_ w. converged lib f b d (cl w)) (\<lambda>_ _. True)"
proof -
  let ?H = "operatorHelper lib c f b"
  let ?B = "\<lambda>x. builtAt lib f d x"
  let ?BM = "\<lambda>x. builtAt lib f d x \<and> moduleAt lib d x"
  let ?S = "\<lambda>x. DRADriverImage (dc_Spec d) = [] \<longrightarrow> schedulerAt lib b d x"
  have build: "triple (\<lambda>_. True) (wrapE g (dcrh_handleBuildConfigMap ?H d)) (\<lambda>_ w. ?B (cl w)) (\<lambda>_ _. True)" for g
    by (rule triple_wrap [OF build_desired [OF assms]])
  have "keeps (\<lambda>w. ?B (cl w)) (dcrh_handleKMMModule ?H d)"
    by (rule keeps_kmm [where I = ?B, OF assms(1)]) (simp add: builtAt_def)
  from triple_and [OF this kmm_desired [OF assms]]
  have kmm: "triple (\<lambda>w. ?B (cl w)) (wrapE g (dcrh_handleKMMModule ?H d)) (\<lambda>_ w. ?BM (cl w)) (\<lambda>_ _. True)" for g
    by (rule triple_wrap)
  have "keeps (\<lambda>w. ?BM (cl w)) (dcrh_handleModuleVersionUpgrade ?H d)"
    by (rule keeps_upgrade [where I = ?BM, OF assms(1)])
       (auto dest!: did_frame simp: clusterFrame_def builtAt_def moduleAt_def)
  then have upgrade: "triple (\<lambda>w. ?BM (cl w)) (wrapE g (dcrh_handleModuleVersionUpgrade ?H d))
      (\<lambda>_ w. ?BM (cl w)) (\<lambda>_ _. True)" for g
    unfolding keeps_triple by (intro triple_wrap) (erule triple_conseq; simp)
  have "keeps (\<lambda>w. ?BM (cl w)) (dcrh_handleCustomScheduler lib ?H d)"
    by (rule keeps_scheduler [where I = ?BM, OF assms(1)]) (simp_all add: builtAt_def moduleAt_def)
  note sched = triple_and [OF this scheduler_desired [OF assms]]
  have scheduler: "triple (\<lambda>w. ?BM (cl w)) (if DRADriverImage (dc_Spec d) = []
      then wrapE g (dcrh_handleCustomScheduler lib ?H d) else ret ()) (\<lambda>_ w. ?BM (cl w) \<and> ?S (cl w)) (\<lambda>_ _. True)" for g
  proof (cases "DRADriverImage (dc_Spec d) = []")
    case True
    with sched show ?thesis by (simp add: triple_wrap)
  qed (simp add: triple_ret)
  have "keeps (\<lambda>w. ?BM (cl w) \<and> ?S (cl w)) (dcrh_handleNodeMetrics ?H d)"
    by (rule keeps_metrics [where I = "\<lambda>x. ?BM x \<and> ?S x", OF assms(1)])
       (simp add: builtAt_def moduleAt_def schedulerAt_def)
  from triple_and [OF this metrics_desired [OF assms]]
  have metrics: "triple (\<lambda>w. ?BM (cl w) \<and> ?S (cl w)) (bindE (wrapE g (dcrh_handleNodeMetrics ?H d)) (\<lambda>_. ret zeroResult))
      (\<lambda>_ w. converged lib f b d (cl w)) (\<lambda>_ _. True)" for g
    unfolding converged_def by (intro triple_bind [OF triple_wrap]) (assumption, simp add: triple_ret)
  show ?thesis
    unfolding afterFinalizer_def NewReconciler_simps
    by (rule triple_bind [OF build], rule triple_bind [OF kmm], rule triple_bind [OF upgrade],
        rule triple_bind [OF scheduler], rule metrics)
qed

text \<open>The DeviceConfig that \<open>setFinalizer\<close> returns is the stored one, with the finalizer.\<close>

lemma setFinalizer_stored:
  assumes "lawfulClient lib c cl" and "lawfulFinalizers lib" and "cl_DeviceConfigs (cl w) (keyOf (dc_Meta d)) = Some d"
    and "dcrh_setFinalizer lib (operatorHelper lib c f b) d w = (Inr d', w')"
  shows "\<exists>fs. d' = setFinalizers fs d \<and> deviceConfigFinalizer \<in> set fs \<and>
    cl_DeviceConfigs (cl w') (keyOf (dc_Meta d)) = Some d'"
proof -
  have cf: "containsFinalizer lib fs x \<longleftrightarrow> x \<in> set fs" "x \<in> set (addFinalizer lib fs x)" for fs x
    using assms(2) by (auto simp: lawfulFinalizers_def)
  show ?thesis
  proof (cases "deviceConfigFinalizer \<in> set (dc_Finalizers d)")
    case True
    with assms(3,4) show ?thesis
      by (auto simp: dcrh_setFinalizer_def cf intro!: exI [of _ "dc_Finalizers d"])
  next
    case False
    let ?fs = "addFinalizer lib (dc_Finalizers d) deviceConfigFinalizer"
    have new: "deviceConfigFinalizer \<in> set ?fs" "?fs \<noteq> dc_Finalizers d" "?fs \<noteq> []"
      using cf(2) [of deviceConfigFinalizer "dc_Finalizers d"] False by auto
    have "apiPatch (DeviceConfigs c) (setFinalizers ?fs d) d w = (Inr d', w')"
      using assms(4) False by (simp add: dcrh_setFinalizer_def cf Let_def)
    with patchDC_exact [OF assms(1), where obj = "setFinalizers ?fs d" and base = d and w = w] assms(3) new show ?thesis
      by (intro exI [of _ ?fs]) (auto simp: storeDC_at mergedList_def)
  qed
qed

lemma Reconcile_converges:
  assumes "lawfulClient lib c cl" and "lawfulOwner lib" and "lawfulFinalizers lib"
    and "cl_DeviceConfigs (cl w) (keyOf (dc_Meta d)) = Some d" and "om_DeletionTimestamp (dc_Meta d) = None"
    and "Reconcile (operatorReconciler lib c f b) d w = (Inr res, w')"
  obtains fs where "deviceConfigFinalizer \<in> set fs"
    "cl_DeviceConfigs (cl w') (keyOf (dc_Meta d)) = Some (setFinalizers fs d)"
    "converged lib f b (setFinalizers fs d) (cl w')"
proof -
  from assms(6) obtain d' w1 where s: "dcrh_setFinalizer lib (operatorHelper lib c f b) d w = (Inr d', w1)"
    and run: "afterFinalizer (operatorReconciler lib c f b) d' w1 = (Inr res, w')"
    by (auto simp: Reconcile_alive [OF assms(5)] io_simps)
  obtain fs where d': "d' = setFinalizers fs d" "deviceConfigFinalizer \<in> set fs"
    "cl_DeviceConfigs (cl w1) (keyOf (dc_Meta d)) = Some d'"
    using setFinalizer_stored [OF assms(1,3,4) s] by blast
  have "keeps (\<lambda>v. lawfulClient lib c cl \<longrightarrow> cl_DeviceConfigs (cl v) = cl_DeviceConfigs (cl w1))
      (afterFinalizer (operatorReconciler lib c f b) d')"
    by (rule devconfigs.afterFinalizer_keeps) simp
  then have "cl_DeviceConfigs (cl w') = cl_DeviceConfigs (cl w1)"
    using run assms(1) unfolding keeps_def by (metis snd_conv)
  moreover have "converged lib f b d' (cl w')"
    using triple_Inr [OF afterFinalizer_converges [OF assms(1,2)] TrueI run] .
  ultimately show thesis using that d' by simp
qed

section \<open>A converged cluster stays\<close>

text \<open>The part of the cluster that is not nodes, as a value.\<close>

definition withNodes :: "(nsname \<rightharpoonup> Node) \<Rightarrow> cluster \<Rightarrow> cluster" where
  "withNodes ns c = c\<lparr>cl_Nodes := ns\<rparr>"

lemma converged_withNodes: "converged lib f b d (withNodes ns c) \<longleftrightarrow> converged lib f b d c"
  by (simp add: withNodes_def converged_def builtAt_def moduleAt_def schedulerAt_def metricsAt_def)

lemma sameButNodes_iff: "sameButNodes c c' \<longleftrightarrow> (\<exists>ns. c' = withNodes ns c)"
proof
  assume "sameButNodes c c'"
  then have eq: "c' = withNodes (cl_Nodes c') c" by (simp add: sameButNodes_def withNodes_def)
  show "\<exists>ns. c' = withNodes ns c" by (rule exI, rule eq)
qed (auto simp: sameButNodes_def withNodes_def)

lemma keeps_ex: "(\<And>y. keeps (\<lambda>w. I y w) m) \<Longrightarrow> keeps (\<lambda>w. \<exists>y. I y w) m"
  unfolding keeps_def by blast

lemma keeps_sameButNodes:
  assumes "\<And>ns. keeps (\<lambda>w. cl w = withNodes ns C) m"
  shows "keeps (\<lambda>w. sameButNodes C (cl w)) m"
  unfolding sameButNodes_iff using assms by (rule keeps_ex)

text \<open>Each handler leaves its converged part alone.\<close>

lemma converged_handlers:
  assumes "lawfulClient lib c cl" and "converged lib f b d C"
  shows "keeps (\<lambda>w. cl w = C) (dcrh_handleBuildConfigMap (operatorHelper lib c f b) d)"
    and "keeps (\<lambda>w. cl w = C) (dcrh_handleKMMModule (operatorHelper lib c f b) d)"
    and "DRADriverImage (dc_Spec d) = [] \<Longrightarrow> keeps (\<lambda>w. cl w = C) (dcrh_handleCustomScheduler lib (operatorHelper lib c f b) d)"
    and "keeps (\<lambda>w. cl w = C) (dcrh_handleNodeMetrics (operatorHelper lib c f b) d)"
proof -
  note conv = assms(2) [unfolded converged_def builtAt_def moduleAt_def schedulerAt_def metricsAt_def]
  note at = keeps_at_desired [where C = C]
  show "keeps (\<lambda>w. cl w = C) (dcrh_handleBuildConfigMap (operatorHelper lib c f b) d)"
    unfolding dcrh_handleBuildConfigMap_def Let_def newHelper_simps
    by (intro keeps_bind keeps_ret at [OF lawfulClientD(11) [OF assms(1)] lenses(4)])
       (use conv in \<open>simp add: GetDockerfileCMName_def\<close>)
  show "keeps (\<lambda>w. cl w = C) (dcrh_handleKMMModule (operatorHelper lib c f b) d)"
    unfolding dcrh_handleKMMModule_def Let_def newHelper_simps
    by (intro keeps_bind keeps_ret at [OF lawfulClientD(13) [OF assms(1)] lenses(1)]) (use conv in simp)
  show "keeps (\<lambda>w. cl w = C) (dcrh_handleNodeMetrics (operatorHelper lib c f b) d)"
    unfolding dcrh_handleNodeMetrics_def Let_def newHelper_simps mutates_eq
    by (intro keeps_bind keeps_ret at [OF lawfulClientD(15) [OF assms(1)] lenses(2)]) (use conv in simp)
  assume "DRADriverImage (dc_Spec d) = []"
  with conv show "keeps (\<lambda>w. cl w = C) (dcrh_handleCustomScheduler lib (operatorHelper lib c f b) d)"
    unfolding dcrh_handleCustomScheduler_def Let_def newHelper_simps mutates_eq
    by (intro keeps_bind keeps_wrap keeps_ret at [OF lawfulClientD(14) [OF assms(1)] lenses(3)]) simp_all
qed

lemma converged_stays:
  assumes "lawfulClient lib c cl" and "lawfulFinalizers lib" and "converged lib f b d C"
    and "deviceConfigFinalizer \<in> set (dc_Finalizers d)" and "om_DeletionTimestamp (dc_Meta d) = None"
  shows "keeps (\<lambda>w. sameButNodes C (cl w)) (Reconcile (operatorReconciler lib c f b) d)"
proof -
  let ?I = "\<lambda>w. sameButNodes C (cl w)"
  have conv: "converged lib f b d (withNodes ns C)" for ns using assms(3) by (simp add: converged_withNodes)
  note h = converged_handlers [OF assms(1) conv]
  have up: "keeps ?I (dcrh_handleModuleVersionUpgrade (operatorHelper lib c f b) d)"
    by (rule keeps_upgrade [OF assms(1)]) (auto dest!: did_frame simp: clusterFrame_def sameButNodes_def)
  have set: "dcrh_setFinalizer lib (operatorHelper lib c f b) d = ret d"
    using assms(2,4) by (simp add: dcrh_setFinalizer_def lawfulFinalizers_def)
  show ?thesis
    unfolding Reconcile_alive [OF assms(5)] afterFinalizer_def NewReconciler_simps set wrapE_simps bindE_simps
    by (intro keeps_bind keeps_wrap keeps_if keeps_ret up keeps_sameButNodes h)
qed

section \<open>Device-plugin objects in DRA mode\<close>

interpretation draMode: reconciler_handlers "operatorReconciler lib c f b" "\<lambda>d. DRADriverImage (dc_Spec d) \<noteq> []"
  "\<lambda>w. lawfulClient lib c cl \<longrightarrow> cl_Deployments (cl w) = m" for lib c f b cl m
proof (cases "lawfulClient lib c cl")
  case True
  have "keeps (\<lambda>w. cl_Deployments (cl w) = m) (dcrh_handleModuleVersionUpgrade (operatorHelper lib c f b) d)" for d
    by (rule keeps_upgrade [where I = "\<lambda>c. cl_Deployments c = m", OF True])
       (auto dest!: did_frame simp: clusterFrame_def)
  then show "reconciler_handlers (operatorReconciler lib c f b) (\<lambda>d. DRADriverImage (dc_Spec d) \<noteq> [])
      (\<lambda>w. lawfulClient lib c cl \<longrightarrow> cl_Deployments (cl w) = m)"
    using True by unfold_locales
      (simp_all add: keeps_build [where I = "\<lambda>c. cl_Deployments c = m", OF True]
        keeps_kmm [where I = "\<lambda>c. cl_Deployments c = m", OF True]
        keeps_metrics [where I = "\<lambda>c. cl_Deployments c = m", OF True])
next
  case False
  then show "reconciler_handlers (operatorReconciler lib c f b) (\<lambda>d. DRADriverImage (dc_Spec d) \<noteq> [])
      (\<lambda>w. lawfulClient lib c cl \<longrightarrow> cl_Deployments (cl w) = m)"
    by unfold_locales (simp_all add: keeps_def)
qed

section \<open>Properties\<close>

text \<open>
  C3: convergence. After a successful reconciliation of a stored DeviceConfig the finalizer is
  set and every object of the DeviceConfig (the build config map, the Module, without a DRA
  driver the two scheduler Deployments, the metrics DaemonSet) exists and is exactly what
  the DeviceConfig asks for: setting it as desired again would not change it.
\<close>

theorem reconcile_converges:
  assumes "lawfulClient lib c cl" and "lawfulOwner lib" and "lawfulFinalizers lib"
    and "cl_DeviceConfigs (cl w) (keyOf (dc_Meta d)) = Some d" and "om_DeletionTimestamp (dc_Meta d) = None"
    and "Reconcile (operatorReconciler lib c f b) d w = (Inr res, w')"
  shows "\<exists>fs. deviceConfigFinalizer \<in> set fs \<and>
    cl_DeviceConfigs (cl w') (keyOf (dc_Meta d)) = Some (setFinalizers fs d) \<and>
    converged lib f b (setFinalizers fs d) (cl w')"
  by (rule Reconcile_converges [OF assms]) blast

text \<open>The example of two fresh nodes.\<close>

lemma ex_reconciled:
  obtains w' where "Reconcile (operatorReconciler memLib memClient ''FROM'' False) (exDC ''2'')
      (exWorld [exFresh ''a'', exFresh ''b''] [exDC ''2'']) = (Inr zeroResult, w')"
    and "m_DeviceConfigs w' = [setFinalizers [deviceConfigFinalizer] (exDC ''2'')]"
  using ex_Reconcile [OF ex_upgrade] by blast

lemma reconcile_converges_witness:
  "\<exists>w' fs. Reconcile (operatorReconciler memLib memClient ''FROM'' False) (exDC ''2'')
       (exWorld [exFresh ''a'', exFresh ''b''] [exDC ''2'']) = (Inr zeroResult, w') \<and>
     converged memLib ''FROM'' False (setFinalizers fs (exDC ''2'')) (memCluster w')"
proof -
  obtain w' where run: "Reconcile (operatorReconciler memLib memClient ''FROM'' False) (exDC ''2'')
      (exWorld [exFresh ''a'', exFresh ''b''] [exDC ''2'']) = (Inr zeroResult, w')" by (rule ex_reconciled)
  with reconcile_converges [OF lawfulClient_mem lawfulOwner_mem lawfulFinalizers_mem _ _ run] show ?thesis by auto
qed

text \<open>
  C12: idempotence. After a successful reconciliation, reconciling the DeviceConfig again, as
  often as one likes and whatever the outcomes, changes nothing in the cluster but nodes
  (the upgrade goes on).
\<close>

theorem reconcile_idempotent:
  assumes "lawfulClient lib c cl" and "lawfulOwner lib" and "lawfulFinalizers lib"
    and "cl_DeviceConfigs (cl w) (keyOf (dc_Meta d)) = Some d" and "om_DeletionTimestamp (dc_Meta d) = None"
    and "Reconcile (operatorReconciler lib c f b) d w = (Inr res, w')"
    and "(\<lambda>v v'. \<exists>d' r. cl_DeviceConfigs (cl v) (keyOf (dc_Meta d)) = Some d' \<and>
      Reconcile (operatorReconciler lib c f b) d' v = (r, v'))\<^sup>*\<^sup>* w' w''"
  shows "sameButNodes (cl w') (cl w'')"
proof (rule Reconcile_converges [OF assms(1-6)])
  fix fs assume fs: "deviceConfigFinalizer \<in> set fs"
    and d': "cl_DeviceConfigs (cl w') (keyOf (dc_Meta d)) = Some (setFinalizers fs d)"
    and conv: "converged lib f b (setFinalizers fs d) (cl w')"
  from assms(7) show ?thesis
  proof (induction rule: rtranclp_induct)
    case base
    then show ?case by simp
  next
    case (step v v')
    then obtain d1 r where at: "cl_DeviceConfigs (cl v) (keyOf (dc_Meta d)) = Some d1"
      and run: "Reconcile (operatorReconciler lib c f b) d1 v = (r, v')" by blast
    from at d' step.IH have "d1 = setFinalizers fs d" by (simp add: sameButNodes_def)
    with converged_stays [OF assms(1,3) conv] fs assms(5)
    have "keeps (\<lambda>w. sameButNodes (cl w') (cl w)) (Reconcile (operatorReconciler lib c f b) d1)" by simp
    with step.IH run show ?case unfolding keeps_def by (metis snd_conv)
  qed
qed

lemma reconcile_idempotent_witness:
  "\<exists>w'. Reconcile (operatorReconciler memLib memClient ''FROM'' False) (exDC ''2'')
       (exWorld [exFresh ''a'', exFresh ''b''] [exDC ''2'']) = (Inr zeroResult, w') \<and>
     sameButNodes (memCluster w') (memCluster (snd (Reconcile (operatorReconciler memLib memClient ''FROM'' False)
       (setFinalizers [deviceConfigFinalizer] (exDC ''2'')) w')))"
proof -
  obtain w' where run: "Reconcile (operatorReconciler memLib memClient ''FROM'' False) (exDC ''2'')
      (exWorld [exFresh ''a'', exFresh ''b''] [exDC ''2'']) = (Inr zeroResult, w')"
    and d': "m_DeviceConfigs w' = [setFinalizers [deviceConfigFinalizer] (exDC ''2'')]" by (rule ex_reconciled)
  let ?again = "Reconcile (operatorReconciler memLib memClient ''FROM'' False)
    (setFinalizers [deviceConfigFinalizer] (exDC ''2'')) w'"
  have "(\<lambda>v v'. \<exists>d' r. cl_DeviceConfigs (memCluster v) (keyOf (dc_Meta (exDC ''2''))) = Some d' \<and>
      Reconcile (operatorReconciler memLib memClient ''FROM'' False) d' v = (r, v'))\<^sup>*\<^sup>* w' (snd ?again)"
    by (rule r_into_rtranclp) (use d' in \<open>auto intro!: exI [of _ "fst ?again"]\<close>)
  from reconcile_idempotent [OF lawfulClient_mem lawfulOwner_mem lawfulFinalizers_mem _ _ run this] run
  show ?thesis by auto
qed

text \<open>
  C18: the build finds its dockerfile. After a successful reconciliation the Module refers, in
  its build, to a config map of its own namespace that exists and holds the dockerfile of
  the operator under the key that KMM reads.
\<close>

theorem module_build_resolves:
  assumes "lawfulClient lib c cl" and "lawfulOwner lib" and "lawfulFinalizers lib"
    and "cl_DeviceConfigs (cl w) (keyOf (dc_Meta d)) = Some d" and "om_DeletionTimestamp (dc_Meta d) = None"
    and "Reconcile (operatorReconciler lib c f b) d w = (Inr res, w')"
  shows "\<exists>m l mp build nm. cl_Modules (cl w') (NN (dc_Namespace d) (dc_Name d)) = Some m \<and>
    ms_ModuleLoader (mod_Spec m) = Some l \<and> ml_KernelMappings l = [mp] \<and> km_Build mp = Some build \<and>
    build_DockerfileConfigMap build = Some nm \<and> configMapHas (cl w') (dc_Namespace d) nm ''dockerfile'' f"
proof (rule Reconcile_converges [OF assms])
  fix fs assume "converged lib f b (setFinalizers fs d) (cl w')"
  then have built: "builtAt lib f (setFinalizers fs d) (cl w')" and mod: "moduleAt lib (setFinalizers fs d) (cl w')"
    by (simp_all add: converged_def)
  from mod show ?thesis
    by (rule moduleAt_loader) (use builtAt_dockerfile [OF built] in auto)
qed

lemma module_build_resolves_witness:
  "\<exists>w' m nm. Reconcile (operatorReconciler memLib memClient ''FROM'' False) (exDC ''2'')
       (exWorld [exFresh ''a'', exFresh ''b''] [exDC ''2'']) = (Inr zeroResult, w') \<and>
     cl_Modules (memCluster w') (NN ''ns'' ''neuron'') = Some m \<and>
     configMapHas (memCluster w') ''ns'' nm ''dockerfile'' ''FROM''"
proof -
  obtain w' where run: "Reconcile (operatorReconciler memLib memClient ''FROM'' False) (exDC ''2'')
      (exWorld [exFresh ''a'', exFresh ''b''] [exDC ''2'']) = (Inr zeroResult, w')" by (rule ex_reconciled)
  from module_build_resolves [OF lawfulClient_mem lawfulOwner_mem lawfulFinalizers_mem _ _ run] run
  show ?thesis by auto
qed

text \<open>
  C23: what the Module in the cluster asks for. After a successful reconciliation of a stored
  DeviceConfig, whatever Module was there before, the stored Module loads the wanted version
  from the image of the DeviceConfig (or the one in the cluster's registry for this version),
  built for it from the dockerfile; it selects the nodes of the selector, or those with a
  Neuron device; the taints it tolerates are exactly that of the upgrade and that of an
  unschedulable node; and in DRA mode and in device-plugin mode it runs the driver, with the
  device classes of the spec, or the plugin, as asked.
\<close>

theorem reconciled_module:
  assumes "lawfulClient lib c cl" and "lawfulOwner lib" and "lawfulFinalizers lib"
    and "cl_DeviceConfigs (cl w) (keyOf (dc_Meta d)) = Some d" and "om_DeletionTimestamp (dc_Meta d) = None"
    and "Reconcile (operatorReconciler lib c f b) d w = (Inr res, w')"
  shows "\<exists>m. cl_Modules (cl w') (NN (dc_Namespace d) (dc_Name d)) = Some m \<and>
    driverAsked d (mod_Spec m) \<and> modeAsked d (mod_Spec m)"
proof (rule Reconcile_converges [OF assms])
  fix fs assume "converged lib f b (setFinalizers fs d) (cl w')"
  then obtain m where m: "cl_Modules (cl w') (NN (dc_Namespace d) (dc_Name d)) = Some m"
    "SetKMMModuleAsDesired lib (setFinalizers fs d) m = Inr m" by (auto simp: converged_def moduleAt_def desiredAt_def)
  have "dc_Spec (setFinalizers fs d) = dc_Spec d" "dc_Name (setFinalizers fs d) = dc_Name d"
    by (simp_all add: setFinalizers_def)
  from module_driver [OF m(2), unfolded asked_cong(1) [OF this]] module_mode [OF m(2), unfolded asked_cong(2) [OF this]] m(1)
  show ?thesis by blast
qed

lemma reconciled_module_witness:
  "\<exists>w' m l. Reconcile (operatorReconciler memLib memClient ''FROM'' False) (exDC ''2'')
       (exWorld [exFresh ''a'', exFresh ''b''] [exDC ''2'']) = (Inr zeroResult, w') \<and>
     cl_Modules (memCluster w') (NN ''ns'' ''neuron'') = Some m \<and> ms_ModuleLoader (mod_Spec m) = Some l \<and>
     map km_ContainerImage (ml_KernelMappings l) =
       [''drivers-$KERNEL_VERSION'']"
proof -
  obtain w' where run: "Reconcile (operatorReconciler memLib memClient ''FROM'' False) (exDC ''2'')
      (exWorld [exFresh ''a'', exFresh ''b''] [exDC ''2'']) = (Inr zeroResult, w')" by (rule ex_reconciled)
  have "DriversImage (dc_Spec (exDC ''2'')) = ''drivers''" by (simp add: exDC_def zeroDeviceConfig_def zeroSpec_def)
  moreover obtain m where "cl_Modules (memCluster w') (NN ''ns'' ''neuron'') = Some m" "driverAsked (exDC ''2'') (mod_Spec m)"
    using reconciled_module [OF lawfulClient_mem lawfulOwner_mem lawfulFinalizers_mem _ _ run] by auto
  ultimately show ?thesis using run by (auto simp: driverAsked_def)
qed

text \<open>What the workloads are after a successful reconciliation.\<close>

lemma scheduler_spec: "schedulerMutate b lib d x = Inr y \<Longrightarrow> dep_Spec y = dep_Spec (SetCustomSchedulerAsDesired b x d)"
  and extension_spec: "extensionMutate lib d x = Inr y \<Longrightarrow> dep_Spec y = dep_Spec (SetCustomSchedulerExtensionAsDesired x d)"
  by (auto simp: schedulerMutate_def extensionMutate_def ownDeployment_Inr)

text \<open>
  C36: the workloads in the cluster. After a successful reconciliation of a stored
  DeviceConfig its metrics DaemonSet, and without a DRA driver its two scheduler Deployments,
  are stored; each of their pod templates has what the API server requires of the fields
  modelled (named containers with images, named volumes that every mount refers to) if and
  only if the DeviceConfig gives its image; each selector selects its own pods, and those of
  the two Deployments do not select each other's. No selector mentions the DeviceConfig: each
  also selects the pods that the same workload of any other DeviceConfig d2 has.
\<close>

theorem reconciled_workloads:
  assumes "lawfulClient lib c cl" and "lawfulOwner lib" and "lawfulFinalizers lib"
    and "cl_DeviceConfigs (cl w) (keyOf (dc_Meta d)) = Some d" and "om_DeletionTimestamp (dc_Meta d) = None"
    and "Reconcile (operatorReconciler lib c f b) d w = (Inr res, w')"
  shows "(\<exists>ds. cl_DaemonSets (cl w') (NN (dc_Namespace d) (dc_Name d @ ''-node-metrics'')) = Some ds \<and>
      (podOK (tmpl_Spec (dss_Template (ds_Spec ds))) \<longleftrightarrow> NodeMetricsImage (dc_Spec d) \<noteq> []) \<and>
      selectsOwn (dss_Selector (ds_Spec ds)) (dss_Template (ds_Spec ds)) \<and>
      (\<forall>d2. selectsPods (dss_Selector (ds_Spec ds)) (dss_Template (metricsSpec lib d2)))) \<and>
    (DRADriverImage (dc_Spec d) = [] \<longrightarrow>
      (\<exists>s e. cl_Deployments (cl w') (NN (dc_Namespace d) (dc_Name d @ ''-custom-scheduler'')) = Some s \<and>
        cl_Deployments (cl w') (NN (dc_Namespace d) (dc_Name d @ ''-custom-scheduler-extension'')) = Some e \<and>
        (podOK (tmpl_Spec (dps_Template (dep_Spec s))) \<longleftrightarrow> CustomSchedulerImage (dc_Spec d) \<noteq> []) \<and>
        (podOK (tmpl_Spec (dps_Template (dep_Spec e))) \<longleftrightarrow> SchedulerExtensionImage (dc_Spec d) \<noteq> []) \<and>
        selectsOwn (dps_Selector (dep_Spec s)) (dps_Template (dep_Spec s)) \<and>
        selectsOwn (dps_Selector (dep_Spec e)) (dps_Template (dep_Spec e)) \<and>
        \<not> selectsPods (dps_Selector (dep_Spec s)) (dps_Template (dep_Spec e)) \<and>
        \<not> selectsPods (dps_Selector (dep_Spec e)) (dps_Template (dep_Spec s)) \<and>
        (\<forall>d2 x y. schedulerMutate b lib d2 x = Inr y \<longrightarrow> selectsPods (dps_Selector (dep_Spec s)) (dps_Template (dep_Spec y))) \<and>
        (\<forall>d2 x y. extensionMutate lib d2 x = Inr y \<longrightarrow> selectsPods (dps_Selector (dep_Spec e)) (dps_Template (dep_Spec y)))))"
proof (rule Reconcile_converges [OF assms])
  fix fs assume conv: "converged lib f b (setFinalizers fs d) (cl w')"
  let ?d = "setFinalizers fs d"
  have spec: "dc_Spec ?d = dc_Spec d" by (simp add: setFinalizers_def)
  note pods = workload_pods [where d = ?d, unfolded spec]
  from conv obtain ds where "cl_DaemonSets (cl w') (NN (dc_Namespace d) (dc_Name d @ ''-node-metrics'')) = Some ds"
    "ds_Spec ds = metricsSpec lib ?d" by (auto simp: converged_def metricsAt_def desiredAt_def metricsMutate_Inr)
  moreover have "\<exists>s e. cl_Deployments (cl w') (NN (dc_Namespace d) (dc_Name d @ ''-custom-scheduler'')) = Some s \<and>
      cl_Deployments (cl w') (NN (dc_Namespace d) (dc_Name d @ ''-custom-scheduler-extension'')) = Some e \<and>
      dep_Spec s = dep_Spec (SetCustomSchedulerAsDesired b s ?d) \<and> dep_Spec e = dep_Spec (SetCustomSchedulerExtensionAsDesired e ?d)"
    if "DRADriverImage (dc_Spec d) = []"
    using conv that by (auto simp: converged_def schedulerAt_def desiredAt_def dest: scheduler_spec extension_spec)
  moreover have "selectsPods (dps_Selector (dep_Spec (SetCustomSchedulerAsDesired b s ?d))) (dps_Template (dep_Spec y))"
    if "schedulerMutate b lib d2 x = Inr y" for s d2 x y
    unfolding scheduler_spec [OF that] by (rule workload_overlap)
  moreover have "selectsPods (dps_Selector (dep_Spec (SetCustomSchedulerExtensionAsDesired s ?d))) (dps_Template (dep_Spec y))"
    if "extensionMutate lib d2 x = Inr y" for s d2 x y
    unfolding extension_spec [OF that] by (rule workload_overlap)
  ultimately show ?thesis by (auto simp: pods workload_selectors workload_overlap)
qed

lemma reconciled_workloads_witness:
  "\<exists>w' s. Reconcile (operatorReconciler memLib memClient ''FROM'' False) (exDC ''2'')
       (exWorld [exFresh ''a'', exFresh ''b''] [exDC ''2'']) = (Inr zeroResult, w') \<and>
     cl_Deployments (memCluster w') (NN ''ns'' ''neuron-custom-scheduler'') = Some s \<and>
     \<not> podOK (tmpl_Spec (dps_Template (dep_Spec s)))"
proof -
  obtain w' where run: "Reconcile (operatorReconciler memLib memClient ''FROM'' False) (exDC ''2'')
      (exWorld [exFresh ''a'', exFresh ''b''] [exDC ''2'']) = (Inr zeroResult, w')" by (rule ex_reconciled)
  have "DRADriverImage (dc_Spec (exDC ''2'')) = []" "CustomSchedulerImage (dc_Spec (exDC ''2'')) = []"
    by (simp_all add: exDC_def zeroDeviceConfig_def zeroSpec_def)
  with reconciled_workloads [OF lawfulClient_mem lawfulOwner_mem lawfulFinalizers_mem _ _ run] run show ?thesis by auto
qed

text \<open>
  C39: no scheduler in DRA mode. Reconciling a stored DeviceConfig with a DRA driver, whatever
  the outcome, creates, changes and removes no Deployment. (So the Deployments of an earlier
  device-plugin mode stay.)
\<close>

theorem dra_mode_leaves_deployments:
  assumes "lawfulClient lib c cl" and "lawfulFinalizers lib"
    and "cl_DeviceConfigs (cl w) (keyOf (dc_Meta d)) = Some d" and "om_DeletionTimestamp (dc_Meta d) = None"
    and "DRADriverImage (dc_Spec d) \<noteq> []" and "Reconcile (operatorReconciler lib c f b) d w = (r, w')"
  shows "cl_Deployments (cl w') = cl_Deployments (cl w)"
proof -
  let ?h = "operatorReconciler lib c f b"
  obtain r1 w1 where s: "dcrh_setFinalizer lib (operatorHelper lib c f b) d w = (r1, w1)" by fastforce
  have "keeps (\<lambda>w. cl_Deployments (cl w) = m) (dcrh_setFinalizer lib (operatorHelper lib c f b) d)" for m
    unfolding dcrh_setFinalizer_def Let_def newHelper_simps
    by (intro keeps_if keeps_ret keeps_patchDC [where I = "\<lambda>c. cl_Deployments c = m", OF assms(1)])
       (simp add: storeDC_def)
  with s have w1: "cl_Deployments (cl w1) = cl_Deployments (cl w)" unfolding keeps_def by (metis snd_conv)
  show ?thesis
  proof (cases r1)
    case (Inl e)
    with assms(6) s w1 show ?thesis by (simp add: Reconcile_alive [OF assms(4)] bindE_def wrapE_def tryE_def)
  next
    case (Inr d')
    with setFinalizer_stored [OF assms(1-3)] s assms(5) have dra: "DRADriverImage (dc_Spec d') \<noteq> []" by fastforce
    from assms(6) s Inr have run: "afterFinalizer ?h d' w1 = (r, w')"
      by (simp add: Reconcile_alive [OF assms(4)] bindE_def wrapE_def tryE_def)
    have "keeps (\<lambda>v. lawfulClient lib c cl \<longrightarrow> cl_Deployments (cl v) = cl_Deployments (cl w)) (afterFinalizer ?h d')"
      by (rule draMode.afterFinalizer_keeps) (rule dra)
    with run w1 assms(1) show ?thesis unfolding keeps_def by (metis snd_conv)
  qed
qed

lemma dra_mode_leaves_deployments_witness:
  "cl_Deployments (memCluster (snd (Reconcile (operatorReconciler memLib memClient ''FROM'' False) (exMode ''dra'' [])
     (exWorld [exFresh ''a''] [exMode ''dra'' []])))) = Map.empty"
proof -
  have "DRADriverImage (dc_Spec (exMode ''dra'' [])) \<noteq> []" by (simp add: exMode_def)
  from dra_mode_leaves_deployments [OF lawfulClient_mem lawfulFinalizers_mem _ _ this prod.collapse [symmetric]]
  have "cl_Deployments (memCluster (snd (Reconcile (operatorReconciler memLib memClient ''FROM'' False) (exMode ''dra'' [])
     (exWorld [exFresh ''a''] [exMode ''dra'' []])))) = cl_Deployments (memCluster (exWorld [exFresh ''a''] [exMode ''dra'' []]))"
    by simp
  then show ?thesis by (simp add: memCluster_def fun_eq_iff)
qed

end
