(* ===== verification/Budget.thy ===== *)
theory Budget
  imports Converge
begin

text \<open>
  The disruption budget of a single reconciliation: how many nodes one call may write to, and
  how many it may move to another version, whatever its outcome; and that the Module is told
  of a version before any node is.
\<close>

section \<open>Changes of nodes\<close>

definition versionAt :: "library \<Rightarrow> DeviceConfig \<Rightarrow> (nsname \<rightharpoonup> Node) \<Rightarrow> nsname \<Rightarrow> string option" where
  "versionAt lib d N k = (case N k of None \<Rightarrow> None | Some n \<Rightarrow> mapGet (node_Labels n) (versionLabel lib d))"

definition writtenNodes :: "cluster \<Rightarrow> cluster \<Rightarrow> nsname set" where
  "writtenNodes c c' = {k. cl_Nodes c' k \<noteq> cl_Nodes c k}"

definition movedNodes :: "library \<Rightarrow> DeviceConfig \<Rightarrow> cluster \<Rightarrow> cluster \<Rightarrow> nsname set" where
  "movedNodes lib d c c' = {k. versionAt lib d (cl_Nodes c') k \<noteq> versionAt lib d (cl_Nodes c) k}"

text \<open>Only nodes in \<open>K\<close> are written to, and only those in \<open>L\<close> get another version.\<close>

definition nodesWithin ::
  "nsname set \<Rightarrow> nsname set \<Rightarrow> library \<Rightarrow> DeviceConfig \<Rightarrow> (nsname \<rightharpoonup> Node) \<Rightarrow> (nsname \<rightharpoonup> Node) \<Rightarrow> bool" where
  "nodesWithin K L lib d N N' \<longleftrightarrow>
     (\<forall>k. k \<notin> K \<longrightarrow> N' k = N k) \<and> (\<forall>k. k \<notin> L \<longrightarrow> versionAt lib d N' k = versionAt lib d N k)"

lemma nodesWithin_refl [simp]: "nodesWithin K L lib d N N"
  by (simp add: nodesWithin_def)

lemma nodesWithin_trans:
  "nodesWithin K L lib d A B \<Longrightarrow> nodesWithin K L lib d B C \<Longrightarrow> nodesWithin K L lib d A C"
  by (simp add: nodesWithin_def)

lemma nodesWithin_mono:
  "nodesWithin K L lib d A B \<Longrightarrow> K \<subseteq> K' \<Longrightarrow> L \<subseteq> L' \<Longrightarrow> nodesWithin K' L' lib d A B"
  by (auto simp: nodesWithin_def)

lemma rewrote_within:
  "rewrote n ls ts c c' n' \<Longrightarrow> nodesWithin {keyOf (node_Meta n)} {keyOf (node_Meta n)} lib d (cl_Nodes c) (cl_Nodes c')"
  by (simp add: nodesWithin_def versionAt_def rewrote_Nodes)

lemma retaint_within:
  assumes "rewrote n (mapGet (node_Labels n)) ts c c' n'" and "stored c n"
  shows "nodesWithin {keyOf (node_Meta n)} {} lib d (cl_Nodes c) (cl_Nodes c')"
  using assms(2) rewrote_labels [OF assms(1)]
  by (simp add: nodesWithin_def versionAt_def rewrote_Nodes [OF assms(1)] stored_def)

lemma uncordon_within:
  assumes "did lib d [Uncordon] c c'"
  shows "\<exists>j. nodesWithin {j} {} lib d (cl_Nodes c) (cl_Nodes c')"
proof -
  from assms obtain as where "subseq as [Uncordon]" "rollout_run lib d as c c'" unfolding did_def by blast
  then consider "c' = c" | "rollout_step lib d Uncordon c c'"
    by (cases as) (auto simp: run_Cons_iff dest: list_emb_Nil2 split: if_splits)
  then show ?thesis
    by cases (auto elim!: UncordonE dest!: retaint_within targetedNodes_stored)
qed

text \<open>
  The budget: one node is written to for its uncordoning and one for its upgrade, and only
  the latter gets another version. While the call is between cordon and start, the node it
  goes on with is the one it cordoned.
\<close>

definition withinBudget :: "library \<Rightarrow> DeviceConfig \<Rightarrow> cluster \<Rightarrow> cluster \<Rightarrow> bool" where
  "withinBudget lib d c c' \<longleftrightarrow> (\<exists>j k. nodesWithin {j, k} {k} lib d (cl_Nodes c) (cl_Nodes c'))"

definition cordonedOne :: "library \<Rightarrow> DeviceConfig \<Rightarrow> cluster \<Rightarrow> Node option \<Rightarrow> cluster \<Rightarrow> bool" where
  "cordonedOne lib d c q c' \<longleftrightarrow> (\<exists>j k. nodesWithin {j, k} {} lib d (cl_Nodes c) (cl_Nodes c') \<and>
     (\<forall>n. q = Some n \<longrightarrow> stored c' n \<and> keyOf (node_Meta n) = k))"

lemma withinBudget_refl [simp]: "withinBudget lib d c c"
  by (simp add: withinBudget_def)

lemma uncordon_budget: "did lib d [Uncordon] c c' \<Longrightarrow> withinBudget lib d c c'"
  unfolding withinBudget_def by (blast dest: uncordon_within intro: nodesWithin_mono)

section \<open>The upgrade handler\<close>

context upgrade_api
begin

text \<open>The node that is asked for the new version is the one that was cordoned.\<close>

lemma cordon_within:
  assumes "ok" and "\<And>n. p = Some n \<Longrightarrow> stored (cl w) n" and "CordonNodeForUpgrade up d p w = (r, w1)"
  shows "\<exists>k. nodesWithin {k} {} lib d (cl_Nodes (cl w)) (cl_Nodes (cl w1)) \<and>
    (\<forall>q. r = Inr (Some q) \<longrightarrow> stored (cl w1) q \<and> keyOf (node_Meta q) = k)"
proof (cases p)
  case None
  with assms(3) cordon_nil [of d w] show ?thesis by auto
next
  case (Some n)
  have st: "stored (cl w) n" using assms(2) [OF Some] .
  show ?thesis
  proof (cases "isNewNodeForUpgrade lib n d \<or> hasUpgradeTaint (node_Taints n)")
    case True
    with cordon_skip [OF True, of w] assms(3) Some st show ?thesis
      by (intro exI [of _ "keyOf (node_Meta n)"]) auto
  next
    case False
    with cordon [OF assms(1) st, of d r w1] assms(3) Some
    have "wrote cl n (mapGet (node_Labels n)) (node_Taints n @ [upgradeTaint]) w r w1" by simp
    then show ?thesis
    proof (cases rule: wrote_cases)
      case lost
      then show ?thesis by (auto simp: isl_def)
    next
      case (written n')
      from written(2) retaint_within [OF written(1) st] rewrote_new [OF written(1)] rewrote_key [OF written(1)]
      show ?thesis by (intro exI [of _ "keyOf (node_Meta n)"]) auto
    qed
  qed
qed

lemma kickoff_within:
  assumes "ok" and "\<And>n. q = Some n \<Longrightarrow> stored (cl w) n \<and> keyOf (node_Meta n) = k" and "KickoffUpgrade up d q w = (r, w1)"
  shows "nodesWithin {k} {k} lib d (cl_Nodes (cl w)) (cl_Nodes (cl w1))"
proof (cases q)
  case None
  with assms(3) kickoff_nil [of d w] show ?thesis by simp
next
  case (Some n)
  with assms(2) have n: "stored (cl w) n" "keyOf (node_Meta n) = k" by simp_all
  from kickoff [OF assms(1) n(1)] assms(3) Some
  have "wrote cl n ((mapGet (node_Labels n))(versionLabel lib d \<mapsto> wanted d)) (node_Taints n) w r w1" by simp
  then show ?thesis by (cases rule: wrote_cases) (simp_all, metis n(2) rewrote_within)
qed

lemma cordon_budget:
  assumes "ok"
  shows "triple (\<lambda>w. did lib d [Uncordon] c0 (cl w) \<and> (\<forall>n. p = Some n \<longrightarrow> mayPick lib d (cl w) n))
    (CordonNodeForUpgrade up d p) (\<lambda>q w. cordonedOne lib d c0 q (cl w)) (\<lambda>e w. withinBudget lib d c0 (cl w))"
proof -
  have "\<exists>j k. nodesWithin {j, k} {} lib d (cl_Nodes c0) (cl_Nodes (cl v')) \<and>
      (\<forall>q. s = Inr (Some q) \<longrightarrow> stored (cl v') q \<and> keyOf (node_Meta q) = k)"
    if v: "did lib d [Uncordon] c0 (cl v) \<and> (\<forall>n. p = Some n \<longrightarrow> mayPick lib d (cl v) n)"
      and run: "CordonNodeForUpgrade up d p v = (s, v')" for v s v'
  proof -
    have "\<And>n. p = Some n \<Longrightarrow> stored (cl v) n" using v by (auto simp: mayPick_def dest: targetedNodes_stored)
    from cordon_within [OF assms this run] v uncordon_within obtain j k where
      "nodesWithin {j} {} lib d (cl_Nodes c0) (cl_Nodes (cl v))"
      "nodesWithin {k} {} lib d (cl_Nodes (cl v)) (cl_Nodes (cl v'))"
      and k: "\<forall>q. s = Inr (Some q) \<longrightarrow> stored (cl v') q \<and> keyOf (node_Meta q) = k" by metis
    then have "nodesWithin {j, k} {} lib d (cl_Nodes c0) (cl_Nodes (cl v'))"
      by (blast intro: nodesWithin_trans nodesWithin_mono)
    with k show ?thesis by blast
  qed
  then show ?thesis
    unfolding cordonedOne_def withinBudget_def by (intro tripleI) (fastforce intro: nodesWithin_mono)+
qed

lemma kickoff_budget:
  assumes "ok"
  shows "triple (\<lambda>w. cordonedOne lib d c0 q (cl w)) (KickoffUpgrade up d q)
    (\<lambda>_ w. withinBudget lib d c0 (cl w)) (\<lambda>e w. withinBudget lib d c0 (cl w))"
proof -
  have "withinBudget lib d c0 (cl v')"
    if v: "cordonedOne lib d c0 q (cl v)" and run: "KickoffUpgrade up d q v = (s, v')" for v s v'
  proof -
    from v obtain j k where jk: "nodesWithin {j, k} {} lib d (cl_Nodes c0) (cl_Nodes (cl v))"
      "\<And>n. q = Some n \<Longrightarrow> stored (cl v) n \<and> keyOf (node_Meta n) = k" unfolding cordonedOne_def by blast
    from kickoff_within [OF assms(1) jk(2) run] have "nodesWithin {k} {k} lib d (cl_Nodes (cl v)) (cl_Nodes (cl v'))" .
    with jk(1) have "nodesWithin {j, k} {k} lib d (cl_Nodes c0) (cl_Nodes (cl v'))"
      by (blast intro: nodesWithin_trans nodesWithin_mono)
    then show ?thesis unfolding withinBudget_def by blast
  qed
  then show ?thesis by (intro tripleI) blast+
qed

lemma upgrade_budget:
  assumes "ok" and "upgradeHandler dcrh = up"
  shows "triple (\<lambda>w. cl w = c0) (dcrh_handleModuleVersionUpgrade dcrh d)
    (\<lambda>_ w. withinBudget lib d c0 (cl w)) (\<lambda>e w. withinBudget lib d c0 (cl w))"
proof (cases "DriverVersion (dc_Spec d) = []")
  case True
  then show ?thesis by (auto simp: dcrh_handleModuleVersionUpgrade_def intro: triple_ret)
next
  case False
  let ?B = "\<lambda>w. withinBudget lib d c0 (cl w)"
  have last: "triple (\<lambda>w. cordonedOne lib d c0 q (cl w)) (bindE (KickoffUpgrade up d q) (\<lambda>_. ret ())) (\<lambda>_. ?B) (\<lambda>_. ?B)" for q
    by (rule triple_bind [OF kickoff_budget [OF assms(1)]]) (simp add: triple_ret)
  have rest: "triple (\<lambda>w. cl w = c0 \<and> set ns = targetedNodes d c0)
      (bindE (wrapE g (UncordonUpgradedNode up (GetUpgradedNode up d ns)))
        (\<lambda>_. bindE (wrapE h (CordonNodeForUpgrade up d (GetNodeForUpgrade up d ns)))
          (\<lambda>q. bindE (KickoffUpgrade up d q) (\<lambda>_. ret ())))) (\<lambda>_. ?B) (\<lambda>_. ?B)" for ns g h
  proof (cases "set ns = targetedNodes d c0")
    case True
    show ?thesis
      by (rule triple_bind [OF triple_wrap triple_bind [OF triple_wrap last]],
          rule triple_conseq [OF uncordon_triple [OF assms(1) True]],
          simp, assumption, erule uncordon_budget, rule cordon_budget [OF assms(1)])
  next
    case False
    then show ?thesis by (simp add: triple_def)
  qed
  show ?thesis unfolding dcrh_handleModuleVersionUpgrade_def Let_def assms(2) if_not_P [OF False]
    by (rule triple_bind [OF triple_wrap rest], rule triple_conseq [OF targeted_triple [OF assms(1)]]) auto
qed

end

section \<open>A whole reconciliation\<close>

lemma keeps_Nodes:
  assumes "lawfulClient lib c cl"
  shows "keeps (\<lambda>w. cl_Nodes (cl w) = m) (dcrh_setFinalizer lib (operatorHelper lib c f b) d)"
    and "keeps (\<lambda>w. cl_Nodes (cl w) = m) (dcrh_handleBuildConfigMap (operatorHelper lib c f b) d)"
    and "keeps (\<lambda>w. cl_Nodes (cl w) = m) (dcrh_handleKMMModule (operatorHelper lib c f b) d)"
    and "keeps (\<lambda>w. cl_Nodes (cl w) = m) (dcrh_handleCustomScheduler lib (operatorHelper lib c f b) d)"
    and "keeps (\<lambda>w. cl_Nodes (cl w) = m) (dcrh_handleNodeMetrics (operatorHelper lib c f b) d)"
proof -
  show "keeps (\<lambda>w. cl_Nodes (cl w) = m) (dcrh_setFinalizer lib (operatorHelper lib c f b) d)"
    unfolding dcrh_setFinalizer_def Let_def newHelper_simps
    by (intro keeps_if keeps_ret keeps_patchDC [where I = "\<lambda>c. cl_Nodes c = m", OF assms]) (simp add: storeDC_def)
qed (rule keeps_build [where I = "\<lambda>c. cl_Nodes c = m", OF assms] keeps_kmm [where I = "\<lambda>c. cl_Nodes c = m", OF assms]
      keeps_scheduler [where I = "\<lambda>c. cl_Nodes c = m", OF assms]
      keeps_metrics [where I = "\<lambda>c. cl_Nodes c = m", OF assms]; simp)+

lemma withinBudget_nodes:
  assumes "cl_Nodes c = cl_Nodes a" and "cl_Nodes c' = cl_Nodes a'"
  shows "withinBudget lib d c c' = withinBudget lib d a a'"
  by (simp add: withinBudget_def assms)

lemma withinBudget_finalizers [simp]: "withinBudget lib (setFinalizers fs d) = withinBudget lib d"
  by (simp add: fun_eq_iff withinBudget_def nodesWithin_def versionAt_def cong: option.case_cong)

lemma withinBudget_card:
  assumes "withinBudget lib d c c'"
  shows "finite (writtenNodes c c')" and "card (writtenNodes c c') \<le> 2"
    and "movedNodes lib d c c' \<subseteq> writtenNodes c c'" and "card (movedNodes lib d c c') \<le> 1"
proof -
  from assms obtain j k where w: "writtenNodes c c' \<subseteq> {j, k}" and m: "movedNodes lib d c c' \<subseteq> {k}"
    unfolding withinBudget_def nodesWithin_def writtenNodes_def movedNodes_def by blast
  show "finite (writtenNodes c c')" by (rule finite_subset [OF w]) simp
  have "card {j, k} \<le> 2" by (simp add: card_insert_if)
  with card_mono [OF _ w] show "card (writtenNodes c c') \<le> 2" by simp
  show "movedNodes lib d c c' \<subseteq> writtenNodes c c'"
    by (auto simp: movedNodes_def writtenNodes_def versionAt_def)
  show "card (movedNodes lib d c c') \<le> 1" using card_mono [OF _ m] by simp
qed

text \<open>The handlers around the upgrade write to no node, so the budget is the upgrade's.\<close>

lemma keeps_budget:
  "(\<And>N. keeps (\<lambda>w. cl_Nodes (cl w) = N) m) \<Longrightarrow> keeps (\<lambda>w. withinBudget lib d c0 (cl w)) m"
  unfolding keeps_def by (metis withinBudget_nodes)

lemma afterFinalizer_budget:
  assumes "lawfulClient lib c cl"
  shows "triple (\<lambda>w. cl_Nodes (cl w) = cl_Nodes c0) (afterFinalizer (operatorReconciler lib c f b) d)
    (\<lambda>_ w. withinBudget lib d c0 (cl w)) (\<lambda>_ w. withinBudget lib d c0 (cl w))"
proof -
  let ?N = "\<lambda>w. cl_Nodes (cl w) = cl_Nodes c0" and ?B = "\<lambda>w. withinBudget lib d c0 (cl w)"
  have early: "triple ?N m (\<lambda>_. ?N) (\<lambda>_. ?B)" if "keeps ?N m" for m :: "('a, unit) io"
    using that unfolding keeps_triple
    by (rule triple_conseq) (simp_all add: withinBudget_nodes [of _ c0 _ c0])
  have up: "triple ?N (dcrh_handleModuleVersionUpgrade (operatorHelper lib c f b) d) (\<lambda>_. ?B) (\<lambda>_. ?B)"
  proof (rule tripleI)
    fix w r w' assume "?N w" and run: "dcrh_handleModuleVersionUpgrade (operatorHelper lib c f b) d w = (Inr r, w')"
    with triple_Inr [OF ui.upgrade_budget [OF assms] refl run] show "?B w'"
      by (simp add: operatorHelper_defs withinBudget_nodes [of "cl w" c0, OF _ refl])
  next
    fix w e w' assume "?N w" and run: "dcrh_handleModuleVersionUpgrade (operatorHelper lib c f b) d w = (Inl e, w')"
    with triple_Inl [OF ui.upgrade_budget [OF assms] refl run] show "?B w'"
      by (simp add: operatorHelper_defs withinBudget_nodes [of "cl w" c0, OF _ refl])
  qed
  have late: "triple ?B m (\<lambda>_. ?B) (\<lambda>_. ?B)" if "\<And>N. keeps (\<lambda>w. cl_Nodes (cl w) = N) m" for m :: "('a, unit) io"
    using keeps_budget [OF that] by (simp add: keeps_triple)
  show ?thesis
    unfolding afterFinalizer_def NewReconciler_simps
    by (rule triple_bind [OF triple_wrap [OF early [OF keeps_Nodes(2) [OF assms]]]],
        rule triple_bind [OF triple_wrap [OF early [OF keeps_Nodes(3) [OF assms]]]],
        rule triple_bind [OF triple_wrap [OF up]],
        rule triple_bind [OF triple_if [OF triple_wrap [OF late [OF keeps_Nodes(4) [OF assms]]]]],
        simp add: triple_ret,
        rule triple_bind [OF triple_wrap [OF late [OF keeps_Nodes(5) [OF assms]]]],
        simp add: triple_ret)
qed

section \<open>The Module comes before the nodes\<close>

lemma triple_keep:
  "keeps I m \<Longrightarrow> triple (\<lambda>_. True) m Q (\<lambda>_ _. True) \<Longrightarrow> triple I m (\<lambda>x w. I w \<and> Q x w) (\<lambda>_. I)"
  unfolding keeps_triple by (fastforce simp: triple_def split: prod.splits sum.splits)

text \<open>Nodes are still as they were, or the config map and the Module are as desired.\<close>

definition moduleFirst :: "library \<Rightarrow> string \<Rightarrow> DeviceConfig \<Rightarrow> (nsname \<rightharpoonup> Node) \<Rightarrow> cluster \<Rightarrow> bool" where
  "moduleFirst lib f d N c \<longleftrightarrow> cl_Nodes c = N \<or> builtAt lib f d c \<and> moduleAt lib d c"

lemma afterFinalizer_moduleFirst:
  assumes "lawfulClient lib c cl" and "lawfulOwner lib"
  shows "triple (\<lambda>w. cl_Nodes (cl w) = N) (afterFinalizer (operatorReconciler lib c f b) d)
    (\<lambda>_ w. moduleFirst lib f d N (cl w)) (\<lambda>_ w. moduleFirst lib f d N (cl w))"
proof -
  let ?H = "operatorHelper lib c f b"
  let ?N = "\<lambda>x. cl_Nodes x = N" and ?F = "\<lambda>w. moduleFirst lib f d N (cl w)"
  let ?NB = "\<lambda>x. cl_Nodes x = N \<and> builtAt lib f d x" and ?BM = "\<lambda>x. builtAt lib f d x \<and> moduleAt lib d x"
  have late: "triple (\<lambda>w. ?BM (cl w)) m (\<lambda>_ w. ?BM (cl w)) (\<lambda>_. ?F)" if "keeps (\<lambda>w. ?BM (cl w)) m" for m :: "('a, unit) io"
    using that unfolding keeps_triple by (rule triple_conseq) (simp_all add: moduleFirst_def)
  have build: "triple (\<lambda>w. ?N (cl w)) (dcrh_handleBuildConfigMap ?H d) (\<lambda>_ w. ?NB (cl w)) (\<lambda>_. ?F)"
    by (rule triple_conseq [OF triple_keep [OF keeps_Nodes(2) [where m = N, OF assms(1)] build_desired [OF assms]]])
       (simp_all add: moduleFirst_def)
  have "keeps (\<lambda>w. ?NB (cl w)) (dcrh_handleKMMModule ?H d)"
    by (rule keeps_kmm [where I = ?NB, OF assms(1)]) (simp add: builtAt_def)
  from triple_keep [OF this kmm_desired [OF assms]]
  have kmm: "triple (\<lambda>w. ?NB (cl w)) (dcrh_handleKMMModule ?H d) (\<lambda>_ w. ?BM (cl w)) (\<lambda>_. ?F)"
    by (rule triple_conseq) (simp_all add: moduleFirst_def)
  have up: "keeps (\<lambda>w. ?BM (cl w)) (dcrh_handleModuleVersionUpgrade ?H d)"
    by (rule keeps_upgrade [where I = ?BM, OF assms(1)])
       (auto dest!: did_frame simp: clusterFrame_def builtAt_def moduleAt_def)
  have sched: "keeps (\<lambda>w. ?BM (cl w)) (dcrh_handleCustomScheduler lib ?H d)"
    by (rule keeps_scheduler [where I = ?BM, OF assms(1)]) (simp_all add: builtAt_def moduleAt_def)
  have metr: "keeps (\<lambda>w. ?BM (cl w)) (dcrh_handleNodeMetrics ?H d)"
    by (rule keeps_metrics [where I = ?BM, OF assms(1)]) (simp add: builtAt_def moduleAt_def)
  show ?thesis
    unfolding afterFinalizer_def NewReconciler_simps
    by (rule triple_bind [OF triple_wrap [OF build]], rule triple_bind [OF triple_wrap [OF kmm]],
        rule triple_bind [OF triple_wrap [OF late [OF up]]],
        rule triple_bind [OF triple_if [OF triple_wrap [OF late [OF sched]]]], simp add: triple_ret,
        rule triple_bind [OF triple_wrap [OF late [OF metr]]], simp add: triple_ret moduleFirst_def)
qed

text \<open>Both whole-call arguments start the same way: setFinalizer writes to no node.\<close>

lemma Reconcile_alive_triple:
  assumes "lawfulClient lib c cl" and "lawfulFinalizers lib"
    and "cl_DeviceConfigs (cl w) (keyOf (dc_Meta d)) = Some d" and "om_DeletionTimestamp (dc_Meta d) = None"
    and "Reconcile (operatorReconciler lib c f b) d w = (r, w')"
    and "\<And>fs. triple (\<lambda>v. cl_Nodes (cl v) = cl_Nodes (cl w)) (afterFinalizer (operatorReconciler lib c f b) (setFinalizers fs d))
      (\<lambda>_ v. Q (cl v)) (\<lambda>_ v. Q (cl v))"
    and "\<And>x. cl_Nodes x = cl_Nodes (cl w) \<Longrightarrow> Q x"
  shows "Q (cl w')"
proof -
  obtain r1 w1 where s: "dcrh_setFinalizer lib (operatorHelper lib c f b) d w = (r1, w1)" by fastforce
  have N: "cl_Nodes (cl w1) = cl_Nodes (cl w)"
    using keeps_Nodes(1) [OF assms(1), of "cl_Nodes (cl w)"] s unfolding keeps_def by (metis snd_conv)
  show ?thesis
  proof (cases r1)
    case (Inl e)
    with assms(5) s have "w' = w1" by (simp add: Reconcile_alive [OF assms(4)] bindE_def wrapE_def tryE_def)
    with N assms(7) show ?thesis by simp
  next
    case (Inr d')
    with setFinalizer_stored [OF assms(1-3)] s obtain fs where d': "d' = setFinalizers fs d" by blast
    from assms(5) s Inr have run: "afterFinalizer (operatorReconciler lib c f b) d' w1 = (r, w')"
      by (simp add: Reconcile_alive [OF assms(4)] bindE_def wrapE_def tryE_def)
    from triple_Inr [OF assms(6) N] triple_Inl [OF assms(6) N] run show ?thesis
      unfolding d' by (cases r) blast+
  qed
qed

section \<open>Properties\<close>

text \<open>
  The disruption budget of a call without interference: a reconciliation of a DeviceConfig
  that is not being deleted, whatever its outcome, writes to at most two nodes (one to take its
  taint away, one to upgrade it) and changes the version label of at most one of them.
\<close>

theorem disruption_budget:
  assumes "lawfulClient lib c cl" and "lawfulFinalizers lib"
    and "cl_DeviceConfigs (cl w) (keyOf (dc_Meta d)) = Some d" and "om_DeletionTimestamp (dc_Meta d) = None"
    and "Reconcile (operatorReconciler lib c f b) d w = (r, w')"
  shows "finite (writtenNodes (cl w) (cl w')) \<and> card (writtenNodes (cl w) (cl w')) \<le> 2 \<and>
    movedNodes lib d (cl w) (cl w') \<subseteq> writtenNodes (cl w) (cl w') \<and> card (movedNodes lib d (cl w) (cl w')) \<le> 1"
proof -
  have "withinBudget lib d (cl w) (cl w')"
  proof (rule Reconcile_alive_triple [OF assms])
    show "triple (\<lambda>v. cl_Nodes (cl v) = cl_Nodes (cl w)) (afterFinalizer (operatorReconciler lib c f b) (setFinalizers fs d))
        (\<lambda>_ v. withinBudget lib d (cl w) (cl v)) (\<lambda>_ v. withinBudget lib d (cl w) (cl v))" for fs
      using afterFinalizer_budget [OF assms(1), of "cl w" f b "setFinalizers fs d"] by simp
  qed (simp add: withinBudget_nodes [of "cl w" "cl w" _ "cl w"])
  with withinBudget_card show ?thesis by blast
qed

lemma card_le_1_singleton: "finite A \<Longrightarrow> card A \<le> 1 \<Longrightarrow> x \<in> A \<Longrightarrow> A = {x}"
  by (auto simp: card_le_Suc0_iff_eq)

text \<open>Of two nodes that wait for their first version the call starts one.\<close>

lemma disruption_budget_witness:
  "\<exists>w'. Reconcile (operatorReconciler memLib memClient ''FROM'' False) (exDC ''2'')
       (exWorld [exFresh ''a'', exFresh ''b''] [exDC ''2'']) = (Inr zeroResult, w') \<and>
     movedNodes memLib (exDC ''2'') (memCluster (exWorld [exFresh ''a'', exFresh ''b''] [exDC ''2''])) (memCluster w') =
       {NN [] ''b''}"
proof -
  let ?w = "exWorld [exFresh ''a'', exFresh ''b''] [exDC ''2'']"
  obtain w' where run: "Reconcile (operatorReconciler memLib memClient ''FROM'' False) (exDC ''2'') ?w = (Inr zeroResult, w')"
    and nodes: "m_Nodes w' = [exStarted ''b'', exFresh ''a'']"
    using ex_Reconcile [OF ex_upgrade] by blast
  have fin: "finite (movedNodes memLib (exDC ''2'') (memCluster ?w) (memCluster w'))"
    and one: "card (movedNodes memLib (exDC ''2'') (memCluster ?w) (memCluster w')) \<le> 1"
    using disruption_budget [OF lawfulClient_mem lawfulFinalizers_mem _ _ run] finite_subset by auto
  have "NN [] ''b'' \<in> movedNodes memLib (exDC ''2'') (memCluster ?w) (memCluster w')"
    by (simp add: movedNodes_def versionAt_def nodes)
  from card_le_1_singleton [OF fin one this] run show ?thesis by blast
qed

text \<open>
  The Module comes before the nodes, without interference. When a reconciliation of a
  DeviceConfig that is not being deleted has written to a node, whatever its outcome, the Module
  in the cluster already loads the wanted version and the config map it is built from holds the
  dockerfile: no node is cordoned for, or asked for, a version that KMM has not been told of.
\<close>

theorem module_before_nodes:
  assumes "lawfulClient lib c cl" and "lawfulOwner lib" and "lawfulFinalizers lib"
    and "cl_DeviceConfigs (cl w) (keyOf (dc_Meta d)) = Some d" and "om_DeletionTimestamp (dc_Meta d) = None"
    and "Reconcile (operatorReconciler lib c f b) d w = (r, w')" and "k \<in> writtenNodes (cl w) (cl w')"
  shows "\<exists>m l. cl_Modules (cl w') (NN (dc_Namespace d) (dc_Name d)) = Some m \<and>
    ms_ModuleLoader (mod_Spec m) = Some l \<and> ml_Version l = wanted d \<and>
    configMapHas (cl w') (dc_Namespace d) (''dockerfile-'' @ dc_Name d) ''dockerfile'' f"
proof -
  let ?Q = "\<lambda>x. \<exists>fs. moduleFirst lib f (setFinalizers fs d) (cl_Nodes (cl w)) x"
  have "?Q (cl w')"
  proof (rule Reconcile_alive_triple [OF assms(1,3-6)])
    show "triple (\<lambda>v. cl_Nodes (cl v) = cl_Nodes (cl w)) (afterFinalizer (operatorReconciler lib c f b) (setFinalizers fs d))
        (\<lambda>_ v. ?Q (cl v)) (\<lambda>_ v. ?Q (cl v))" for fs
      by (rule triple_conseq [OF afterFinalizer_moduleFirst [OF assms(1,2)]]) blast+
  qed (simp add: moduleFirst_def)
  with assms(7) obtain fs where built: "builtAt lib f (setFinalizers fs d) (cl w')"
    and mod: "moduleAt lib (setFinalizers fs d) (cl w')" by (auto simp: moduleFirst_def writtenNodes_def)
  from mod show ?thesis by (rule moduleAt_loader) (use builtAt_dockerfile [OF built] in auto)
qed

lemma module_before_nodes_witness:
  "\<exists>w' m l. Reconcile (operatorReconciler memLib memClient ''FROM'' False) (exDC ''2'')
       (exWorld [exFresh ''a'', exFresh ''b''] [exDC ''2'']) = (Inr zeroResult, w') \<and>
     cl_Nodes (memCluster w') (NN [] ''b'') = Some (exStarted ''b'') \<and>
     cl_Modules (memCluster w') (NN ''ns'' ''neuron'') = Some m \<and>
     ms_ModuleLoader (mod_Spec m) = Some l \<and> ml_Version l = ''2''"
proof -
  let ?w = "exWorld [exFresh ''a'', exFresh ''b''] [exDC ''2'']"
  obtain w' where run: "Reconcile (operatorReconciler memLib memClient ''FROM'' False) (exDC ''2'') ?w = (Inr zeroResult, w')"
    and nodes: "m_Nodes w' = [exStarted ''b'', exFresh ''a'']"
    using ex_Reconcile [OF ex_upgrade] by blast
  have "exStarted ''b'' \<noteq> exFresh ''b''"
    by (rule notI, drule arg_cong [where f = "\<lambda>n. mapGet (node_Labels n) exVersionLabel"]) simp
  then have "NN [] ''b'' \<in> writtenNodes (memCluster ?w) (memCluster w')"
    by (simp add: writtenNodes_def nodes)
  from module_before_nodes [OF lawfulClient_mem lawfulOwner_mem lawfulFinalizers_mem _ _ run this] run nodes
  show ?thesis by auto
qed

end
