(* ===== verification/NodeFilter.thy ===== *)
theory NodeFilter
  imports Upgrade "HOL-Library.Char_ord" "HOL-Library.List_Lexorder"
begin

text \<open>
  internal/filter/filter.go: which node events wake the reconciler, and for which
  DeviceConfigs. The label-selector library of k8s.io/apimachinery and the predicates of
  controller-runtime are parameters. Go ranges over a map in an unspecified order: the
  order is the parameter \<open>order\<close>, any enumeration of the map.
\<close>

section \<open>The parameters\<close>

record ('r, 's) labelsLib =
  NewRequirement :: "string \<Rightarrow> string \<Rightarrow> string list \<Rightarrow> goerr + 'r"
  NewSelector :: 's
  AddRequirement :: "'s \<Rightarrow> 'r \<Rightarrow> 's"
  Matches :: "'s \<Rightarrow> gomap \<Rightarrow> bool"

definition selectionEquals :: string where "selectionEquals = ''=''"

text \<open>
  Selector semantics: an empty selector matches everything, a requirement narrows it, and
  an Equals requirement asks for the key with exactly that value.
\<close>

definition lawfulSelectors :: "('r, 's) labelsLib \<Rightarrow> bool" where
  "lawfulSelectors ll \<longleftrightarrow> (\<forall>ls. Matches ll (NewSelector ll) ls) \<and>
     (\<forall>k v r s ls. NewRequirement ll k selectionEquals [v] = Inr r \<longrightarrow>
        Matches ll (AddRequirement ll s r) ls = (Matches ll s ls \<and> mapGet ls k = Some v))"

type_synonym order = "(string \<rightharpoonup> string) \<Rightarrow> (string \<times> string) list"

definition rangeOver :: "order \<Rightarrow> gomap \<Rightarrow> (string \<times> string) list" where
  "rangeOver ord m = (case m of None \<Rightarrow> [] | Some f \<Rightarrow> ord f)"

text \<open>An order enumerates every entry of a (finite) map once.\<close>

definition lawfulOrder :: "order \<Rightarrow> bool" where
  "lawfulOrder ord \<longleftrightarrow> (\<forall>m. finite (dom m) \<longrightarrow>
     distinct (map fst (ord m)) \<and> set (ord m) = {(k, v). m k = Some v})"

definition finiteMap :: "gomap \<Rightarrow> bool" where
  "finiteMap m \<longleftrightarrow> finite {k. mapGet m k \<noteq> None}"

section \<open>Definitions\<close>

datatype nodeEvent =
    CreateEvent Node
  | UpdateEvent Node Node
  | DeleteEvent Node
  | GenericEvent Node

fun createOnly :: "nodeEvent \<Rightarrow> bool" where
  "createOnly (CreateEvent e) = True"
| "createOnly (UpdateEvent old e) = False"
| "createOnly (DeleteEvent e) = False"
| "createOnly (GenericEvent e) = False"

definition GetNodePredicate ::
  "((nodeEvent \<Rightarrow> bool) list \<Rightarrow> nodeEvent \<Rightarrow> bool) \<Rightarrow> (nodeEvent \<Rightarrow> bool) \<Rightarrow> nodeEvent \<Rightarrow> bool" where
  "GetNodePredicate predicateOr labelChangedPredicate = predicateOr [labelChangedPredicate, createOnly]"

fun selectorLoop ::
  "('r, 's) labelsLib \<Rightarrow> gomap \<Rightarrow> 's \<Rightarrow> (string \<times> string) list \<Rightarrow> goerr + bool" where
  "selectorLoop ll objectLabelsSet sel [] = Inr (Matches ll sel objectLabelsSet)"
| "selectorLoop ll objectLabelsSet sel ((k, v) # rest) =
     (case NewRequirement ll k selectionEquals [v] of
        Inl err \<Rightarrow> Inl (Errorf ''failed to create new label requirements: %v'' [] (Some err))
      | Inr requirement \<Rightarrow> selectorLoop ll objectLabelsSet (AddRequirement ll sel requirement) rest)"

definition isObjectSelectedByLabels ::
  "('r, 's) labelsLib \<Rightarrow> order \<Rightarrow> gomap \<Rightarrow> gomap \<Rightarrow> goerr + bool" where
  "isObjectSelectedByLabels ll ord objectLabels selectorLabels =
     selectorLoop ll objectLabels (NewSelector ll) (rangeOver ord selectorLabels)"

fun requestsLoop ::
  "('r, 's) labelsLib \<Rightarrow> order \<Rightarrow> gomap \<Rightarrow> nsname list \<Rightarrow> DeviceConfig list \<Rightarrow> nsname list" where
  "requestsLoop ll ord nodeLabels reqs [] = reqs"
| "requestsLoop ll ord nodeLabels reqs (deviceConfig # items) =
     (case isObjectSelectedByLabels ll ord nodeLabels (Selector (dc_Spec deviceConfig)) of
        Inl err \<Rightarrow> requestsLoop ll ord nodeLabels reqs items
      | Inr match \<Rightarrow>
          if \<not> match then requestsLoop ll ord nodeLabels reqs items
          else requestsLoop ll ord nodeLabels
                 (reqs @ [NN (dc_Namespace deviceConfig) (dc_Name deviceConfig)]) items)"

record 'w Filter =
  f_client :: "'w client"

definition New :: "'w client \<Rightarrow> 'w Filter" where
  "New c = \<lparr>f_client = c\<rparr>"

definition FindDeviceConfigForNodeChange ::
  "('r, 's) labelsLib \<Rightarrow> order \<Rightarrow> 'w Filter \<Rightarrow> Node \<Rightarrow> ('w, nsname list) io" where
  "FindDeviceConfigForNodeChange ll ord f node =
     tryE (apiList (DeviceConfigs (f_client f)) None)
       (\<lambda>err. ret [])
       (\<lambda>items. ret (requestsLoop ll ord (node_Labels node) [] items))"

section \<open>Properties\<close>

text \<open>The requirements a selector makes are all well-formed.\<close>

definition validSelector :: "('r, 's) labelsLib \<Rightarrow> gomap \<Rightarrow> bool" where
  "validSelector ll sel \<longleftrightarrow>
     (\<forall>k v. mapGet sel k = Some v \<longrightarrow> \<not> isl (NewRequirement ll k selectionEquals [v]))"

lemma rangeOver_set:
  "lawfulOrder ord \<Longrightarrow> finiteMap m \<Longrightarrow> set (rangeOver ord m) = {(k, v). mapGet m k = Some v}"
  by (cases m) (auto simp: rangeOver_def lawfulOrder_def finiteMap_def dom_def)

lemma selectorLoop_valid:
  assumes "lawfulSelectors ll"
    and "\<forall>(k, v) \<in> set kvs. \<not> isl (NewRequirement ll k selectionEquals [v])"
  shows "selectorLoop ll ls sel kvs =
    Inr (Matches ll sel ls \<and> (\<forall>(k, v) \<in> set kvs. mapGet ls k = Some v))"
  using assms(2)
proof (induction kvs arbitrary: sel)
  case Nil
  then show ?case by simp
next
  case (Cons kv kvs)
  obtain k v where kv: "kv = (k, v)" by (cases kv)
  with Cons.prems obtain r where r: "NewRequirement ll k selectionEquals [v] = Inr r"
    by (cases "NewRequirement ll k selectionEquals [v]") auto
  with assms(1) have "Matches ll (AddRequirement ll sel r) ls = (Matches ll sel ls \<and> mapGet ls k = Some v)"
    unfolding lawfulSelectors_def by blast
  with Cons kv r show ?case by simp
qed

lemma selectorLoop_invalid:
  assumes "(k, v) \<in> set kvs" and "isl (NewRequirement ll k selectionEquals [v])"
  shows "isl (selectorLoop ll ls sel kvs)"
  using assms(1)
proof (induction kvs arbitrary: sel)
  case (Cons kv kvs)
  then show ?case using assms(2)
    by (cases kv; cases "NewRequirement ll (fst kv) selectionEquals [snd kv]") auto
qed simp

lemma isObjectSelected_valid:
  assumes "lawfulSelectors ll" "lawfulOrder ord" "finiteMap sel" "validSelector ll sel"
  shows "isObjectSelectedByLabels ll ord ls sel = Inr (selects sel ls)"
proof -
  note range = rangeOver_set [OF assms(2,3)]
  have "\<forall>(k, v) \<in> set (rangeOver ord sel). \<not> isl (NewRequirement ll k selectionEquals [v])"
    using assms(4) by (auto simp: range validSelector_def)
  from selectorLoop_valid [OF assms(1) this] assms(1) show ?thesis
    by (auto simp: isObjectSelectedByLabels_def lawfulSelectors_def range selects_def)
qed

lemma isObjectSelected_invalid:
  assumes "lawfulOrder ord" "finiteMap sel" "\<not> validSelector ll sel"
  shows "isl (isObjectSelectedByLabels ll ord ls sel)"
proof -
  from assms(3) obtain k v where "mapGet sel k = Some v" "isl (NewRequirement ll k selectionEquals [v])"
    by (auto simp: validSelector_def)
  with selectorLoop_invalid [of k v "rangeOver ord sel" ll] rangeOver_set [OF assms(1,2)]
  show ?thesis by (simp add: isObjectSelectedByLabels_def)
qed

text \<open>The request of a DeviceConfig is made iff its selector is valid and selects the node.\<close>

lemma requestsLoop_eq:
  assumes "lawfulSelectors ll" "lawfulOrder ord"
    and "\<forall>d \<in> set ds. finiteMap (Selector (dc_Spec d))"
  shows "requestsLoop ll ord ls reqs ds = reqs @ map (\<lambda>d. keyOf (dc_Meta d))
    (filter (\<lambda>d. validSelector ll (Selector (dc_Spec d)) \<and> selects (Selector (dc_Spec d)) ls) ds)"
  using assms(3)
proof (induction ds arbitrary: reqs)
  case Nil
  then show ?case by simp
next
  case (Cons d ds)
  then have fin: "finiteMap (Selector (dc_Spec d))" by simp
  show ?case
  proof (cases "validSelector ll (Selector (dc_Spec d))")
    case True
    from isObjectSelected_valid [OF assms(1,2) fin True] Cons True show ?thesis
      by (simp add: keyOf_def)
  next
    case False
    from isObjectSelected_invalid [OF assms(2) fin False, of ls]
    obtain e where "isObjectSelectedByLabels ll ord ls (Selector (dc_Spec d)) = Inl e"
      by (auto simp: isl_def)
    with Cons False show ?thesis by simp
  qed
qed

lemma distinct_singleton: "distinct xs \<Longrightarrow> set xs = {x} \<Longrightarrow> xs = [x]"
  by (cases xs; cases "tl xs") auto

text \<open>Go maps are finite.\<close>

definition finiteSelectors :: "cluster \<Rightarrow> bool" where
  "finiteSelectors c \<longleftrightarrow> (\<forall>k d. cl_DeviceConfigs c k = Some d \<longrightarrow> finiteMap (Selector (dc_Spec d)))"

lemma FindDeviceConfig_run:
  assumes "lawfulSelectors ll" "lawfulOrder ord" "lawfulClient lib c cl"
    and "finiteSelectors (cl w)"
    and "apiList (DeviceConfigs c) None w = (Inr items, w1)"
  obtains reqs where "FindDeviceConfigForNodeChange ll ord (New c) node w = (Inr reqs, w1)"
    "cl w1 = cl w" "distinct reqs"
    "set reqs = {keyOf (dc_Meta d) | d. cl_DeviceConfigs (cl w) (keyOf (dc_Meta d)) = Some d \<and>
      validSelector ll (Selector (dc_Spec d)) \<and> selects (Selector (dc_Spec d)) (node_Labels node)}"
proof -
  note list = lawfulClientD(7) [OF assms(3), unfolded lawfulList_def, THEN spec, of None, THEN spec, of w, unfolded assms(5)]
  from list have dist: "distinct (map (\<lambda>d. keyOf (dc_Meta d)) items)" and w1: "cl w1 = cl w"
    and items: "set items = {d. cl_DeviceConfigs (cl w) (keyOf (dc_Meta d)) = Some d}"
    by simp_all
  with assms(4) have fin: "\<forall>d \<in> set items. finiteMap (Selector (dc_Spec d))"
    unfolding finiteSelectors_def by blast
  let ?reqs = "map (\<lambda>d. keyOf (dc_Meta d)) (filter (\<lambda>d. validSelector ll (Selector (dc_Spec d)) \<and>
      selects (Selector (dc_Spec d)) (node_Labels node)) items)"
  show thesis
  proof (rule that [of ?reqs, OF _ w1])
    show "FindDeviceConfigForNodeChange ll ord (New c) node w = (Inr ?reqs, w1)"
      using assms(5) requestsLoop_eq [OF assms(1,2) fin]
      by (simp add: FindDeviceConfigForNodeChange_def New_def tryE_def)
    show "distinct ?reqs" using dist by (simp add: distinct_map_filter)
    show "set ?reqs = {keyOf (dc_Meta d) | d. cl_DeviceConfigs (cl w) (keyOf (dc_Meta d)) = Some d \<and>
      validSelector ll (Selector (dc_Spec d)) \<and> selects (Selector (dc_Spec d)) (node_Labels node)}"
      by (auto simp: items)
  qed
qed

section \<open>Concrete parameters\<close>

text \<open>Selectors as lists of pairs, and the entries of a map in the order of their keys.\<close>

definition exLabels :: "(string \<times> string, (string \<times> string) list) labelsLib" where
  "exLabels = \<lparr>NewRequirement = (\<lambda>k op vs. if k = [] then Inl (ExtErr ''Invalid'' []) else Inr (k, hd vs)),
     NewSelector = [], AddRequirement = (\<lambda>s r. r # s),
     Matches = (\<lambda>s ls. \<forall>(k, v) \<in> set s. mapGet ls k = Some v)\<rparr>"

definition sortedOrder :: order where
  "sortedOrder m = map (\<lambda>k. (k, the (m k))) (sorted_list_of_set (dom m))"

lemma lawfulSelectors_ex: "lawfulSelectors exLabels"
  by (auto simp: lawfulSelectors_def exLabels_def split: if_splits)

lemma lawfulOrder_sorted: "lawfulOrder sortedOrder"
  unfolding lawfulOrder_def
proof (intro allI impI)
  fix m :: "string \<rightharpoonup> string" assume "finite (dom m)"
  then show "distinct (map fst (sortedOrder m)) \<and> set (sortedOrder m) = {(k, v). m k = Some v}"
    by (auto simp: sortedOrder_def comp_def)
qed

section \<open>Properties\<close>

text \<open>
  C19: who is woken. For a node event, when the DeviceConfigs can be listed, the requests are
  the names of exactly those stored DeviceConfigs whose selector is well-formed and selects
  the node, each once; for a node of the cluster and a well-formed selector that is the case
  exactly when the node is one of those the upgrade of the DeviceConfig targets. A
  DeviceConfig with a malformed selector does not keep the others from being woken.
\<close>

theorem node_change_requests:
  assumes "lawfulSelectors ll" and "lawfulOrder ord" and "lawfulClient lib c cl"
    and "finiteSelectors (cl w)"
    and "\<not> isl (fst (apiList (DeviceConfigs c) None w))" and "stored (cl w) node"
  shows "\<exists>reqs w'. FindDeviceConfigForNodeChange ll ord (New c) node w = (Inr reqs, w') \<and>
    cl w' = cl w \<and> distinct reqs \<and>
    set reqs = {keyOf (dc_Meta d) | d. cl_DeviceConfigs (cl w) (keyOf (dc_Meta d)) = Some d \<and>
      validSelector ll (Selector (dc_Spec d)) \<and> node \<in> targetedNodes d (cl w)}"
proof -
  obtain items w1 where "apiList (DeviceConfigs c) None w = (Inr items, w1)"
    using assms(5) by (metis isl_def prod.collapse sum.exhaust)
  from FindDeviceConfig_run [OF assms(1-4) this, of node] obtain reqs where
    "FindDeviceConfigForNodeChange ll ord (New c) node w = (Inr reqs, w1)" "cl w1 = cl w" "distinct reqs"
    "set reqs = {keyOf (dc_Meta d) | d. cl_DeviceConfigs (cl w) (keyOf (dc_Meta d)) = Some d \<and>
      validSelector ll (Selector (dc_Spec d)) \<and> selects (Selector (dc_Spec d)) (node_Labels node)}" .
  with assms(6) show ?thesis unfolding targetedNodes_def by blast
qed

lemma node_change_requests_witness:
  "\<exists>w'. FindDeviceConfigForNodeChange exLabels sortedOrder (New memClient) (exNode ''a'' [''neuron'' \<mapsto> ''true''] [])
     (exWorld [exNode ''a'' [''neuron'' \<mapsto> ''true''] []] [exDC ''1'']) = (Inr [NN ''ns'' ''neuron''], w')"
proof -
  let ?n = "exNode ''a'' [''neuron'' \<mapsto> ''true''] []"
  let ?w = "exWorld [?n] [exDC ''1'']"
  have fin: "finiteSelectors (memCluster ?w)"
    by (simp add: finiteSelectors_def finiteMap_def)
  have ok: "\<not> isl (fst (apiList (DeviceConfigs memClient) None ?w))"
    by (simp add: memClient_def memApi_def memList_def)
  have n: "stored (memCluster ?w) ?n" by (simp add: stored_def)
  have valid: "validSelector exLabels (Some [''neuron'' \<mapsto> ''true''])"
    by (simp add: validSelector_def exLabels_def)
  from node_change_requests [where cl = memCluster and w = ?w and c = memClient and node = ?n,
      OF lawfulSelectors_ex lawfulOrder_sorted lawfulClient_mem fin ok n]
  obtain reqs w' where run: "FindDeviceConfigForNodeChange exLabels sortedOrder (New memClient) ?n ?w = (Inr reqs, w')"
    and dist: "distinct reqs" and reqs: "set reqs = {keyOf (dc_Meta d) | d.
      cl_DeviceConfigs (memCluster ?w) (keyOf (dc_Meta d)) = Some d \<and>
      validSelector exLabels (Selector (dc_Spec d)) \<and> ?n \<in> targetedNodes d (memCluster ?w)}" by blast
  have "cl_DeviceConfigs (memCluster ?w) (keyOf (dc_Meta d)) = Some d \<longleftrightarrow> d = exDC ''1''" for d by auto
  with n valid have "set reqs = {NN ''ns'' ''neuron''}" unfolding reqs by (simp add: targetedNodes_def)
  from distinct_singleton [OF dist this] run show ?thesis by blast
qed

text \<open>
  What controller-runtime's predicates do: \<open>Or\<close> lets an event through when one of them does;
  \<open>LabelChangedPredicate\<close> looks at updates only and lets all other events through.
\<close>

definition lawfulPredicates ::
  "((nodeEvent \<Rightarrow> bool) list \<Rightarrow> nodeEvent \<Rightarrow> bool) \<Rightarrow> (nodeEvent \<Rightarrow> bool) \<Rightarrow> bool" where
  "lawfulPredicates predOr changed \<longleftrightarrow> (\<forall>ps e. predOr ps e \<longleftrightarrow> (\<exists>p \<in> set ps. p e)) \<and>
     (\<forall>old new. changed (UpdateEvent old new) \<longleftrightarrow> node_Labels old \<noteq> node_Labels new) \<and>
     (\<forall>n. changed (CreateEvent n) \<and> changed (DeleteEvent n) \<and> changed (GenericEvent n))"

text \<open>
  C35: no relevant event is missed. An update of a node that changes its upgrade state for
  some DeviceConfig, or whether some selector selects it, passes the predicate; so do the
  creation and the deletion of a node.
\<close>

theorem no_relevant_event_missed:
  assumes "lawfulPredicates predOr changed"
  shows "(getNodeUpgradeState lib old d \<noteq> getNodeUpgradeState lib new d \<or>
      isNewNodeForUpgrade lib old d \<noteq> isNewNodeForUpgrade lib new d \<or>
      selects sel (node_Labels old) \<noteq> selects sel (node_Labels new) \<longrightarrow>
      GetNodePredicate predOr changed (UpdateEvent old new)) \<and>
    GetNodePredicate predOr changed (CreateEvent n) \<and> GetNodePredicate predOr changed (DeleteEvent n)"
  using assms
  by (auto simp: GetNodePredicate_def lawfulPredicates_def getNodeUpgradeState_def isNewNodeForUpgrade_def)

definition exPredicateOr :: "(nodeEvent \<Rightarrow> bool) list \<Rightarrow> nodeEvent \<Rightarrow> bool" where
  "exPredicateOr ps e = list_ex (\<lambda>p. p e) ps"

fun exChanged :: "nodeEvent \<Rightarrow> bool" where
  "exChanged (UpdateEvent old new) = (node_Labels old \<noteq> node_Labels new)"
| "exChanged e = True"

lemma lawfulPredicates_ex: "lawfulPredicates exPredicateOr exChanged"
  by (simp add: lawfulPredicates_def exPredicateOr_def list_ex_iff)

lemma no_relevant_event_missed_witness:
  "GetNodePredicate exPredicateOr exChanged
     (UpdateEvent (exNode ''a'' [exVersionLabel \<mapsto> ''1''] [])
        (exNode ''a'' [exVersionLabel \<mapsto> ''1'', exReadyLabel \<mapsto> ''1''] []))"
proof -
  let ?old = "exNode ''a'' [exVersionLabel \<mapsto> ''1''] []"
  let ?new = "exNode ''a'' [exVersionLabel \<mapsto> ''1'', exReadyLabel \<mapsto> ''1''] []"
  have "getNodeUpgradeState memLib (exNode ''a'' [exVersionLabel \<mapsto> ''1''] []) (exDC ''1'') = nodeInUpgrade"
    "getNodeUpgradeState memLib (exNode ''a'' [exVersionLabel \<mapsto> ''1'', exReadyLabel \<mapsto> ''1''] []) (exDC ''1'') = nodeUpgraded"
    by (simp_all add: state_iff)
  then have "getNodeUpgradeState memLib ?old (exDC ''1'') \<noteq> getNodeUpgradeState memLib ?new (exDC ''1'')" by simp
  with no_relevant_event_missed [OF lawfulPredicates_ex, where lib = memLib and old = ?old and new = ?new
      and d = "exDC ''1''", THEN conjunct1]
  show ?thesis by (rule mp [OF _ disjI1])
qed

end
