(* ===== verification/System.thy ===== *)
theory System
  imports Liveness Budget NodeFilter
begin

text \<open>
  The rollout as the whole operator performs it: rounds of complete reconciliations of the
  stored DeviceConfig, with KMM's answers in between, bring every targeted node to the
  wanted version; and each answer wakes the controller again.
\<close>

section \<open>Only nodes matter to the rollout\<close>

lemma nodes_only:
  assumes "cl_Nodes c' = cl_Nodes c"
  shows "calm lib d c' = calm lib d c" and "todo lib d c' = todo lib d c"
    and "allReady lib d c' C = allReady lib d c C"
proof -
  have st: "stored c' = stored c" using assms by (simp add: stored_def fun_eq_iff)
  then have "inUpgrade lib d c' = inUpgrade lib d c" "keysOf P c' = keysOf P c" for P
    by (simp_all add: inUpgrade_def targetedNodes_def keysOf_def)
  with st assms show "calm lib d c' = calm lib d c" "todo lib d c' = todo lib d c"
    "allReady lib d c' C = allReady lib d c C"
    by (simp_all add: calm_def todo_def allReady_def)
qed

text \<open>The finalizers of the DeviceConfig do not.\<close>

lemma finalizers_irrelevant:
  "calm lib (setFinalizers fs d) c = calm lib d c" "todo lib (setFinalizers fs d) c = todo lib d c"
  "allReady lib (setFinalizers fs d) c C = allReady lib d c C" "plainSelector lib (setFinalizers fs d) = plainSelector lib d"
proof -
  have st: "getNodeUpgradeState lib n (setFinalizers fs d) = getNodeUpgradeState lib n d" for n
    by (simp add: getNodeUpgradeState_def Let_def)
  then have "isWaiting lib (setFinalizers fs d) = isWaiting lib d"
    "isTaintedDone lib (setFinalizers fs d) = isTaintedDone lib d" "readied lib (setFinalizers fs d) = readied lib d"
    by (simp_all add: fun_eq_iff isWaiting_def isTaintedDone_def readied_def cong: option.case_cong)
  with st show "calm lib (setFinalizers fs d) c = calm lib d c" "todo lib (setFinalizers fs d) c = todo lib d c"
    "allReady lib (setFinalizers fs d) c C = allReady lib d c C" "plainSelector lib (setFinalizers fs d) = plainSelector lib d"
    by (simp_all add: calm_def todo_def allReady_def plainSelector_def inUpgrade_def targetedNodes_def)
qed

section \<open>The upgrade inside a reconciliation\<close>

lemma keepsD: "keeps (\<lambda>w. g (cl w) = g (cl w0)) m \<Longrightarrow> m w0 = (r, w1) \<Longrightarrow> g (cl w1) = g (cl w0)"
  unfolding keeps_def by (metis snd_conv)

lemma optional_phase: "(if b then wrapE g m else ret ()) w = (Inr (), w') \<longleftrightarrow>
    b \<and> m w = (Inr (), w') \<or> \<not> b \<and> w' = w"
  by (auto simp: wrapE_Inr_iff)

lemma Reconcile_upgrades:
  assumes "lawfulClient lib c cl" and "lawfulFinalizers lib"
    and "cl_DeviceConfigs (cl w) (keyOf (dc_Meta d)) = Some d" and "om_DeletionTimestamp (dc_Meta d) = None"
    and "Reconcile (operatorReconciler lib c f b) d w = (Inr res, w')"
  obtains fs v v' where "cl_Nodes (cl v) = cl_Nodes (cl w)"
    "dcrh_handleModuleVersionUpgrade (operatorHelper lib c f b) (setFinalizers fs d) v = (Inr (), v')"
    "cl_Nodes (cl w') = cl_Nodes (cl v')"
proof -
  let ?H = "operatorHelper lib c f b"
  note same = keepsD [where g = cl_Nodes and cl = cl, OF keeps_Nodes(1) [OF assms(1)]]
    keepsD [where g = cl_Nodes and cl = cl, OF keeps_Nodes(2) [OF assms(1)]]
    keepsD [where g = cl_Nodes and cl = cl, OF keeps_Nodes(3) [OF assms(1)]]
    keepsD [where g = cl_Nodes and cl = cl, OF keeps_Nodes(4) [OF assms(1)]]
    keepsD [where g = cl_Nodes and cl = cl, OF keeps_Nodes(5) [OF assms(1)]]
  have "\<exists>d' w1 w2 w3 w4 w5. dcrh_setFinalizer lib ?H d w = (Inr d', w1) \<and>
      dcrh_handleBuildConfigMap ?H d' w1 = (Inr (), w2) \<and> dcrh_handleKMMModule ?H d' w2 = (Inr (), w3) \<and>
      dcrh_handleModuleVersionUpgrade ?H d' w3 = (Inr (), w4) \<and>
      (DRADriverImage (dc_Spec d') = [] \<and> dcrh_handleCustomScheduler lib ?H d' w4 = (Inr (), w5) \<or>
       DRADriverImage (dc_Spec d') \<noteq> [] \<and> w5 = w4) \<and> dcrh_handleNodeMetrics ?H d' w5 = (Inr (), w')"
    using assms(5) by (simp add: Reconcile_alive [OF assms(4)] afterFinalizer_def io_simps optional_phase) blast
  then obtain d' w1 w2 w3 w4 w5 where
    s: "dcrh_setFinalizer lib ?H d w = (Inr d', w1)" and
    b: "dcrh_handleBuildConfigMap ?H d' w1 = (Inr (), w2)" and
    k: "dcrh_handleKMMModule ?H d' w2 = (Inr (), w3)" and
    u: "dcrh_handleModuleVersionUpgrade ?H d' w3 = (Inr (), w4)" and
    c: "DRADriverImage (dc_Spec d') = [] \<and> dcrh_handleCustomScheduler lib ?H d' w4 = (Inr (), w5) \<or>
       DRADriverImage (dc_Spec d') \<noteq> [] \<and> w5 = w4" and
    m: "dcrh_handleNodeMetrics ?H d' w5 = (Inr (), w')" by blast
  obtain fs where d': "d' = setFinalizers fs d" using setFinalizer_stored [OF assms(1-3) s] by blast
  have "cl_Nodes (cl w3) = cl_Nodes (cl w)" using same(1) [OF s] same(2) [OF b] same(3) [OF k] by simp
  moreover have "cl_Nodes (cl w') = cl_Nodes (cl w4)" using c same(4) same(5) [OF m] by auto
  ultimately show thesis using that u unfolding d' by blast
qed

section \<open>Rounds of reconciliations\<close>

text \<open>
  One round: the stored DeviceConfig is reconciled with success, then KMM answers. Whatever
  else happens to the cluster in between, the DeviceConfigs stay.
\<close>

definition reconcileRound ::
  "library \<Rightarrow> ('w \<Rightarrow> cluster) \<Rightarrow> 'w deviceConfigReconcilerHelperAPI \<Rightarrow> DeviceConfig \<Rightarrow> 'w \<Rightarrow> 'w \<Rightarrow> bool" where
  "reconcileRound lib cl h d w w' \<longleftrightarrow> (\<exists>d' res w1. cl_DeviceConfigs (cl w) (keyOf (dc_Meta d)) = Some d' \<and>
     Reconcile h d' w = (Inr res, w1) \<and> allReady lib d (cl w1) (cl w') \<and>
     cl_DeviceConfigs (cl w') = cl_DeviceConfigs (cl w1))"

definition storedAs :: "DeviceConfig \<Rightarrow> cluster \<Rightarrow> bool" where
  "storedAs d c \<longleftrightarrow> (\<exists>fs. cl_DeviceConfigs c (keyOf (dc_Meta d)) = Some (setFinalizers fs d))"

lemma reconcileRound_todo:
  assumes "lawfulClient lib c cl" and "lawfulOwner lib" and "lawfulFinalizers lib" and "lawfulLabels lib"
    and "plainSelector lib d" and "wanted d \<noteq> []" and "om_DeletionTimestamp (dc_Meta d) = None"
    and "storedAs d (cl w)" and "calm lib d (cl w)"
    and "reconcileRound lib cl (operatorReconciler lib c f b) d w w'"
  shows "storedAs d (cl w') \<and> calm lib d (cl w') \<and>
    (todo lib d (cl w') < todo lib d (cl w) \<or> (todo lib d (cl w) = 0 \<and> todo lib d (cl w') = 0))"
proof -
  from assms(8) obtain fs where fs: "cl_DeviceConfigs (cl w) (keyOf (dc_Meta d)) = Some (setFinalizers fs d)"
    unfolding storedAs_def by blast
  from assms(10) obtain d' res w1 where d': "cl_DeviceConfigs (cl w) (keyOf (dc_Meta d)) = Some d'"
    "Reconcile (operatorReconciler lib c f b) d' w = (Inr res, w1)" and
    ready: "allReady lib d (cl w1) (cl w')" and dcs: "cl_DeviceConfigs (cl w') = cl_DeviceConfigs (cl w1)"
    unfolding reconcileRound_def by blast
  from d' fs have run: "Reconcile (operatorReconciler lib c f b) (setFinalizers fs d) w = (Inr res, w1)" by simp
  have at: "cl_DeviceConfigs (cl w) (keyOf (dc_Meta (setFinalizers fs d))) = Some (setFinalizers fs d)"
    using fs by simp
  have alive: "om_DeletionTimestamp (dc_Meta (setFinalizers fs d)) = None" using assms(7) by simp
  have "storedAs d (cl w')"
  proof (rule Reconcile_converges [OF assms(1-3) at alive run])
    fix gs assume "cl_DeviceConfigs (cl w1) (keyOf (dc_Meta (setFinalizers fs d))) =
      Some (setFinalizers gs (setFinalizers fs d))"
    then show ?thesis unfolding storedAs_def dcs by (intro exI [of _ gs]) simp
  qed
  moreover have "calm lib d (cl w') \<and>
    (todo lib d (cl w') < todo lib d (cl w) \<or> (todo lib d (cl w) = 0 \<and> todo lib d (cl w') = 0))"
  proof (rule Reconcile_upgrades [OF assms(1,3) at alive run])
    fix gs v v' assume v: "cl_Nodes (cl v) = cl_Nodes (cl w)" "cl_Nodes (cl w1) = cl_Nodes (cl v')"
      and up: "dcrh_handleModuleVersionUpgrade (operatorHelper lib c f b) (setFinalizers gs (setFinalizers fs d)) v = (Inr (), v')"
    from call_todo [OF assms(1,4) _ _ up, of "cl w'"] assms(5,6,9) ready
    show ?thesis by (simp add: finalizers_irrelevant nodes_only [OF v(1)] nodes_only [OF v(2)])
  qed
  ultimately show ?thesis ..
qed

interpretation operator: measured_rounds "reconcileRound lib cl (operatorReconciler lib c f b) d"
  "\<lambda>w. lawfulClient lib c cl \<and> lawfulOwner lib \<and> lawfulFinalizers lib \<and> lawfulLabels lib \<and> plainSelector lib d \<and>
     wanted d \<noteq> [] \<and> om_DeletionTimestamp (dc_Meta d) = None \<and> storedAs d (cl w) \<and> calm lib d (cl w)"
  "\<lambda>w. todo lib d (cl w)" for lib cl c f b d
proof (unfold_locales, elim conjE)
  fix w w'
  assume step: "reconcileRound lib cl (operatorReconciler lib c f b) d w w'"
    and inv: "lawfulClient lib c cl" "lawfulOwner lib" "lawfulFinalizers lib" "lawfulLabels lib" "plainSelector lib d"
      "wanted d \<noteq> []" "om_DeletionTimestamp (dc_Meta d) = None" "storedAs d (cl w)" "calm lib d (cl w)"
  from reconcileRound_todo [OF inv step] inv(1-7) show "(lawfulClient lib c cl \<and> lawfulOwner lib \<and>
      lawfulFinalizers lib \<and> lawfulLabels lib \<and> plainSelector lib d \<and> wanted d \<noteq> [] \<and>
      om_DeletionTimestamp (dc_Meta d) = None \<and> storedAs d (cl w') \<and> calm lib d (cl w')) \<and>
    (todo lib d (cl w') < todo lib d (cl w) \<or> (todo lib d (cl w) = 0 \<and> todo lib d (cl w') = 0))" by blast
qed

section \<open>Properties\<close>

text \<open>
  The operator completes the rollout. For a stored DeviceConfig with a version and a
  cluster with no node in upgrade, as many rounds of successful reconciliations as the first
  state bounds (two per waiting node, one per node to uncordon) bring every targeted node to
  the wanted version, uncordoned, whatever happens to the other objects in between.
\<close>

theorem reconciliations_complete_rollout:
  assumes "lawfulClient lib c cl" and "lawfulOwner lib" and "lawfulFinalizers lib" and "lawfulLabels lib"
    and "plainSelector lib d" and "wanted d \<noteq> []" and "om_DeletionTimestamp (dc_Meta d) = None"
    and "cl_DeviceConfigs (cl w) (keyOf (dc_Meta d)) = Some d" and "calm lib d (cl w)"
    and "(reconcileRound lib cl (operatorReconciler lib c f b) d ^^ k) w w'"
    and "todo lib d (cl w) \<le> k" and "n \<in> targetedNodes d (cl w')"
  shows "getNodeUpgradeState lib n d = nodeUpgraded \<and> \<not> isNodeTainted n"
proof -
  have "storedAs d (cl w)" unfolding storedAs_def
    by (rule exI [of _ "dc_Finalizers d"]) (simp add: assms(8))
  with operator.enough_rounds [OF assms(10)] assms have "calm lib d (cl w')" "todo lib d (cl w') = 0" by blast+
  then show ?thesis by (rule todo_0) (rule assms(12))
qed

text \<open>A node that runs version 2 and still has the taint of its upgrade.\<close>

abbreviation exCordoned :: "Taint list \<Rightarrow> Node" where
  "exCordoned ts \<equiv> exNode ''a'' [''neuron'' \<mapsto> ''true'', exVersionLabel \<mapsto> ''2'', exReadyLabel \<mapsto> ''2''] ts"

lemma ex_uncordon:
  assumes "m_Nodes w = [exCordoned [upgradeTaint]]"
  shows "dcrh_handleModuleVersionUpgrade exHelper (setFinalizers [deviceConfigFinalizer] (exDC ''2'')) w =
    (Inr (), w\<lparr>m_Nodes := [exCordoned []]\<rparr>)"
proof -
  let ?d = "setFinalizers [deviceConfigFinalizer] (exDC ''2'')"
  have b: "getNodeUpgradeState memLib (exCordoned ts) ?d = nodeUpgraded" for ts
    by (simp add: getNodeUpgradeState_def Let_def)
  have t: "isNodeTainted (exCordoned [upgradeTaint])" "removeUpgradeTaint [] [upgradeTaint] = []"
    by (simp_all add: isNodeTainted_def upgradeTaint_def)
  have m: "mapGet (Some m) = m" for m by (rule ext) simp
  have merged: "(nodeSetLabels (Some m) (exNode ''a'' m ts))\<lparr>node_Taints := []\<rparr> = exNode ''a'' m []" for m ts
    by (simp add: exNode_def nodeSetLabels_def)
  show ?thesis
    by (simp add: dcrh_handleModuleVersionUpgrade_def bindE_def wrapE_def tryE_def Let_def b t assms m merged
        upgradeImpl_GetTargetedNodes_def upgradeImpl_GetNodeForUpgrade_def memClient_simps memList_def listing_def
        upgradeImpl_UncordonUpgradedNode_def upgradeImpl_CordonNodeForUpgrade_def upgradeImpl_KickoffUpgrade_def
        memPatchNode_def putObj_def removeKey_def mergedList_def)
qed

lemma reconciliations_complete_rollout_witness:
  "\<exists>w'. reconcileRound memLib memCluster (operatorReconciler memLib memClient ''FROM'' False) (exDC ''2'')
       (exWorld [exCordoned [upgradeTaint]] [exDC ''2'']) w' \<and>
     exCordoned [] \<in> targetedNodes (exDC ''2'') (memCluster w') \<and> \<not> isNodeTainted (exCordoned [])"
proof -
  let ?d = "exDC ''2''" and ?w = "exWorld [exCordoned [upgradeTaint]] [exDC ''2'']"
  obtain w' where run: "Reconcile (operatorReconciler memLib memClient ''FROM'' False) ?d ?w = (Inr zeroResult, w')"
    and nodes: "m_Nodes w' = [exCordoned []]" using ex_Reconcile [OF ex_uncordon] by blast
  have ready: "allReady memLib ?d (memCluster w') (memCluster w')"
    by (simp add: allReady_def readied_def nodeIs_def nodes)
  have at: "cl_DeviceConfigs (memCluster ?w) (keyOf (dc_Meta ?d)) = Some ?d" by simp
  from run ready at have round: "reconcileRound memLib memCluster
      (operatorReconciler memLib memClient ''FROM'' False) ?d ?w w'"
    unfolding reconcileRound_def by blast
  have one: "stored (memCluster ?w) n \<Longrightarrow> n = exCordoned [upgradeTaint]" for n using stored_mem [of ?w n] by simp
  have up: "getNodeUpgradeState memLib (exCordoned [upgradeTaint]) ?d = nodeUpgraded"
    by (simp add: getNodeUpgradeState_def Let_def)
  have calm: "calm memLib ?d (memCluster ?w)"
    unfolding calm_def
  proof (intro conjI allI impI)
    show "inUpgrade memLib ?d (memCluster ?w) = {}"
      using one up unfolding inUpgrade_def by (fastforce dest: targetedNodes_stored)
    show "ownTaint n" if "stored (memCluster ?w) n" for n using one [OF that] by (simp add: ownTaint_def)
    show "finite (dom (cl_Nodes (memCluster ?w)))"
      by (rule finite_subset [of _ "{NN [] ''a''}"]) (auto split: if_splits)
  qed
  have keys: "keysOf P (memCluster ?w) \<subseteq> {NN [] ''a''}" for P by (auto simp: keysOf_def dest!: one)
  have "keysOf (isWaiting memLib ?d) (memCluster ?w) = {}"
    unfolding keysOf_empty using up by (auto simp: isWaiting_def dest!: one)
  moreover have "card (keysOf (isTaintedDone memLib ?d) (memCluster ?w)) \<le> 1"
    using card_mono [OF _ keys [of "isTaintedDone memLib ?d"]] by simp
  ultimately have todo: "todo memLib ?d (memCluster ?w) \<le> 1" by (simp add: todo_def)
  have target: "exCordoned [] \<in> targetedNodes ?d (memCluster w')"
    by (simp add: targetedNodes_def stored_def nodes)
  have "getNodeUpgradeState memLib (exCordoned []) ?d = nodeUpgraded \<and> \<not> isNodeTainted (exCordoned [])"
  proof (rule reconciliations_complete_rollout [where cl = memCluster and c = memClient and lib = memLib
        and w = ?w and w' = w' and k = 1 and d = ?d and f = "''FROM''" and b = False])
    show "(reconcileRound memLib memCluster (operatorReconciler memLib memClient ''FROM'' False) ?d ^^ 1) ?w w'"
      unfolding One_nat_def by (rule relpowp_Suc_I, rule relpowp_0_I, rule round)
  qed (use todo target calm at in \<open>simp_all add: lawfulClient_mem lawfulOwner_mem lawfulFinalizers_mem
      lawfulLabels_mem plainSelector_def\<close>)
  with round target show ?thesis by blast
qed

section \<open>The rollout wakes itself\<close>

lemma readied_selected:
  assumes "readied lib d n n'" and "plainSelector lib d"
  shows "selects (Selector (dc_Spec d)) (node_Labels n') = selects (Selector (dc_Spec d)) (node_Labels n)"
  by (rule selects_plain [OF assms(2)])
     (simp add: nodeIs_labels [OF assms(1) [unfolded readied_def]] split: option.split)

lemma state_change_passes:
  assumes "lawfulPredicates predOr changed" and "getNodeUpgradeState lib old d \<noteq> getNodeUpgradeState lib new d"
  shows "GetNodePredicate predOr changed (UpdateEvent old new)"
  using assms by (auto simp: GetNodePredicate_def lawfulPredicates_def getNodeUpgradeState_def)

text \<open>
  C11: no stall. When KMM makes the new version ready on the node that is in upgrade, the update
  of that node passes the predicate and, once the DeviceConfigs are listed, the requests name
  the DeviceConfig whose rollout waits for it: the next node gets its turn.
\<close>

theorem kmm_answer_wakes:
  assumes "lawfulPredicates predOr changed" and "lawfulSelectors ll" and "lawfulOrder ord"
    and "lawfulClient lib c cl" and "lawfulLabels lib" and "plainSelector lib d"
    and "n \<in> inUpgrade lib d (cl w)" and "allReady lib d (cl w) (cl w')"
    and "cl_DeviceConfigs (cl w') (keyOf (dc_Meta d)) = Some d" and "validSelector ll (Selector (dc_Spec d))"
    and "finiteSelectors (cl w')" and "apiList (DeviceConfigs c) None w' = (Inr items, w'')"
  shows "\<exists>n' reqs. stored (cl w') n' \<and> keyOf (node_Meta n') = keyOf (node_Meta n) \<and>
    GetNodePredicate predOr changed (UpdateEvent n n') \<and>
    FindDeviceConfigForNodeChange ll ord (New c) n' w' = (Inr reqs, w'') \<and> keyOf (dc_Meta d) \<in> set reqs"
proof -
  have n: "stored (cl w) n" "selects (Selector (dc_Spec d)) (node_Labels n)"
    "getNodeUpgradeState lib n d = nodeInUpgrade"
    using assms(7) by (auto simp: inUpgrade_def targetedNodes_def)
  have "keyed node_Meta (cl_Nodes (cl w))" using lawfulClientD(1) [OF assms(4), of w] by (simp add: wellKeyed_def)
  from allReady_stored(2) [OF assms(8) this n(1)] obtain n' where
    n': "stored (cl w') n'" "readied lib d n n'" by blast
  have "GetNodePredicate predOr changed (UpdateEvent n n')"
    using state_change_passes [OF assms(1)] readied_facts(2) [OF n'(2) assms(6,5)] n(3) by metis
  moreover from FindDeviceConfig_run [OF assms(2-4) assms(11,12), of n'] obtain reqs where
    "FindDeviceConfigForNodeChange ll ord (New c) n' w' = (Inr reqs, w'')"
    "set reqs = {keyOf (dc_Meta d) | d. cl_DeviceConfigs (cl w') (keyOf (dc_Meta d)) = Some d \<and>
      validSelector ll (Selector (dc_Spec d)) \<and> selects (Selector (dc_Spec d)) (node_Labels n')}" .
  moreover have "selects (Selector (dc_Spec d)) (node_Labels n')"
    using readied_selected [OF n'(2) assms(6)] n(2) by simp
  ultimately show ?thesis using n'(1) readied_key [OF n'(2)] assms(9,10) by blast
qed

lemma kmm_answer_wakes_witness:
  "\<exists>reqs w''. FindDeviceConfigForNodeChange exLabels sortedOrder (New memClient)
       (exNode ''a'' [''neuron'' \<mapsto> ''true'', exVersionLabel \<mapsto> ''2'', exReadyLabel \<mapsto> ''2''] [])
       (exWorld [exNode ''a'' [''neuron'' \<mapsto> ''true'', exVersionLabel \<mapsto> ''2'', exReadyLabel \<mapsto> ''2''] []] [exDC ''2'']) =
     (Inr reqs, w'') \<and> NN ''ns'' ''neuron'' \<in> set reqs"
proof -
  let ?d = "exDC ''2''" and ?n = "exStarted ''a''"
  let ?n' = "exNode ''a'' [''neuron'' \<mapsto> ''true'', exVersionLabel \<mapsto> ''2'', exReadyLabel \<mapsto> ''2''] []"
  let ?w = "exWorld [?n] [?d]" and ?w' = "exWorld [?n'] [?d]"
  have up: "getNodeUpgradeState memLib (exStarted ''a'') ?d = nodeInUpgrade" by (simp add: state_iff)
  have busy: "?n \<in> inUpgrade memLib ?d (memCluster ?w)"
    by (simp add: inUpgrade_def targetedNodes_def stored_def up)
  have ready: "allReady memLib ?d (memCluster ?w) (memCluster ?w')"
    by (simp add: allReady_def readied_def nodeIs_def) (simp add: exNode_def)
  have fin: "finiteSelectors (memCluster ?w')" by (simp add: finiteSelectors_def finiteMap_def)
  have valid: "validSelector exLabels (Selector (dc_Spec ?d))" by (simp add: validSelector_def exLabels_def)
  obtain items w'' where list: "apiList (DeviceConfigs memClient) None ?w' = (Inr items, w'')"
    by (simp add: memClient_def memApi_def memList_def)
  from kmm_answer_wakes [where cl = memCluster and w = ?w and w' = ?w' and c = memClient and n = ?n and d = ?d
      and lib = memLib, OF lawfulPredicates_ex lawfulSelectors_ex lawfulOrder_sorted lawfulClient_mem
      lawfulLabels_mem _ busy ready _ valid fin list]
  obtain n' reqs where n': "stored (memCluster ?w') n'" and
    run: "FindDeviceConfigForNodeChange exLabels sortedOrder (New memClient) n' ?w' = (Inr reqs, w'')"
      "NN ''ns'' ''neuron'' \<in> set reqs" by (auto simp: plainSelector_def)
  have "n' = ?n'" using stored_mem [OF n'] by simp
  with run show ?thesis by blast
qed

end
