(* ===== verification/Resilience.thy ===== *)
theory Resilience
  imports System
begin

text \<open>
  The rollout completes in spite of failures. Between the rounds that count, any number of
  reconciliations may fail at any call (their writes may have gone through), KMM may answer
  for some nodes and not for others, and other objects may change; and the rollout may start
  from any state of the nodes, in the middle of an earlier one included.
\<close>

section \<open>The work that is left\<close>

text \<open>Three steps for a waiting node: its start, KMM's answer, the removal of its taint.\<close>

definition nodeWork :: "library \<Rightarrow> DeviceConfig \<Rightarrow> Node \<Rightarrow> nat" where
  "nodeWork lib d n = (if selects (Selector (dc_Spec d)) (node_Labels n)
     then case getNodeUpgradeState lib n d of nodeBeforeUpgrade \<Rightarrow> 3 | nodeInUpgrade \<Rightarrow> 2
       | nodeUpgraded \<Rightarrow> if isNodeTainted n then 1 else 0
     else 0)"

definition workAt :: "library \<Rightarrow> DeviceConfig \<Rightarrow> (nsname \<rightharpoonup> Node) \<Rightarrow> nsname \<Rightarrow> nat" where
  "workAt lib d N k = (case N k of None \<Rightarrow> 0 | Some n \<Rightarrow> nodeWork lib d n)"

definition work :: "library \<Rightarrow> DeviceConfig \<Rightarrow> cluster \<Rightarrow> nat" where
  "work lib d c = sum (workAt lib d (cl_Nodes c)) (dom (cl_Nodes c))"

definition manageable :: "cluster \<Rightarrow> bool" where
  "manageable c \<longleftrightarrow> finite (dom (cl_Nodes c)) \<and> (\<forall>n. stored c n \<longrightarrow> ownTaint n)"

lemma nodeWork_le: "nodeWork lib d n \<le> 3"
  by (simp add: nodeWork_def split: nodeUpgradeState.split)

lemma work_le: "work lib d c \<le> 3 * card (dom (cl_Nodes c))"
  using sum_bounded_above [of "dom (cl_Nodes c)" "workAt lib d (cl_Nodes c)" 3] nodeWork_le
  by (fastforce simp: work_def workAt_def)

lemma work_0:
  assumes "manageable c" and "work lib d c = 0" and "n \<in> targetedNodes d c"
  shows "getNodeUpgradeState lib n d = nodeUpgraded \<and> \<not> isNodeTainted n"
proof -
  have n: "cl_Nodes c (keyOf (node_Meta n)) = Some n" "selects (Selector (dc_Spec d)) (node_Labels n)"
    using assms(3) by (simp_all add: targetedNodes_def stored_def)
  have "workAt lib d (cl_Nodes c) (keyOf (node_Meta n)) = 0"
    using assms(1,2) n(1) by (auto simp: work_def manageable_def)
  with n show ?thesis by (simp add: workAt_def nodeWork_def split: nodeUpgradeState.splits if_splits)
qed

lemma no_work:
  assumes "keyed node_Meta (cl_Nodes c)"
    and "\<And>n. n \<in> targetedNodes d c \<Longrightarrow> getNodeUpgradeState lib n d = nodeUpgraded \<and> \<not> isNodeTainted n"
  shows "work lib d c = 0"
  unfolding work_def
proof (rule sum.neutral, rule ballI)
  fix k assume "k \<in> dom (cl_Nodes c)"
  then obtain n where n: "cl_Nodes c k = Some n" by blast
  with keyedD [OF assms(1) n] have "stored c n" by (simp add: stored_def)
  with assms(2) [of n] show "workAt lib d (cl_Nodes c) k = 0"
    by (auto simp: workAt_def n nodeWork_def targetedNodes_def)
qed

lemma work_nodes: "cl_Nodes c' = cl_Nodes c \<Longrightarrow> work lib d c' = work lib d c \<and> (manageable c' \<longleftrightarrow> manageable c)"
  by (simp add: work_def manageable_def stored_def)

lemma work_finalizers [simp]: "work lib (setFinalizers fs d) c = work lib d c"
proof -
  have "nodeWork lib (setFinalizers fs d) = nodeWork lib d"
    by (simp add: fun_eq_iff nodeWork_def getNodeUpgradeState_def Let_def)
  then show ?thesis by (simp add: work_def workAt_def cong: option.case_cong)
qed

section \<open>A protocol step never adds work\<close>

lemma work_rewrote:
  assumes "rewrote n ls ts c c' n'" and "stored c n" and "finite (dom (cl_Nodes c))"
  shows "work lib d c' + nodeWork lib d n = work lib d c + nodeWork lib d n'"
proof -
  let ?k = "keyOf (node_Meta n)" and ?D = "dom (cl_Nodes c)"
  have k: "?k \<in> ?D" and at: "cl_Nodes c ?k = Some n" using assms(2) by (auto simp: stored_def)
  note new = rewrote_Nodes [OF assms(1)]
  have dom: "dom (cl_Nodes c') = ?D" using k new by auto
  have "sum (workAt lib d (cl_Nodes c')) (?D - {?k}) = sum (workAt lib d (cl_Nodes c)) (?D - {?k})"
    by (rule sum.cong) (simp_all add: workAt_def new)
  with sum.remove [OF assms(3) k, of "workAt lib d (cl_Nodes c)"]
    sum.remove [OF assms(3) k, of "workAt lib d (cl_Nodes c')"]
  show ?thesis by (simp add: work_def dom) (simp add: workAt_def at new)
qed

lemma manageable_rewrote:
  assumes "rewrote n ls ts c c' n'" and "manageable c" and "ownTaint n'"
  shows "manageable c'"
  using assms rewrote_stored [OF assms(1)] by (auto simp: manageable_def rewrote_Nodes [OF assms(1)] split: if_splits)

lemma uncordon_work:
  assumes "rewrote n (mapGet (node_Labels n)) (filter (\<lambda>t. \<not> isUpgradeTaint t) (node_Taints n)) c c' n'"
    and "n \<in> targetedNodes d c" and "getNodeUpgradeState lib n d = nodeUpgraded" and "isNodeTainted n" and "manageable c"
  shows "manageable c' \<and> Suc (work lib d c') = work lib d c"
proof -
  have st: "stored c n" and sel: "selects (Selector (dc_Spec d)) (node_Labels n)"
    using assms(2) by (simp_all add: targetedNodes_def)
  have own: "ownTaint n'" "\<not> isNodeTainted n'"
    using assms(5) st by (auto simp: manageable_def ownTaint_def isNodeTainted_iff rewrote_taints [OF assms(1)])
  have "nodeWork lib d n = 1" "nodeWork lib d n' = 0"
    using sel assms(3,4) own retaint_state [OF assms(1)] by (simp_all add: nodeWork_def)
  with work_rewrote [OF assms(1) st, of lib d] manageable_rewrote [OF assms(1,5) own(1)] assms(5) show ?thesis
    by (simp add: manageable_def)
qed

lemma start_work:
  assumes "rewrote n ((mapGet (node_Labels n))(versionLabel lib d \<mapsto> wanted d)) ts c c' n'"
    and "ts \<in> {node_Taints n, node_Taints n @ [upgradeTaint]}" and "n \<in> targetedNodes d c"
    and "getNodeUpgradeState lib n d = nodeBeforeUpgrade" and "manageable c"
  shows "manageable c' \<and> work lib d c' < work lib d c"
proof -
  have st: "stored c n" and sel: "selects (Selector (dc_Spec d)) (node_Labels n)"
    using assms(3) by (simp_all add: targetedNodes_def)
  have "ownTaint n'"
    by (rule ownTaint_append [of n]) (use assms(2,5) st in \<open>auto simp: manageable_def rewrote_taints [OF assms(1)]\<close>)
  moreover have "getNodeUpgradeState lib n' d \<noteq> nodeBeforeUpgrade"
    by (simp add: state_iff rewrote_labels [OF assms(1)])
  then have "nodeWork lib d n' \<le> 2" by (simp add: nodeWork_def split: nodeUpgradeState.split)
  moreover have "nodeWork lib d n = 3" using sel assms(4) by (simp add: nodeWork_def)
  ultimately show ?thesis
    using work_rewrote [OF assms(1) st, of lib d] manageable_rewrote [OF assms(1,5)] assms(5)
    by (simp add: manageable_def)
qed

lemma rollout_step_work:
  "rollout_step lib d a c c' \<Longrightarrow> manageable c \<Longrightarrow> manageable c' \<and> work lib d c' \<le> work lib d c"
proof (induction rule: rollout_step.induct)
  case (step_Uncordon n c c' n')
  from uncordon_work [OF step_Uncordon(4,1,2,3,5)] show ?case by simp
next
  case (step_Cordon n c c' n')
  note st = targetedNodes_stored [OF step_Cordon(1)]
  have "ownTaint n'"
    by (rule ownTaint_append [of n]) (use step_Cordon(7) st in \<open>auto simp: manageable_def rewrote_taints [OF step_Cordon(6)]\<close>)
  moreover have "nodeWork lib d n' = nodeWork lib d n"
    using step_Cordon(2) retaint_state [OF step_Cordon(6)] by (simp add: nodeWork_def)
  ultimately show ?case
    using work_rewrote [OF step_Cordon(6) st, of lib d] manageable_rewrote [OF step_Cordon(6,7)] step_Cordon(7)
    by (simp add: manageable_def)
next
  case (step_Start n c c' n')
  from start_work [OF step_Start(5) _ step_Start(1,2,6)] show ?case by simp
qed

lemma did_work: "did lib d as c c' \<Longrightarrow> manageable c \<Longrightarrow> manageable c' \<and> work lib d c' \<le> work lib d c"
proof -
  have "rollout_run lib d as c c' \<Longrightarrow> manageable c \<Longrightarrow> manageable c' \<and> work lib d c' \<le> work lib d c" for as
    by (induction rule: rollout_run.induct) (use rollout_step_work in \<open>fastforce+\<close>)
  then show "did lib d as c c' \<Longrightarrow> manageable c \<Longrightarrow> manageable c' \<and> work lib d c' \<le> work lib d c"
    by (auto simp: did_def)
qed

text \<open>A successful call with no node in upgrade takes work off, as long as there is any.\<close>

lemma upgrade_work:
  assumes "uncordoned lib d c c1" and "started lib d c1 c2" and "manageable c" and "inUpgrade lib d c = {}"
    and "keyed node_Meta (cl_Nodes c)"
  shows "work lib d c2 < work lib d c \<or> work lib d c = 0"
proof -
  have one: "manageable c1 \<and> (Suc (work lib d c1) = work lib d c \<or> c1 = c \<and>
      (\<forall>n \<in> targetedNodes d c. getNodeUpgradeState lib n d = nodeUpgraded \<longrightarrow> \<not> isNodeTainted n))"
    using assms(1,3) unfolding uncordoned_def by (fastforce dest: uncordon_work)
  have two: "work lib d c2 < work lib d c1 \<or> c2 = c1 \<and> (\<forall>n. \<not> mayPick lib d c1 n)"
    using assms(2) one unfolding started_def mayPick_def by (fastforce dest: start_work split: if_splits)
  show ?thesis
  proof (cases "c1 = c \<and> c2 = c1")
    case True
    with one two have "\<not> mayPick lib d c n" for n by fastforce
    then have "getNodeUpgradeState lib n d = nodeUpgraded" if "n \<in> targetedNodes d c" for n
      using that assms(4) by (cases "getNodeUpgradeState lib n d") (auto simp: mayPick_def inUpgrade_def)
    moreover have "\<not> isNodeTainted n" if "n \<in> targetedNodes d c" "getNodeUpgradeState lib n d = nodeUpgraded" for n
      using one that True by auto
    ultimately have "work lib d c = 0" by (intro no_work [OF assms(5)]) blast
    then show ?thesis ..
  qed (use one two in auto)
qed

section \<open>KMM's answers never add work\<close>

text \<open>KMM has answered for some of the nodes; the DeviceConfigs stay.\<close>

definition someReady :: "library \<Rightarrow> DeviceConfig \<Rightarrow> cluster \<Rightarrow> cluster \<Rightarrow> bool" where
  "someReady lib d c c' \<longleftrightarrow> cl_DeviceConfigs c' = cl_DeviceConfigs c \<and>
     (\<forall>k. rel_option (\<lambda>n n'. n' = n \<or> readied lib d n n') (cl_Nodes c k) (cl_Nodes c' k))"

lemma allReady_some: "allReady lib d c c' \<Longrightarrow> cl_DeviceConfigs c' = cl_DeviceConfigs c \<Longrightarrow> someReady lib d c c'"
  unfolding someReady_def allReady_def by (metis (mono_tags, lifting) option.rel_mono_strong)

lemma readied_work:
  assumes "readied lib d n n'" and "plainSelector lib d" and "lawfulLabels lib"
  shows "nodeWork lib d n' \<le> nodeWork lib d n"
proof -
  note facts = readied_facts [OF assms]
  have sel: "selects (Selector (dc_Spec d)) (node_Labels n') = selects (Selector (dc_Spec d)) (node_Labels n)"
    by (rule readied_selected [OF assms(1,2)])
  have t: "isNodeTainted n' = isNodeTainted n"
    using assms(1) unfolding readied_def by (simp add: isNodeTainted_def nodeIs_taints)
  from facts(1,2) sel have st: "selects (Selector (dc_Spec d)) (node_Labels n) \<Longrightarrow>
      getNodeUpgradeState lib n' d = (if getNodeUpgradeState lib n d = nodeBeforeUpgrade then nodeBeforeUpgrade else nodeUpgraded)"
    by (cases "getNodeUpgradeState lib n' d") (auto simp: isWaiting_def)
  show ?thesis
    by (cases "getNodeUpgradeState lib n d") (auto simp: nodeWork_def sel t st)
qed

lemma someReady_work:
  assumes "someReady lib d c c'" and "plainSelector lib d" and "lawfulLabels lib" and "manageable c" and "wellKeyed c"
  shows "manageable c' \<and> work lib d c' \<le> work lib d c"
proof -
  have rel: "rel_option (\<lambda>n n'. n' = n \<or> readied lib d n n') (cl_Nodes c k) (cl_Nodes c' k)" for k
    using assms(1) by (simp add: someReady_def)
  have "cl_Nodes c' k = None \<longleftrightarrow> cl_Nodes c k = None" for k
    using rel [of k] by (cases "cl_Nodes c k"; cases "cl_Nodes c' k") simp_all
  then have dom: "dom (cl_Nodes c') = dom (cl_Nodes c)" by (simp add: dom_def)
  have "workAt lib d (cl_Nodes c') k \<le> workAt lib d (cl_Nodes c) k" for k
    using rel [of k] readied_work [OF _ assms(2,3)]
    by (cases "cl_Nodes c k"; cases "cl_Nodes c' k") (auto simp: workAt_def)
  then have "work lib d c' \<le> work lib d c" by (simp add: work_def dom sum_mono)
  moreover have "ownTaint n'" if st: "stored c' n'" for n'
  proof -
    from rel [of "keyOf (node_Meta n')"] st obtain n where n: "cl_Nodes c (keyOf (node_Meta n')) = Some n"
      "n' = n \<or> readied lib d n n'" by (auto simp: stored_def option_rel_Some2)
    with wellKeyed_key(1) [OF assms(5) n(1)] assms(4) have "ownTaint n" by (simp add: manageable_def stored_def)
    with n(2) readied_facts(4) [OF _ assms(2,3)] show ?thesis by blast
  qed
  ultimately show ?thesis using assms(4) by (simp add: manageable_def dom)
qed

section \<open>No reconciliation adds work\<close>

definition progress :: "library \<Rightarrow> DeviceConfig \<Rightarrow> nat \<Rightarrow> cluster \<Rightarrow> bool" where
  "progress lib d m c \<longleftrightarrow> storedAs d c \<and> manageable c \<and> work lib d c \<le> m"

lemma progress_frame [simp]:
  "progress lib d m (c\<lparr>cl_ConfigMaps := cms\<rparr>) = progress lib d m c"
  "progress lib d m (c\<lparr>cl_Modules := ms\<rparr>) = progress lib d m c"
  "progress lib d m (c\<lparr>cl_Deployments := deps\<rparr>) = progress lib d m c"
  "progress lib d m (c\<lparr>cl_DaemonSets := dss\<rparr>) = progress lib d m c"
  by (simp_all add: progress_def storedAs_def work_def manageable_def stored_def)

lemma setFinalizer_progress:
  assumes "lawfulClient lib c cl" and "om_DeletionTimestamp (dc_Meta d) = None"
  shows "triple (\<lambda>w. progress lib d m (cl w)) (dcrh_setFinalizer lib (operatorHelper lib c f b) (setFinalizers fs d))
    (\<lambda>d' w. progress lib d m (cl w) \<and> (\<exists>gs. d' = setFinalizers gs d)) (\<lambda>_ w. progress lib d m (cl w))"
proof -
  have key: "keyOf (dc_Meta (setFinalizers gs d)) = keyOf (dc_Meta d)" for gs by (simp add: setFinalizers_def)
  have "triple (\<lambda>w. progress lib d m (cl w)) (apiPatch (DeviceConfigs c) (setFinalizers gs d) (setFinalizers fs d))
      (\<lambda>new w. progress lib d m (cl w) \<and> (\<exists>s hs. new = setFinalizers hs s \<and>
        keyOf (dc_Meta s) = keyOf (dc_Meta (setFinalizers gs d)) \<and> (\<exists>is. s = setFinalizers is d)))
      (\<lambda>_ w. progress lib d m (cl w))" for gs
  proof (rule triple_patchDC [OF assms(1)])
    fix x s hs
    assume p: "progress lib d m x" and s: "cl_DeviceConfigs x (keyOf (dc_Meta (setFinalizers gs d))) = Some s"
    then obtain as where as: "s = setFinalizers as d" by (auto simp: progress_def storedAs_def key)
    have "storedAs d (storeDC (setFinalizers hs s) x)"
      using assms(2) by (auto simp: storedAs_def storeDC_def as key)
    with p work_nodes [of "storeDC (setFinalizers hs s) x" x] as
    show "progress lib d m (storeDC (setFinalizers hs s) x) \<and> (\<exists>is. s = setFinalizers is d)"
      by (auto simp: progress_def storeDC_def)
  qed
  then have "triple (\<lambda>w. progress lib d m (cl w)) (apiPatch (DeviceConfigs c) (setFinalizers gs d) (setFinalizers fs d))
      (\<lambda>d' w. progress lib d m (cl w) \<and> (\<exists>gs. d' = setFinalizers gs d)) (\<lambda>_ w. progress lib d m (cl w))" for gs
    by (rule triple_conseq) auto
  then show ?thesis
    unfolding dcrh_setFinalizer_def Let_def newHelper_simps
    by (intro triple_if triple_ret) auto
qed

interpretation progressing: reconciler_handlers "operatorReconciler lib c f b"
  "\<lambda>d'. lawfulClient lib c cl \<longrightarrow> (\<exists>fs. d' = setFinalizers fs d)"
  "\<lambda>w. lawfulClient lib c cl \<longrightarrow> progress lib d m (cl w)" for lib c f b cl d m
proof (cases "lawfulClient lib c cl")
  case True
  have up: "progress lib d m x'" if p: "progress lib d m x" and did: "did lib (setFinalizers fs d) as x x'" for fs as x x'
  proof -
    have "cl_DeviceConfigs x' = cl_DeviceConfigs x" using did_frame [OF did] by (simp add: clusterFrame_def)
    with did_work [OF did] p show ?thesis by (simp add: progress_def storedAs_def)
  qed
  have ops: "keeps (\<lambda>w. progress lib d m (cl w)) (dcrh_handleBuildConfigMap (operatorHelper lib c f b) d')"
    "keeps (\<lambda>w. progress lib d m (cl w)) (dcrh_handleKMMModule (operatorHelper lib c f b) d')"
    "keeps (\<lambda>w. progress lib d m (cl w)) (dcrh_handleCustomScheduler lib (operatorHelper lib c f b) d')"
    "keeps (\<lambda>w. progress lib d m (cl w)) (dcrh_handleNodeMetrics (operatorHelper lib c f b) d')" for d'
    by (rule keeps_build [OF True] keeps_kmm [OF True] keeps_scheduler [OF True] keeps_metrics [OF True]; simp)+
  have "keeps (\<lambda>w. progress lib d m (cl w)) (dcrh_handleModuleVersionUpgrade (operatorHelper lib c f b) (setFinalizers fs d))" for fs
    by (rule keeps_upgrade [OF True]) (rule up)
  with ops True show "reconciler_handlers (operatorReconciler lib c f b)
     (\<lambda>d'. lawfulClient lib c cl \<longrightarrow> (\<exists>fs. d' = setFinalizers fs d))
     (\<lambda>w. lawfulClient lib c cl \<longrightarrow> progress lib d m (cl w))"
    by unfold_locales auto
next
  case False
  then show "reconciler_handlers (operatorReconciler lib c f b)
     (\<lambda>d'. lawfulClient lib c cl \<longrightarrow> (\<exists>fs. d' = setFinalizers fs d))
     (\<lambda>w. lawfulClient lib c cl \<longrightarrow> progress lib d m (cl w))"
    by unfold_locales (simp_all add: keeps_def)
qed

lemma Reconcile_progress:
  assumes "lawfulClient lib c cl" and "om_DeletionTimestamp (dc_Meta d) = None"
  shows "keeps (\<lambda>w. progress lib d m (cl w)) (Reconcile (operatorReconciler lib c f b) (setFinalizers fs d))"
proof -
  have alive: "om_DeletionTimestamp (dc_Meta (setFinalizers fs d)) = None" using assms(2) by (simp add: setFinalizers_def)
  have "triple (\<lambda>w. progress lib d m (cl w) \<and> (\<exists>gs. d' = setFinalizers gs d)) (afterFinalizer (operatorReconciler lib c f b) d')
      (\<lambda>_ w. progress lib d m (cl w)) (\<lambda>_ w. progress lib d m (cl w))" for d'
    using progressing.afterFinalizer_triple [of lib c cl d m d' f b] assms(1) by simp
  then show ?thesis
    unfolding Reconcile_alive [OF alive] keeps_triple NewReconciler_simps
    by (rule triple_bind [OF triple_wrap [OF setFinalizer_progress [OF assms]]])
qed

section \<open>Rounds with failures\<close>

text \<open>
  What may happen any number of times between the rounds that count: a reconciliation of the
  stored DeviceConfig with any outcome, and answers of KMM for some of the nodes together with any
  change to objects other than nodes and DeviceConfigs.
\<close>

inductive disturbance ::
  "library \<Rightarrow> ('w \<Rightarrow> cluster) \<Rightarrow> 'w deviceConfigReconcilerHelperAPI \<Rightarrow> DeviceConfig \<Rightarrow> 'w \<Rightarrow> 'w \<Rightarrow> bool"
  for lib :: library and cl :: "'w \<Rightarrow> cluster" and h :: "'w deviceConfigReconcilerHelperAPI" and d :: DeviceConfig where
  attempt: "cl_DeviceConfigs (cl w) (keyOf (dc_Meta d)) = Some d' \<Longrightarrow> Reconcile h d' w = (r, w') \<Longrightarrow>
    disturbance lib cl h d w w'"
| partialAnswer: "someReady lib d (cl w) (cl w') \<Longrightarrow> disturbance lib cl h d w w'"

text \<open>
  A round that counts: after any disturbances KMM has answered for all nodes, and the next
  reconciliation succeeds.
\<close>

definition disturbedRound ::
  "library \<Rightarrow> ('w \<Rightarrow> cluster) \<Rightarrow> 'w deviceConfigReconcilerHelperAPI \<Rightarrow> DeviceConfig \<Rightarrow> 'w \<Rightarrow> 'w \<Rightarrow> bool" where
  "disturbedRound lib cl h d w w' \<longleftrightarrow> (\<exists>w1 w2 d' res. (disturbance lib cl h d)\<^sup>*\<^sup>* w w1 \<and>
     allReady lib d (cl w1) (cl w2) \<and> cl_DeviceConfigs (cl w2) = cl_DeviceConfigs (cl w1) \<and>
     cl_DeviceConfigs (cl w2) (keyOf (dc_Meta d)) = Some d' \<and> Reconcile h d' w2 = (Inr res, w'))"

lemma answer_progress:
  assumes "someReady lib d x x'" and "plainSelector lib d" and "lawfulLabels lib" and "wellKeyed x" and "progress lib d m x"
  shows "progress lib d m x'"
proof -
  have "manageable x' \<and> work lib d x' \<le> work lib d x"
    by (rule someReady_work [OF assms(1-3) _ assms(4)]) (use assms(5) in \<open>simp add: progress_def\<close>)
  with assms(1,5) show ?thesis by (simp add: progress_def storedAs_def someReady_def)
qed

lemma disturbance_progress:
  assumes "lawfulClient lib c cl" and "lawfulLabels lib" and "plainSelector lib d" and "om_DeletionTimestamp (dc_Meta d) = None"
  shows "disturbance lib cl (operatorReconciler lib c f b) d w w' \<Longrightarrow> progress lib d m (cl w) \<Longrightarrow> progress lib d m (cl w')"
proof (induction rule: disturbance.induct)
  case (attempt w d' r w')
  then obtain fs where "d' = setFinalizers fs d" by (auto simp: progress_def storedAs_def)
  with Reconcile_progress [OF assms(1,4), of m f b fs] attempt show ?case by (auto simp: keeps_def dest: spec [of _ w])
next
  case (partialAnswer w w')
  show ?case by (rule answer_progress [OF partialAnswer(1) assms(3,2) lawfulClientD(1) [OF assms(1)] partialAnswer(2)])
qed

lemma disturbances_progress:
  assumes "lawfulClient lib c cl" and "lawfulLabels lib" and "plainSelector lib d" and "om_DeletionTimestamp (dc_Meta d) = None"
    and "(disturbance lib cl (operatorReconciler lib c f b) d)\<^sup>*\<^sup>* w w'" and "progress lib d m (cl w)"
  shows "progress lib d m (cl w')"
  using assms(5,6) by (induction rule: rtranclp_induct) (use disturbance_progress [OF assms(1-4)] in blast)+

lemma allReady_none:
  assumes "allReady lib d c c'" and "keyed node_Meta (cl_Nodes c)" and "plainSelector lib d" and "lawfulLabels lib"
  shows "inUpgrade lib d c' = {}"
  using allReady_stored(1) [OF assms(1,2)] readied_facts(2) [OF _ assms(3,4)]
  unfolding inUpgrade_def by (blast dest: targetedNodes_stored)

lemma success_work:
  assumes "lawfulClient lib c cl" and "lawfulFinalizers lib" and "wanted d \<noteq> []" and "om_DeletionTimestamp (dc_Meta d) = None"
    and "cl_DeviceConfigs (cl w) (keyOf (dc_Meta d)) = Some (setFinalizers fs d)"
    and "Reconcile (operatorReconciler lib c f b) (setFinalizers fs d) w = (Inr res, w')"
    and "manageable (cl w)" and "inUpgrade lib d (cl w) = {}"
  shows "work lib d (cl w') < work lib d (cl w) \<or> work lib d (cl w) = 0"
proof -
  have at: "cl_DeviceConfigs (cl w) (keyOf (dc_Meta (setFinalizers fs d))) = Some (setFinalizers fs d)"
    and alive: "om_DeletionTimestamp (dc_Meta (setFinalizers fs d)) = None"
    using assms(4,5) by (simp_all add: setFinalizers_def)
  show ?thesis
  proof (rule Reconcile_upgrades [OF assms(1,2) at alive assms(6)])
    fix gs v v' assume v: "cl_Nodes (cl v) = cl_Nodes (cl w)" "cl_Nodes (cl w') = cl_Nodes (cl v')"
      and up: "dcrh_handleModuleVersionUpgrade (operatorHelper lib c f b) (setFinalizers gs (setFinalizers fs d)) v = (Inr (), v')"
    let ?d = "setFinalizers gs d"
    have up': "dcrh_handleModuleVersionUpgrade (operatorHelper lib c f b) ?d v = (Inr (), v')" using up by simp
    have "wanted ?d \<noteq> []" using assms(3) by (simp add: setFinalizers_def)
    from ui.upgrade_success [OF assms(1) _ this up'] obtain c1 where
      c1: "uncordoned lib ?d (cl v) c1" "started lib ?d c1 (cl v')" by auto
    have none: "inUpgrade lib ?d (cl v) = {}"
      using assms(8) v(1) by (simp add: set_eq_iff mem_inUpgrade stored_def)
    have "work lib ?d (cl v') < work lib ?d (cl v) \<or> work lib ?d (cl v) = 0"
      by (rule upgrade_work [OF c1 _ none])
         (use work_nodes [OF v(1)] assms(7) lawfulClientD(1) [OF assms(1)] in \<open>simp_all add: wellKeyed_def\<close>)
    with work_nodes [OF v(1), of lib d] work_nodes [OF v(2), of lib d] show ?thesis by simp
  qed
qed

lemma disturbedRound_work:
  assumes "lawfulClient lib c cl" and "lawfulFinalizers lib" and "lawfulLabels lib" and "plainSelector lib d"
    and "wanted d \<noteq> []" and "om_DeletionTimestamp (dc_Meta d) = None"
    and "storedAs d (cl w) \<and> manageable (cl w)"
    and "disturbedRound lib cl (operatorReconciler lib c f b) d w w'"
  shows "(storedAs d (cl w') \<and> manageable (cl w')) \<and>
    (work lib d (cl w') < work lib d (cl w) \<or> (work lib d (cl w) = 0 \<and> work lib d (cl w') = 0))"
proof -
  from assms(8) obtain w1 w2 d' res where dist: "(disturbance lib cl (operatorReconciler lib c f b) d)\<^sup>*\<^sup>* w w1"
    and ready: "allReady lib d (cl w1) (cl w2)" "cl_DeviceConfigs (cl w2) = cl_DeviceConfigs (cl w1)"
    and d': "cl_DeviceConfigs (cl w2) (keyOf (dc_Meta d)) = Some d'" and run: "Reconcile (operatorReconciler lib c f b) d' w2 = (Inr res, w')"
    unfolding disturbedRound_def by blast
  have "progress lib d (work lib d (cl w)) (cl w)" using assms(7) by (simp add: progress_def)
  from disturbances_progress [OF assms(1,3,4,6) dist this]
  have "progress lib d (work lib d (cl w)) (cl w1)" .
  from answer_progress [OF allReady_some [OF ready] assms(4,3) lawfulClientD(1) [OF assms(1)] this]
  have p2: "progress lib d (work lib d (cl w)) (cl w2)" .
  then obtain fs where fs: "d' = setFinalizers fs d" using d' by (auto simp: progress_def storedAs_def)
  have "progress lib d (work lib d (cl w2)) (cl w2)" using p2 by (simp add: progress_def)
  with Reconcile_progress [OF assms(1,6), of "work lib d (cl w2)" f b fs] run fs
  have p3: "progress lib d (work lib d (cl w2)) (cl w')" by (auto simp: keeps_def dest: spec [of _ w2])
  have "inUpgrade lib d (cl w2) = {}"
    by (rule allReady_none [OF ready(1) _ assms(4,3)]) (use lawfulClientD(1) [OF assms(1)] in \<open>simp add: wellKeyed_def\<close>)
  with success_work [OF assms(1,2,5,6) d' [unfolded fs] run [unfolded fs]] p2
  have "work lib d (cl w') < work lib d (cl w2) \<or> work lib d (cl w2) = 0" by (simp add: progress_def)
  with p2 p3 show ?thesis by (auto simp: progress_def)
qed

interpretation disturbed: measured_rounds "disturbedRound lib cl (operatorReconciler lib c f b) d"
  "\<lambda>w. lawfulClient lib c cl \<and> lawfulFinalizers lib \<and> lawfulLabels lib \<and> plainSelector lib d \<and> wanted d \<noteq> [] \<and>
     om_DeletionTimestamp (dc_Meta d) = None \<and> storedAs d (cl w) \<and> manageable (cl w)"
  "\<lambda>w. work lib d (cl w)" for lib cl c f b d
proof (unfold_locales, elim conjE)
  fix w w'
  assume step: "disturbedRound lib cl (operatorReconciler lib c f b) d w w'"
    and inv: "lawfulClient lib c cl" "lawfulFinalizers lib" "lawfulLabels lib" "plainSelector lib d" "wanted d \<noteq> []"
      "om_DeletionTimestamp (dc_Meta d) = None" "storedAs d (cl w)" "manageable (cl w)"
  from disturbedRound_work [OF inv(1-6) conjI [OF inv(7,8)] step] inv(1-6) show "(lawfulClient lib c cl \<and>
      lawfulFinalizers lib \<and> lawfulLabels lib \<and> plainSelector lib d \<and> wanted d \<noteq> [] \<and>
      om_DeletionTimestamp (dc_Meta d) = None \<and> storedAs d (cl w') \<and> manageable (cl w')) \<and>
    (work lib d (cl w') < work lib d (cl w) \<or> (work lib d (cl w) = 0 \<and> work lib d (cl w') = 0))" by blast
qed

section \<open>Properties\<close>

text \<open>
  C6: the rollout survives failures. Let the cluster have finitely many nodes, none with a
  taint that has the key of the upgrade and another effect, and let the selector not mention
  the labels of the upgrade. Then, from any labels and upgrade taints of the nodes, a number
  of rounds that the first state bounds (at most three per node) brings every targeted node to
  the wanted version, uncordoned, when in each round KMM has answered and one reconciliation
  succeeds, however many reconciliations failed before it, at whatever call, and however
  partial KMM's answers were in between.
\<close>

theorem rollout_survives_failures:
  assumes "lawfulClient lib c cl" and "lawfulFinalizers lib" and "lawfulLabels lib" and "plainSelector lib d"
    and "wanted d \<noteq> []" and "om_DeletionTimestamp (dc_Meta d) = None"
    and "cl_DeviceConfigs (cl w) (keyOf (dc_Meta d)) = Some d" and "manageable (cl w)"
    and "(disturbedRound lib cl (operatorReconciler lib c f b) d ^^ k) w w'"
    and "work lib d (cl w) \<le> k" and "n \<in> targetedNodes d (cl w')"
  shows "getNodeUpgradeState lib n d = nodeUpgraded \<and> \<not> isNodeTainted n \<and>
    work lib d (cl w) \<le> 3 * card (dom (cl_Nodes (cl w)))"
proof -
  have "storedAs d (cl w)" unfolding storedAs_def by (rule exI [of _ "dc_Finalizers d"]) (simp add: assms(7))
  then have "manageable (cl w')" "work lib d (cl w') = 0"
    using disturbed.enough_rounds [OF assms(9)] assms(1-6,8,10) by blast+
  from work_0 [OF this assms(11)] show ?thesis by (simp add: work_le)
qed

text \<open>
  The config map of the dockerfile is owned by someone else, so the first reconciliation
  fails after it has set the finalizer; once the config map is gone, the next one succeeds.
\<close>

definition exForeign :: ConfigMap where
  "exForeign = \<lparr>cm_Meta = zeroMeta\<lparr>om_Namespace := ''ns'', om_Name := ''dockerfile-neuron'',
     om_OwnerReferences := [controllerOf ((exDC [])\<lparr>dc_Meta := (dc_Meta (exDC []))\<lparr>om_Name := ''other''\<rparr>\<rparr>)]\<rparr>, cm_Data = None\<rparr>"

lemma ex_setFinalizer:
  fixes v :: string
  defines "d \<equiv> setFinalizers [deviceConfigFinalizer] (exDC v)"
  shows "dcrh_setFinalizer memLib exHelper (exDC v) ((exWorld ns [exDC v])\<lparr>m_ConfigMaps := cms\<rparr>) =
    (Inr d, (exWorld ns [d])\<lparr>m_ConfigMaps := cms\<rparr>)"
  by (simp add: dcrh_setFinalizer_def memClient_simps memPatchDC_def setFinalizers_def Let_def memLib_def
      dcMerged_def mergedList_def putObj_def removeKey_def exWorld_def d_def)

lemma ex_Reconcile_again:
  fixes v :: string
  defines "d \<equiv> setFinalizers [deviceConfigFinalizer] (exDC v)"
  shows "Reconcile (operatorReconciler memLib memClient ''FROM'' False) d (exWorld ns [d]) =
    Reconcile (operatorReconciler memLib memClient ''FROM'' False) (exDC v) (exWorld ns [exDC v])"
proof -
  have alive: "om_DeletionTimestamp (dc_Meta d) = None" "om_DeletionTimestamp (dc_Meta (exDC v)) = None"
    by (simp_all add: d_def setFinalizers_def)
  have fin: "dcrh_setFinalizer memLib exHelper d w = (Inr d, w)" for w
    by (simp add: dcrh_setFinalizer_def memLib_def d_def setFinalizers_def)
  have cms: "(exWorld ns [x])\<lparr>m_ConfigMaps := []\<rparr> = exWorld ns [x]" for x by (simp add: exWorld_def emptyMem_def)
  show ?thesis unfolding Reconcile_alive [OF alive(1)] Reconcile_alive [OF alive(2)]
    using ex_setFinalizer [where v = v and ns = ns and cms = "[]"]
    by (simp add: bindE_def wrapE_def tryE_def fin [unfolded d_def] cms d_def)
qed

lemma ex_foreign:
  fixes v :: string
  defines "d \<equiv> setFinalizers [deviceConfigFinalizer] (exDC v)"
  shows "\<exists>e. Reconcile (operatorReconciler memLib memClient ''FROM'' False) (exDC v)
      ((exWorld ns [exDC v])\<lparr>m_ConfigMaps := [exForeign]\<rparr>) = (Inl e, (exWorld ns [d])\<lparr>m_ConfigMaps := [exForeign]\<rparr>)"
proof -
  have alive: "om_DeletionTimestamp (dc_Meta (exDC v)) = None" by simp
  have "\<exists>e. dcrh_handleBuildConfigMap exHelper d ((exWorld ns [d])\<lparr>m_ConfigMaps := [exForeign]\<rparr>) =
      (Inl e, (exWorld ns [d])\<lparr>m_ConfigMaps := [exForeign]\<rparr>)"
    by (simp add: dcrh_handleBuildConfigMap_def Let_def bindE_def memClient_simps memUpsert_def d_def
        SetBuildConfigMap_eq memLib_def zeroMeta_def keyOf_def exForeign_def controllerOf_def
        GetDockerfileCMName_def)
  then show ?thesis unfolding Reconcile_alive [OF alive]
    using ex_setFinalizer [where v = v and ns = ns and cms = "[exForeign]"]
    by (auto simp: afterFinalizer_def bindE_def wrapE_def tryE_def d_def)
qed

lemma ex_disturbed:
  "\<exists>w'. disturbedRound memLib memCluster (operatorReconciler memLib memClient ''FROM'' False) (exDC ''2'')
      ((exWorld [exCordoned [upgradeTaint]] [exDC ''2''])\<lparr>m_ConfigMaps := [exForeign]\<rparr>) w' \<and> m_Nodes w' = [exCordoned []]"
proof -
  let ?d = "exDC ''2''" and ?d' = "setFinalizers [deviceConfigFinalizer] (exDC ''2'')"
  let ?R = "Reconcile (operatorReconciler memLib memClient ''FROM'' False)"
  let ?w = "(exWorld [exCordoned [upgradeTaint]] [?d])\<lparr>m_ConfigMaps := [exForeign]\<rparr>"
  let ?w1 = "(exWorld [exCordoned [upgradeTaint]] [?d'])\<lparr>m_ConfigMaps := [exForeign]\<rparr>"
  let ?w2 = "exWorld [exCordoned [upgradeTaint]] [?d']"
  note dist = disturbance.intros [where lib = memLib and cl = memCluster and d = ?d
      and h = "operatorReconciler memLib memClient ''FROM'' False"]
  obtain e where "?R ?d ?w = (Inl e, ?w1)" using ex_foreign by blast
  then have 1: "disturbance memLib memCluster (operatorReconciler memLib memClient ''FROM'' False) ?d ?w ?w1"
    by (rule dist(1) [rotated]) simp
  have 2: "disturbance memLib memCluster (operatorReconciler memLib memClient ''FROM'' False) ?d ?w1 ?w2"
    by (rule dist(2)) (simp add: someReady_def option.rel_refl)
  have ready: "allReady memLib ?d (memCluster ?w2) (memCluster ?w2)"
    by (simp add: allReady_def readied_def nodeIs_def)
  obtain w' where "?R ?d (exWorld [exCordoned [upgradeTaint]] [?d]) = (Inr zeroResult, w')"
    and nodes: "m_Nodes w' = [exCordoned []]" using ex_Reconcile [OF ex_uncordon] by blast
  then have "?R ?d' ?w2 = (Inr zeroResult, w')" by (simp only: ex_Reconcile_again)
  moreover have "cl_DeviceConfigs (memCluster ?w2) (keyOf (dc_Meta ?d)) = Some ?d'" by (simp add: setFinalizers_def)
  moreover have "(disturbance memLib memCluster (operatorReconciler memLib memClient ''FROM'' False) ?d)\<^sup>*\<^sup>* ?w ?w2"
    by (rule converse_rtranclp_into_rtranclp, rule 1, rule r_into_rtranclp, rule 2)
  ultimately have "disturbedRound memLib memCluster (operatorReconciler memLib memClient ''FROM'' False) ?d ?w w'"
    unfolding disturbedRound_def using ready by blast
  with nodes show ?thesis by blast
qed

lemma rollout_survives_failures_witness:
  "\<exists>w'. disturbedRound memLib memCluster (operatorReconciler memLib memClient ''FROM'' False) (exDC ''2'')
       ((exWorld [exCordoned [upgradeTaint]] [exDC ''2''])\<lparr>m_ConfigMaps := [exForeign]\<rparr>) w' \<and>
     exCordoned [] \<in> targetedNodes (exDC ''2'') (memCluster w') \<and> \<not> isNodeTainted (exCordoned [])"
proof -
  let ?d = "exDC ''2''" and ?w = "(exWorld [exCordoned [upgradeTaint]] [exDC ''2''])\<lparr>m_ConfigMaps := [exForeign]\<rparr>"
  obtain w' where round: "disturbedRound memLib memCluster (operatorReconciler memLib memClient ''FROM'' False) ?d ?w w'"
    and nodes: "m_Nodes w' = [exCordoned []]" using ex_disturbed by blast
  have one: "stored (memCluster ?w) n \<Longrightarrow> n = exCordoned [upgradeTaint]" for n using stored_mem [of ?w n] by simp
  have dom: "dom (cl_Nodes (memCluster ?w)) = {NN [] ''a''}" by (auto split: if_splits)
  have man: "manageable (memCluster ?w)" unfolding manageable_def dom by (auto simp: ownTaint_def dest!: one)
  have up: "getNodeUpgradeState memLib (exCordoned [upgradeTaint]) ?d = nodeUpgraded" by (simp add: state_iff)
  have todo: "work memLib ?d (memCluster ?w) \<le> 1" unfolding work_def dom by (simp add: workAt_def nodeWork_def up)
  have target: "exCordoned [] \<in> targetedNodes ?d (memCluster w')" by (simp add: targetedNodes_def stored_def nodes)
  have "getNodeUpgradeState memLib (exCordoned []) ?d = nodeUpgraded \<and> \<not> isNodeTainted (exCordoned []) \<and>
      work memLib ?d (memCluster ?w) \<le> 3 * card (dom (cl_Nodes (memCluster ?w)))"
  proof (rule rollout_survives_failures [where cl = memCluster and c = memClient and lib = memLib
        and w = ?w and w' = w' and k = 1 and d = ?d and f = "''FROM''" and b = False])
    show "(disturbedRound memLib memCluster (operatorReconciler memLib memClient ''FROM'' False) ?d ^^ 1) ?w w'"
      unfolding One_nat_def by (rule relpowp_Suc_I, rule relpowp_0_I, rule round)
  qed (use todo target man in \<open>simp_all add: lawfulClient_mem lawfulFinalizers_mem lawfulLabels_mem plainSelector_def\<close>)
  with round target show ?thesis by blast
qed

end
