(* ===== verification/Failures.thy ===== *)
theory Failures
  imports Finalize
begin

text \<open>
  Failure behaviour of the reconciler: the phases of a reconciliation run in order up to the
  first error, which is returned wrapped, whatever helper is plugged in; and the operator's
  own code never panics, as long as the client and the libraries do not.
\<close>

section \<open>The phases of a reconciliation\<close>

definition phases :: "'w deviceConfigReconcilerHelperAPI \<Rightarrow> DeviceConfig \<Rightarrow> (string \<times> ('w, unit) io) list" where
  "phases h d =
     [(''failed to handle build ConfigMap for DeviceConfig: %v'', handleBuildConfigMap h d),
      (''failed to handle KMM module for DeviceConfig: %v'', handleKMMModule h d),
      (''failed to handle KMM module version upgrade for DeviceConfig: %v'', handleModuleVersionUpgrade h d)] @
     (if DRADriverImage (dc_Spec d) = []
      then [(''failed to handle customScheduler for DeviceConfig: %v'', handleCustomScheduler h d)] else []) @
     [(''failed to handle node metrics for DeviceConfig: %v'', handleNodeMetrics h d)]"

fun runAll :: "(string \<times> ('w, unit) io) list \<Rightarrow> ('w, unit) io" where
  "runAll [] = ret ()"
| "runAll ((msg, phase) # rest) =
     bindE (wrapE (\<lambda>err. Errorf msg [] (Some err)) phase) (\<lambda>_. runAll rest)"

lemma afterFinalizer_phases: "afterFinalizer h d = bindE (runAll (phases h d)) (\<lambda>_. ret zeroResult)"
  by (simp add: afterFinalizer_def phases_def bindE_assoc)

lemma runAll_error:
  "runAll ps w = (Inl e, w') \<Longrightarrow> \<exists>pre msg phase post v err. ps = pre @ (msg, phase) # post \<and>
     runAll pre w = (Inr (), v) \<and> phase v = (Inl err, w') \<and>
     e = onError (\<lambda>err. Errorf msg [] (Some err)) err"
proof (induction ps arbitrary: w)
  case Nil
  then show ?case by simp
next
  case (Cons p ps)
  obtain msg phase where p: "p = (msg, phase)" by (cases p)
  obtain r v where run: "phase w = (r, v)" by fastforce
  show ?case
  proof (cases r)
    case (Inl err)
    have "p # ps = [] @ (msg, phase) # ps" "runAll [] w = (Inr (), w)" "phase w = (Inl err, w')"
      "e = onError (\<lambda>err. Errorf msg [] (Some err)) err"
      using Cons.prems p run Inl by (simp_all add: bindE_def wrapE_def tryE_def)
    then show ?thesis by blast
  next
    case (Inr u)
    have step: "runAll (p # qs) w = runAll qs v" for qs
      using p run Inr by (simp add: bindE_def wrapE_def tryE_def)
    with Cons.prems have "runAll ps v = (Inl e, w')" by simp
    from Cons.IH [OF this] obtain pre m q post x err where "ps = pre @ (m, q) # post"
      "runAll pre v = (Inr (), x)" "q x = (Inl err, w')" "e = onError (\<lambda>err. Errorf m [] (Some err)) err" by blast
    then have "p # ps = (p # pre) @ (m, q) # post" "runAll (p # pre) w = (Inr (), x)" "q x = (Inl err, w')"
      "e = onError (\<lambda>err. Errorf m [] (Some err)) err" using step by simp_all
    then show ?thesis by blast
  qed
qed

section \<open>No panics\<close>

definition sane :: "('w, 'a) io \<Rightarrow> bool" where
  "sane m \<longleftrightarrow> (\<forall>w s. fst (m w) \<noteq> Inl (Panic s))"

definition sanePure :: "goerr + 'a \<Rightarrow> bool" where
  "sanePure r \<longleftrightarrow> (\<forall>s. r \<noteq> Inl (Panic s))"

named_theorems sane_intros

lemma sane_ret [sane_intros]: "sane (ret x)"
  by (simp add: sane_def)

lemma sane_fail [sane_intros]: "(\<And>s. e \<noteq> Panic s) \<Longrightarrow> sane (fail e)"
  by (simp add: sane_def)

lemma sane_liftE: "sanePure r \<Longrightarrow> sane (liftE r)"
  by (simp add: sane_def sanePure_def)

lemma sane_try:
  assumes "sane m" and "\<And>e. (\<And>s. e \<noteq> Panic s) \<Longrightarrow> sane (h e)" and "\<And>x. sane (f x)"
  shows "sane (tryE m h f)"
  using assms unfolding sane_def tryE_def
  by (auto split: prod.splits sum.splits) (metis fst_conv)+

lemma sane_bind [sane_intros]: "sane m \<Longrightarrow> (\<And>x. sane (f x)) \<Longrightarrow> sane (bindE m f)"
  unfolding sane_def bindE_def by (auto split: prod.splits sum.splits) (metis fst_conv)

lemma sane_wrap [sane_intros]: "sane m \<Longrightarrow> (\<And>e s. g e \<noteq> Panic s) \<Longrightarrow> sane (wrapE g m)"
  unfolding wrapE_def
proof (rule sane_try)
  show "sane (fail (onError g e))" if "\<And>e s. g e \<noteq> Panic s" "\<And>s. e \<noteq> Panic s" for e
    using that by (cases e) (auto intro: sane_fail)
qed (auto intro: sane_ret)

lemma sane_if [sane_intros]: "(b \<Longrightarrow> sane m) \<Longrightarrow> (\<not> b \<Longrightarrow> sane n) \<Longrightarrow> sane (if b then m else n)"
  by simp

text \<open>A client and libraries that do not panic.\<close>

definition saneApi :: "('w, 'o) api \<Rightarrow> bool" where
  "saneApi a \<longleftrightarrow> (\<forall>k. sane (apiGet a k)) \<and> (\<forall>s. sane (apiList a s)) \<and> (\<forall>x y. sane (apiPatch a x y)) \<and>
     (\<forall>x. sane (apiDelete a x)) \<and> (\<forall>x f. (\<forall>y. sanePure (f y)) \<longrightarrow> sane (apiCreateOrPatch a x f))"

definition saneClient :: "'w client \<Rightarrow> bool" where
  "saneClient c \<longleftrightarrow> saneApi (Nodes c) \<and> saneApi (Modules c) \<and> saneApi (DaemonSets c) \<and>
     saneApi (Deployments c) \<and> saneApi (ConfigMaps c) \<and> saneApi (DeviceConfigs c)"

definition saneLibrary :: "library \<Rightarrow> bool" where
  "saneLibrary lib \<longleftrightarrow> (\<forall>d m. sanePure (setControllerReference lib d m))"

lemma sane_upgrade_operations:
  assumes "saneClient c"
  shows "sane (upgradeImpl_GetTargetedNodes c d)" and "sane (upgradeImpl_UncordonUpgradedNode c n)"
    and "sane (upgradeImpl_CordonNodeForUpgrade lib c d n)" and "sane (upgradeImpl_KickoffUpgrade lib c d n)"
    and "sane (upgradeImpl_RemoveUpgradeLabels lib c d)"
proof -
  have a: "saneApi (Nodes c)" using assms by (simp add: saneClient_def)
  show "sane (upgradeImpl_GetTargetedNodes c d)" unfolding upgradeImpl_GetTargetedNodes_def
    using a by (auto simp: saneApi_def intro!: sane_intros)
  show "sane (upgradeImpl_UncordonUpgradedNode c n)"
    using a by (cases n) (auto simp: upgradeImpl_UncordonUpgradedNode_def Let_def saneApi_def intro!: sane_intros)
  show "sane (upgradeImpl_CordonNodeForUpgrade lib c d n)"
    using a by (cases n) (auto simp: upgradeImpl_CordonNodeForUpgrade_def Let_def saneApi_def intro!: sane_intros)
  show "sane (upgradeImpl_KickoffUpgrade lib c d n)"
  proof (cases n)
    case (Some x)
    obtain m where m: "(case node_Labels x of None \<Rightarrow> Some Map.empty | Some m \<Rightarrow> Some m) = Some m"
      by (cases "node_Labels x") auto
    with a Some show ?thesis
      by (auto simp: upgradeImpl_KickoffUpgrade_def Let_def saneApi_def intro!: sane_intros)
  qed (auto simp: upgradeImpl_KickoffUpgrade_def intro!: sane_intros)
  have "sane (removeLabelLoop c key ns)" for key ns
    using a by (induction ns) (auto simp: Let_def saneApi_def intro!: sane_intros)
  then show "sane (upgradeImpl_RemoveUpgradeLabels lib c d)"
    using a by (auto simp: upgradeImpl_RemoveUpgradeLabels_def Let_def saneApi_def intro!: sane_intros)
qed

lemma sane_mutates:
  assumes "saneLibrary lib"
  shows "sanePure (SetBuildConfigMapAsDesired f lib d cm)" and "sanePure (SetKMMModuleAsDesired lib d m)"
    and "sanePure (ownDeployment lib d dp)" and "sanePure (SetNodeMetricsAsDesired lib ds d)"
  using assms
  by (auto simp: saneLibrary_def sanePure_def SetBuildConfigMap_eq kmm_defs Let_def ownDeployment_def
      SetNodeMetricsAsDesired_def split: sum.splits option.splits if_splits)

lemma sane_upgrade:
  assumes "saneClient c"
  shows "sane (dcrh_handleModuleVersionUpgrade (operatorHelper lib c f b) d)"
proof -
  note up = sane_upgrade_operations [OF assms]
  have cordon: "sane (wrapE (\<lambda>err. case n of None \<Rightarrow> Panic s | Some n \<Rightarrow> Errorf m (xs n) (Some err))
      (upgradeImpl_CordonNodeForUpgrade lib c d n))" for n s m xs
  proof (cases n)
    case None
    then show ?thesis by (simp add: upgradeImpl_CordonNodeForUpgrade_def sane_ret)
  next
    case (Some x)
    then show ?thesis by (simp add: sane_wrap [OF up(3)])
  qed
  show ?thesis
    unfolding dcrh_handleModuleVersionUpgrade_def Let_def newHelper_simps NewUpgradeAPI_simps
    by (intro sane_if sane_ret sane_bind cordon up(4)) (auto intro!: sane_wrap up)
qed

lemma sane_handlers:
  assumes "saneClient c" and "saneLibrary lib"
  shows "sane (dcrh_handleBuildConfigMap (operatorHelper lib c f b) d)"
    and "sane (dcrh_handleKMMModule (operatorHelper lib c f b) d)"
    and "sane (dcrh_handleCustomScheduler lib (operatorHelper lib c f b) d)"
    and "sane (dcrh_handleNodeMetrics (operatorHelper lib c f b) d)"
    and "sane (dcrh_setFinalizer lib (operatorHelper lib c f b) d)"
  using assms(1) sane_mutates [OF assms(2)]
  by (auto simp: dcrh_handleBuildConfigMap_def dcrh_handleKMMModule_def dcrh_handleCustomScheduler_def
      dcrh_handleNodeMetrics_def dcrh_setFinalizer_def Let_def saneClient_def saneApi_def intro!: sane_intros)

lemma sane_finalize:
  assumes "saneClient c"
  shows "sane (dcrh_finalizeDeviceConfig lib (operatorHelper lib c f b) d)"
proof -
  have a: "sane (apiGet (DaemonSets c) k)" "sane (apiGet (Modules c) k)" "sane (apiDelete (DaemonSets c) x)"
    "sane (apiDelete (Modules c) m)" "sane (apiPatch (DeviceConfigs c) y z)" for k x m y z
    using assms by (simp_all add: saneClient_def saneApi_def)
  show ?thesis
    unfolding dcrh_finalizeDeviceConfig_def Let_def newHelper_simps NewUpgradeAPI_simps
    by (intro sane_try sane_if sane_fail sane_bind sane_wrap sane_ret a sane_upgrade_operations(5) [OF assms]) auto
qed

section \<open>Properties\<close>

text \<open>
  C15: the first error ends it. A reconciliation that returns an error, over any helper, has
  failed in one place: either in setFinalizer, and nothing else ran, or in one of the phases,
  after all phases before it had succeeded; the error is that phase's, wrapped with the
  phase's message, and the world is as that phase left it: no later phase has run.
\<close>

theorem reconcile_first_error:
  assumes "om_DeletionTimestamp (dc_Meta d) = None" and "Reconcile h d w = (Inl e, w')"
  shows "(\<exists>err. setFinalizer h d w = (Inl err, w') \<and>
      e = onError (\<lambda>err. Errorf ''failed to set finalizer for DeviceConfig: %v'' [] (Some err)) err) \<or>
    (\<exists>d' w1 pre msg phase post v err. setFinalizer h d w = (Inr d', w1) \<and>
      phases h d' = pre @ (msg, phase) # post \<and> runAll pre w1 = (Inr (), v) \<and> phase v = (Inl err, w') \<and>
      e = onError (\<lambda>err. Errorf msg [] (Some err)) err)"
proof -
  obtain r w1 where s: "setFinalizer h d w = (r, w1)" by fastforce
  show ?thesis
  proof (cases r)
    case (Inl err)
    with assms s show ?thesis by (simp add: Reconcile_alive bindE_def wrapE_def tryE_def)
  next
    case (Inr d')
    with assms s have "runAll (phases h d') w1 = (Inl e, w')"
      by (simp add: Reconcile_alive bindE_def wrapE_def tryE_def afterFinalizer_phases split: prod.splits sum.splits)
    from runAll_error [OF this] s Inr show ?thesis by blast
  qed
qed

text \<open>A client whose config maps cannot be written: the first phase fails, no Module is made.\<close>

definition exBroken :: "mem client" where
  "exBroken = memClient\<lparr>ConfigMaps := (ConfigMaps memClient)\<lparr>apiCreateOrPatch := (\<lambda>x f. fail invalidErr)\<rparr>\<rparr>"

lemma reconcile_first_error_witness:
  "\<exists>w' d' w1 pre msg phase post. Reconcile (operatorReconciler memLib exBroken ''FROM'' False)
       (setFinalizers [deviceConfigFinalizer] (exDC ''2'')) (exWorld [] []) =
     (Inl (Errorf ''failed to handle build ConfigMap for DeviceConfig: %v'' [] (Some invalidErr)), w') \<and>
   phases (operatorReconciler memLib exBroken ''FROM'' False) d' = pre @ (msg, phase) # post \<and> m_Modules w' = []"
proof -
  let ?d = "setFinalizers [deviceConfigFinalizer] (exDC ''2'')"
  let ?h = "operatorReconciler memLib exBroken ''FROM'' False"
  have fin: "dcrh_setFinalizer memLib (operatorHelper memLib exBroken ''FROM'' False) ?d = ret ?d"
    by (simp add: dcrh_setFinalizer_def memLib_def)
  have broken: "apiCreateOrPatch (ConfigMaps exBroken) x g = fail invalidErr" for x g by (simp add: exBroken_def)
  have run: "Reconcile ?h ?d (exWorld [] []) =
      (Inl (Errorf ''failed to handle build ConfigMap for DeviceConfig: %v'' [] (Some invalidErr)), exWorld [] [])"
    by (simp add: Reconcile_alive fin afterFinalizer_def dcrh_handleBuildConfigMap_def broken Let_def)
       (simp add: bindE_def wrapE_def tryE_def invalidErr_def)
  have "om_DeletionTimestamp (dc_Meta ?d) = None" by simp
  from reconcile_first_error [OF this run]
  have "\<exists>d' pre msg phase post. phases ?h d' = pre @ (msg, phase) # post"
    by (rule disjE) (simp add: fin, blast)
  moreover have "m_Modules (exWorld [] []) = []" by simp
  ultimately show ?thesis using run by blast
qed

text \<open>
  C16: the operator does not panic. When the client and the library return errors instead of
  panicking, no reconciliation panics: no write to a nil map, no access through the nil node
  pointer that the upgrade handler passes on when there is nothing to do, on any path.
\<close>

theorem reconcile_never_panics:
  assumes "saneClient c" and "saneLibrary lib"
  shows "fst (Reconcile (operatorReconciler lib c f b) d w) \<noteq> Inl (Panic s)"
proof -
  note h = sane_handlers [OF assms] sane_upgrade [OF assms(1)] sane_finalize [OF assms(1)]
  have "sane (Reconcile (operatorReconciler lib c f b) d)"
  proof (cases "om_DeletionTimestamp (dc_Meta d) = None")
    case True
    show ?thesis unfolding Reconcile_alive [OF True] afterFinalizer_def NewReconciler_simps
      by (intro sane_bind sane_wrap sane_if sane_ret h) simp_all
  next
    case False
    show ?thesis unfolding Reconcile_deleted [OF False] NewReconciler_simps
      by (intro sane_bind sane_wrap sane_ret h) simp_all
  qed
  then show ?thesis by (simp add: sane_def)
qed

lemma saneLibrary_mem: "saneLibrary memLib"
  by (simp add: saneLibrary_def sanePure_def memLib_def)

lemma sane_memUpsert: "(\<And>y. sanePure (f y)) \<Longrightarrow> sane (memUpsert meta field store x f)"
  unfolding sane_def memUpsert_def by (auto simp: sanePure_def invalidErr_def split: sum.splits)

lemma saneApi_mem:
  assumes "\<And>x y. sane (patch x y)"
  shows "saneApi (memApi meta setMeta field store patch)"
  using assms
  by (auto simp: saneApi_def memApi_def sane_memUpsert)
     (auto simp: sane_def memGet_def memList_def memDelete_def notFoundErr_def split: option.splits)

lemma sane_memPatch: "sane (noPatch x y)" "sane (memPatchNode n m)" "sane (memPatchDC d e)"
  by (auto simp: sane_def noPatch_def memPatchNode_def memPatchDC_def invalidErr_def notFoundErr_def Let_def
      split: option.splits)

lemma saneClient_mem: "saneClient memClient"
  by (simp add: saneClient_def memClient_def saneApi_mem sane_memPatch)

lemma reconcile_never_panics_witness:
  "fst (Reconcile (operatorReconciler memLib memClient ''FROM'' False) (exDC ''2'') (exWorld [exFresh ''a''] [])) \<noteq>
     Inl (Panic ''assignment to entry in nil map'')"
  by (rule reconcile_never_panics [OF saneClient_mem saneLibrary_mem])

end
