(* ===== verification/Startup.thy ===== *)
theory Startup
  imports Controller NodeFilter
begin

text \<open>
  The start of the process: internal/config/config.go (the configuration file),
  internal/cmd/cmdutils.go (fatal errors), the controller's registration with the manager
  (\<open>SetupWithManager\<close>) and cmd/main.go, which puts everything together. The operating system,
  the YAML decoder and controller-runtime's manager and builder are parameters. Log lines
  and contexts are left out, except the line a fatal error writes.
\<close>

section \<open>The configuration file\<close>

record ('w, 'fd, 'cfg) files =
  openFile :: "string \<Rightarrow> ('w, 'fd) io"
  decodeYAML :: "'fd \<Rightarrow> 'cfg \<Rightarrow> ('w, 'cfg) io"
  closeFile :: "'fd \<Rightarrow> ('w, unit) io"

record LeaderElection =
  le_Enabled :: bool
  le_ResourceID :: string

record Config =
  cfg_HealthProbeBindAddress :: string
  cfg_MetricsBindAddress :: string
  cfg_LeaderElection :: LeaderElection

definition zeroConfig :: Config where
  "zeroConfig = \<lparr>cfg_HealthProbeBindAddress = [], cfg_MetricsBindAddress = [],
     cfg_LeaderElection = \<lparr>le_Enabled = False, le_ResourceID = []\<rparr>\<rparr>"

text \<open>\<open>defer d\<close>: \<open>d\<close> runs when \<open>m\<close> has returned, whatever it returned, and its error is ignored.\<close>

definition deferE :: "('w, unit) io \<Rightarrow> ('w, 'a) io \<Rightarrow> ('w, 'a) io" where
  "deferE d m = (\<lambda>w. case m w of (r, w1) \<Rightarrow> (r, snd (d w1)))"

definition ParseFile :: "('w, 'fd, Config) files \<Rightarrow> string \<Rightarrow> ('w, Config) io" where
  "ParseFile os path =
     bindE (wrapE (\<lambda>err. Errorf ''could not open the configuration file: %v'' [] (Some err)) (openFile os path))
       (\<lambda>fd. deferE (closeFile os fd)
          (bindE (wrapE (\<lambda>err. Errorf ''could not decode configuration file: %v'' [] (Some err))
             (decodeYAML os fd zeroConfig)) (\<lambda>cfg. ret cfg)))"

record MetricsOptions =
  BindAddress :: string

record 's Options =
  HealthProbeBindAddress :: string
  LeaderElection :: bool
  LeaderElectionID :: string
  Metrics :: MetricsOptions
  Scheme :: "'s option"

definition ManagerOptions :: "Config \<Rightarrow> 's Options" where
  "ManagerOptions c = \<lparr>HealthProbeBindAddress = cfg_HealthProbeBindAddress c,
     LeaderElection = le_Enabled (cfg_LeaderElection c),
     LeaderElectionID = le_ResourceID (cfg_LeaderElection c),
     Metrics = \<lparr>BindAddress = cfg_MetricsBindAddress c\<rparr>, Scheme = None\<rparr>"

section \<open>The end of the process\<close>

text \<open>
  A process may end early: with the fatal error it logs (then it exits with status 1), in
  \<open>ctrl.GetConfigOrDie\<close>, or with a panic. Nothing runs after that.
\<close>

datatype ending = Fatal goerr string "string list" | Died | Panicked goerr

type_synonym ('w, 'a) process = "'w \<Rightarrow> (ending + 'a) \<times> 'w"

definition FatalError :: "goerr \<Rightarrow> string \<Rightarrow> string list \<Rightarrow> ('w, 'a) process" where
  "FatalError err msg kvs = (\<lambda>w. (Inl (Fatal err msg kvs), w))"

definition GetEnvOrFatalError :: "(string \<Rightarrow> string) \<Rightarrow> string \<Rightarrow> ('w, string) process" where
  "GetEnvOrFatalError getenv name =
     (let val = getenv name
      in if val = []
         then FatalError (Errorf ''empty value'' [] None) ''Could not get the environment variable'' [''name'', name]
         else (\<lambda>w. (Inr val, w)))"

text \<open>\<open>orFatal m msg kvs k\<close> is \<open>x, err := m; if err != nil { FatalError(err, msg, fields) }; k(x)\<close>.\<close>

definition orFatal ::
  "('w, 'a) io \<Rightarrow> string \<Rightarrow> string list \<Rightarrow> ('a \<Rightarrow> ('w, 'b) process) \<Rightarrow> ('w, 'b) process" where
  "orFatal m msg kvs k = (\<lambda>w. case m w of
     (Inl (Panic s), w') \<Rightarrow> (Inl (Panicked (Panic s)), w')
   | (Inl err, w') \<Rightarrow> FatalError err msg kvs w'
   | (Inr x, w') \<Rightarrow> k x w')"

definition orDie :: "('w, 'a) io \<Rightarrow> ('a \<Rightarrow> ('w, 'b) process) \<Rightarrow> ('w, 'b) process" where
  "orDie m k = (\<lambda>w. case m w of (Inl err, w') \<Rightarrow> (Inl Died, w') | (Inr x, w') \<Rightarrow> k x w')"

section \<open>The controller\<close>

record 'w DeviceConfigReconciler =
  dcr_helper :: "'w deviceConfigReconcilerHelperAPI"
  dcr_filter :: "'w Filter"

definition NewDeviceConfigReconciler ::
  "library \<Rightarrow> 'w client \<Rightarrow> KMMModuleAPI \<Rightarrow> ConfigMapAPI \<Rightarrow> 'w UpgradeAPI \<Rightarrow> CustomSchedulerAPI \<Rightarrow>
   NodeMetricsAPI \<Rightarrow> 'w Filter \<Rightarrow> 'w DeviceConfigReconciler" where
  "NewDeviceConfigReconciler lib c kmm cm up cs nm flt =
     (let helper = helperAPI lib (newDeviceConfigReconcilerHelper c kmm cm up cs nm)
      in \<lparr>dcr_helper = helper, dcr_filter = flt\<rparr>)"

definition DeviceConfigReconcilerName :: string where
  "DeviceConfigReconcilerName = ''DriverAndPluginReconciler''"

text \<open>What a controller is registered with: the builder's \<open>For\<close>, \<open>Owns\<close>, \<open>Watches\<close> and \<open>Named\<close>.\<close>

datatype kind = KDeviceConfig | KModule | KDaemonSet | KDeployment | KNode

record 'w watch =
  wt_Kind :: kind
  wt_Map :: "Node \<Rightarrow> ('w, nsname list) io"
  wt_Predicate :: "nodeEvent \<Rightarrow> bool"

record 'w controllerSpec =
  ctl_For :: kind
  ctl_Owns :: "kind list"
  ctl_Watches :: "'w watch list"
  ctl_Name :: string
  ctl_Client :: "'w client"
  ctl_Reconcile :: "DeviceConfig \<Rightarrow> ('w, Result) io"

text \<open>
  The manager and what it is made from: \<open>'m\<close> managers, \<open>'k\<close> REST configurations, \<open>'s\<close>
  schemes, \<open>'d\<close> discovery clients, \<open>'x\<close> REST mappers; \<open>complete\<close> is the builder's
  \<open>Complete\<close>, \<open>predicateOr\<close> and \<open>labelChanged\<close> are controller-runtime's predicates.
\<close>

record ('w, 'm, 'k, 's, 'd, 'x) runtime =
  getConfigOrDie :: "('w, 'k) io"
  newManager :: "'k \<Rightarrow> 's Options \<Rightarrow> ('w, 'm) io"
  mgrConfig :: "'m \<Rightarrow> 'k"
  mgrClient :: "'m \<Rightarrow> 'w client"
  mgrRESTMapper :: "'m \<Rightarrow> 'x"
  newDiscovery :: "'k \<Rightarrow> ('w, 'd) io"
  serverResources :: "'d \<Rightarrow> string \<Rightarrow> ('w, unit) io"
  complete :: "'m \<Rightarrow> 'w controllerSpec \<Rightarrow> ('w, unit) io"
  newClient :: "'k \<Rightarrow> 's \<Rightarrow> 'x \<Rightarrow> ('w, 'w client) io"
  addHealthzCheck :: "'m \<Rightarrow> string \<Rightarrow> ('w, unit) io"
  addReadyzCheck :: "'m \<Rightarrow> string \<Rightarrow> ('w, unit) io"
  startManager :: "'m \<Rightarrow> ('w, unit) io"
  predicateOr :: "(nodeEvent \<Rightarrow> bool) list \<Rightarrow> nodeEvent \<Rightarrow> bool"
  labelChanged :: "nodeEvent \<Rightarrow> bool"

definition SetupWithManager ::
  "('w, 'm, 'k, 's, 'd, 'x) runtime \<Rightarrow> ('r, 'l) labelsLib \<Rightarrow> order \<Rightarrow> 'w DeviceConfigReconciler \<Rightarrow>
   'm \<Rightarrow> ('w, unit) io" where
  "SetupWithManager rt ll ord r mgr = complete rt mgr \<lparr>
     ctl_For = KDeviceConfig,
     ctl_Owns = [KModule, KDaemonSet, KDeployment],
     ctl_Watches = [\<lparr>wt_Kind = KNode,
       wt_Map = FindDeviceConfigForNodeChange ll ord (dcr_filter r),
       wt_Predicate = GetNodePredicate (predicateOr rt) (labelChanged rt)\<rparr>],
     ctl_Name = DeviceConfigReconcilerName,
     ctl_Client = mgrClient rt mgr,
     ctl_Reconcile = Reconcile (dcr_helper r)\<rparr>"

section \<open>main\<close>

text \<open>The three AddToScheme calls of \<open>init\<close>, each under \<open>utilruntime.Must\<close>.\<close>

fun initScheme :: "('s \<Rightarrow> goerr + 's) list \<Rightarrow> 's \<Rightarrow> ending + 's" where
  "initScheme [] scheme = Inr scheme"
| "initScheme (addToScheme # rest) scheme =
     (case addToScheme scheme of Inl err \<Rightarrow> Inl (Panicked err) | Inr scheme' \<Rightarrow> initScheme rest scheme')"

text \<open>Whether the cluster serves the DRA API: any error of the discovery means it does not.\<close>

definition probeDRA :: "('w, unit) io \<Rightarrow> (bool \<Rightarrow> ('w, 'b) process) \<Rightarrow> ('w, 'b) process" where
  "probeDRA m k = (\<lambda>w. case m w of (Inl err, w') \<Rightarrow> k False w' | (Inr u, w') \<Rightarrow> k True w')"

text \<open>
  After the scheme is set up. \<open>configFile\<close> is the value of the \<open>config\<close> flag, \<open>dockerfile\<close> the
  embedded file of package configmap.
\<close>

definition main ::
  "('w, 'fd, Config) files \<Rightarrow> ('w, 'm, 'k, 's, 'd, 'x) runtime \<Rightarrow> ('r, 'l) labelsLib \<Rightarrow> order \<Rightarrow>
   library \<Rightarrow> (string \<Rightarrow> string) \<Rightarrow> string \<Rightarrow> 's \<Rightarrow> string \<Rightarrow> ('w, unit) process" where
  "main os rt ll ord lib getenv dockerfile scheme configFile =
     orFatal (ParseFile os configFile) ''could not parse the configuration file'' [''path'', configFile] (\<lambda>cfg.
     let options = (ManagerOptions cfg)\<lparr>Scheme := Some scheme\<rparr>
     in orDie (getConfigOrDie rt) (\<lambda>kubeconfig.
     orFatal (newManager rt kubeconfig options) ''unable to create manager'' [] (\<lambda>mgr.
     orFatal (newDiscovery rt (mgrConfig rt mgr)) ''failed to create discovery client'' [] (\<lambda>dc.
     probeDRA (serverResources rt dc ''resource.k8s.io/v1'') (\<lambda>draSupport.
     let client = mgrClient rt mgr;
         kmmHandler = NewKMMModule lib;
         cmHandler = NewConfigMap dockerfile lib;
         upgradeHandler = NewUpgradeAPI lib client;
         csHandler = NewCustomScheduler draSupport;
         nmHandler = NewNodeMetrcis lib;
         flt = New client;
         dcr = NewDeviceConfigReconciler lib client kmmHandler cmHandler upgradeHandler csHandler nmHandler flt
     in orFatal (SetupWithManager rt ll ord dcr mgr) ''unable to create controller''
          [''name'', DeviceConfigReconcilerName] (\<lambda>_.
     orFatal (newClient rt (mgrConfig rt mgr) scheme (mgrRESTMapper rt mgr)) ''unable to create bootstrapClient'' []
       (\<lambda>bootstrapClient.
     orFatal (CreateKubeletKubeRootCAConfigMap getenv bootstrapClient) ''failed to ensure unified configmap'' [] (\<lambda>_.
     orFatal (addHealthzCheck rt mgr ''healthz'') ''unable to set up health check'' [] (\<lambda>_.
     orFatal (addReadyzCheck rt mgr ''readyz'') ''unable to set up ready check'' [] (\<lambda>_.
     orFatal (startManager rt mgr) ''problem running manager'' [] (\<lambda>_ w. (Inr (), w))))))))))))"

section \<open>What a step that was reached says of the ones before\<close>

text \<open>The ending of a process whose manager was started: none, or the error of the manager.\<close>

definition ranManager :: "ending + unit \<Rightarrow> bool" where
  "ranManager r \<longleftrightarrow> r = Inr () \<or> (\<exists>err kvs. r = Inl (Fatal err ''problem running manager'' kvs))"

lemma ranManager_Fatal [simp]: "ranManager (Inl (Fatal err msg kvs)) \<longleftrightarrow> msg = ''problem running manager''"
  "\<not> ranManager (Inl Died)" "\<not> ranManager (Inl (Panicked e))"
  by (simp_all add: ranManager_def)

lemma orFatal_past:
  "ranManager r \<Longrightarrow> msg \<noteq> ''problem running manager'' \<Longrightarrow>
     orFatal m msg kvs k w = (r, w') \<longleftrightarrow> (\<exists>x v. m w = (Inr x, v) \<and> k x v = (r, w'))"
  by (auto simp: orFatal_def FatalError_def split: prod.splits sum.splits goerr.splits)

lemma orDie_past:
  "ranManager r \<Longrightarrow> orDie m k w = (r, w') \<longleftrightarrow> (\<exists>x v. m w = (Inr x, v) \<and> k x v = (r, w'))"
  by (auto simp: orDie_def split: prod.splits sum.splits)

lemma probeDRA_past:
  "probeDRA m k w = (r, w') \<longleftrightarrow> (\<exists>b v. b = (\<not> isl (fst (m w))) \<and> v = snd (m w) \<and> k b v = (r, w'))"
  by (auto simp: probeDRA_def split: prod.splits sum.splits)

lemma orFatal_last:
  "orFatal m msg kvs (\<lambda>_ w. (Inr (), w)) w = (r, w') \<Longrightarrow> snd (m w) = w'"
  by (auto simp: orFatal_def FatalError_def split: prod.splits sum.splits goerr.splits)

text \<open>The steps of a process that got as far as starting its manager.\<close>

lemma main_past:
  assumes "main os rt ll ord lib getenv dockerfile scheme configFile w = (r, w')" and "ranManager r"
  obtains cfg w1 kc w2 mgr w3 dc w4 dra w5 w6 bc w7 w8 w9 w10 where
    "ParseFile os configFile w = (Inr cfg, w1)" "getConfigOrDie rt w1 = (Inr kc, w2)"
    "newManager rt kc ((ManagerOptions cfg)\<lparr>Scheme := Some scheme\<rparr>) w2 = (Inr mgr, w3)"
    "newDiscovery rt (mgrConfig rt mgr) w3 = (Inr dc, w4)"
    "dra \<longleftrightarrow> \<not> isl (fst (serverResources rt dc ''resource.k8s.io/v1'' w4))"
    "SetupWithManager rt ll ord (NewDeviceConfigReconciler lib (mgrClient rt mgr) (NewKMMModule lib)
       (NewConfigMap dockerfile lib) (NewUpgradeAPI lib (mgrClient rt mgr)) (NewCustomScheduler dra)
       (NewNodeMetrcis lib) (New (mgrClient rt mgr))) mgr w5 = (Inr (), w6)"
    "newClient rt (mgrConfig rt mgr) scheme (mgrRESTMapper rt mgr) w6 = (Inr bc, w7)"
    "CreateKubeletKubeRootCAConfigMap getenv bc w7 = (Inr (), w8)"
    "addHealthzCheck rt mgr ''healthz'' w8 = (Inr (), w9)" "addReadyzCheck rt mgr ''readyz'' w9 = (Inr (), w10)"
    "snd (startManager rt mgr w10) = w'"
  using assms(1) unfolding main_def Let_def
  by (simp only: orFatal_past [OF assms(2)] orDie_past [OF assms(2)] probeDRA_past list.inject char.inject
      not_False_eq_True simp_thms) (elim exE conjE, rule that; (assumption | (rule orFatal_last, assumption) | simp))

section \<open>An example platform\<close>

definition exFiles :: "(mem, unit, Config) files" where
  "exFiles = \<lparr>openFile = (\<lambda>path. ret ()), decodeYAML = (\<lambda>fd cfg. ret (cfg\<lparr>cfg_LeaderElection :=
     \<lparr>le_Enabled = True, le_ResourceID = ''awslabs''\<rparr>\<rparr>)), closeFile = (\<lambda>fd. ret ())\<rparr>"

text \<open>A manager without a state, on the server in memory; the cluster does not serve the DRA API.\<close>

definition exRuntime :: "(mem, unit, unit, unit, unit, unit) runtime" where
  "exRuntime = \<lparr>getConfigOrDie = ret (), newManager = (\<lambda>kc opts. ret ()), mgrConfig = (\<lambda>m. ()),
     mgrClient = (\<lambda>m. memClient), mgrRESTMapper = (\<lambda>m. ()), newDiscovery = (\<lambda>kc. ret ()),
     serverResources = (\<lambda>dc gv. fail notFoundErr), complete = (\<lambda>m spec. ret ()),
     newClient = (\<lambda>kc s x. ret memClient), addHealthzCheck = (\<lambda>m nm. ret ()), addReadyzCheck = (\<lambda>m nm. ret ()),
     startManager = (\<lambda>m. ret ()), predicateOr = exPredicateOr, labelChanged = exChanged\<rparr>"

lemma ex_main:
  "\<exists>w'. main exFiles exRuntime exLabels sortedOrder memLib exEnv ''FROM'' () ''config.yaml'' exCAs = (Inr (), w')"
proof -
  obtain w' where "CreateKubeletKubeRootCAConfigMap exEnv memClient exCAs = (Inr (), w')" using ex_unified by blast
  then show ?thesis
    by (simp add: main_def orFatal_def orDie_def probeDRA_def ParseFile_def deferE_def bindE_def wrapE_def tryE_def
        exFiles_def exRuntime_def SetupWithManager_def notFoundErr_def)
qed

section \<open>Properties\<close>

text \<open>
  C20: the CA bundle comes before the reconciliation. When the process gets as far as starting
  its manager, the config map that the device plugins mount holds the root CA followed by
  the kubelet CA of the cluster at that moment.
\<close>

theorem manager_starts_after_ca:
  assumes "main os rt ll ord lib getenv dockerfile scheme configFile w = (r, w')" and "ranManager r"
    and "\<And>kc s x v c v'. newClient rt kc s x v = (Inr c, v') \<Longrightarrow> lawfulClient lib c cl"
    and "\<And>m nm v. cl (snd (addHealthzCheck rt m nm v)) = cl v" and "\<And>m nm v. cl (snd (addReadyzCheck rt m nm v)) = cl v"
  shows "\<exists>mgr v root kubelet. snd (startManager rt mgr v) = w' \<and>
    configMapHas (cl v) (getenv ''OPERATOR_NAMESPACE'') ''kube-root-ca.crt'' ''ca.crt'' root \<and>
    configMapHas (cl v) ''openshift-config-managed'' ''kubelet-serving-ca'' ''ca-bundle.crt'' kubelet \<and>
    configMapHas (cl v) (getenv ''OPERATOR_NAMESPACE'') ''kube-root-kubelet-ca'' ''ca-bundle.crt''
      (root @ [CHR 0x0A] @ kubelet)"
proof (rule main_past [OF assms(1,2)], goal_cases)
  case (1 cfg w1 kc w2 mgr w3 dc w4 dra w5 w6 bc w7 w8 w9 w10)
  have "cl w10 = cl w8" using assms(4) [of mgr "''healthz''" w8] assms(5) [of mgr "''readyz''" w9] 1(9,10) by simp
  moreover have "\<exists>root kubelet.
    configMapHas (cl w8) (getenv ''OPERATOR_NAMESPACE'') ''kube-root-ca.crt'' ''ca.crt'' root \<and>
    configMapHas (cl w8) ''openshift-config-managed'' ''kubelet-serving-ca'' ''ca-bundle.crt'' kubelet \<and>
    configMapHas (cl w8) (getenv ''OPERATOR_NAMESPACE'') ''kube-root-kubelet-ca'' ''ca-bundle.crt''
      (root @ [CHR 0x0A] @ kubelet)"
    by (rule CreateKubelet_run [OF assms(3) [OF 1(7)] 1(8) disjI2 [OF refl]])
       (auto simp: configMapHas_def kubeRootCAConfigMap_def kubeRootCAKey_def kubeletCANamespace_def
         kubeletCAConfigMap_def kubeletCAKey_def kubeletKubeRootCAConfigMapName_def kubeletKubeRootCAKey_def)
  ultimately show ?case using 1(11) by metis
qed

lemma manager_starts_after_ca_witness:
  "\<exists>v root kubelet w'. main exFiles exRuntime exLabels sortedOrder memLib exEnv ''FROM'' () ''config.yaml'' exCAs =
       (Inr (), w') \<and> snd (startManager exRuntime () v) = w' \<and>
     configMapHas (memCluster v) ''op'' ''kube-root-kubelet-ca'' ''ca-bundle.crt'' (root @ [CHR 0x0A] @ kubelet)"
proof -
  obtain w' where run: "main exFiles exRuntime exLabels sortedOrder memLib exEnv ''FROM'' () ''config.yaml'' exCAs =
    (Inr (), w')" using ex_main by blast
  have ns: "exEnv ''OPERATOR_NAMESPACE'' = ''op''" by (simp add: exEnv_def)
  have "ranManager (Inr ())" by (simp add: ranManager_def)
  from manager_starts_after_ca [OF run this, where cl = memCluster] ns run show ?thesis
    by (simp add: exRuntime_def lawfulClient_mem) blast
qed

text \<open>
  C40: the wiring. The manager is made with the options of the configuration file and the
  process's scheme; the controller registered with it reconciles DeviceConfigs with the
  reconciler over the manager's client, whose scheduler knows whether the cluster serves the
  DRA API, watches the Modules, DaemonSets and Deployments it owns, and is woken by nodes
  through the filter.
\<close>

theorem main_wiring:
  assumes "main os rt ll ord lib getenv dockerfile scheme configFile w = (r, w')" and "ranManager r"
  shows "\<exists>cfg w1 kc w2 mgr w3 dc w4 w5 w6 opts spec. ParseFile os configFile w = (Inr cfg, w1) \<and>
    newManager rt kc opts w2 = (Inr mgr, w3) \<and> newDiscovery rt (mgrConfig rt mgr) w3 = (Inr dc, w4) \<and>
    complete rt mgr spec w5 = (Inr (), w6) \<and>
    LeaderElection opts = le_Enabled (cfg_LeaderElection cfg) \<and>
    LeaderElectionID opts = le_ResourceID (cfg_LeaderElection cfg) \<and>
    HealthProbeBindAddress opts = cfg_HealthProbeBindAddress cfg \<and>
    BindAddress (Metrics opts) = cfg_MetricsBindAddress cfg \<and> Scheme opts = Some scheme \<and>
    ctl_For spec = KDeviceConfig \<and> set (ctl_Owns spec) = {KModule, KDaemonSet, KDeployment} \<and>
    ctl_Reconcile spec = Reconcile (operatorReconciler lib (mgrClient rt mgr) dockerfile
      (\<not> isl (fst (serverResources rt dc ''resource.k8s.io/v1'' w4)))) \<and>
    ctl_Watches spec = [\<lparr>wt_Kind = KNode,
      wt_Map = FindDeviceConfigForNodeChange ll ord (New (mgrClient rt mgr)),
      wt_Predicate = GetNodePredicate (predicateOr rt) (labelChanged rt)\<rparr>]"
proof (rule main_past [OF assms], goal_cases)
  case (1 cfg w1 kc w2 mgr w3 dc w4 dra w5 w6 bc w7 w8 w9 w10)
  let ?spec = "\<lparr>ctl_For = KDeviceConfig, ctl_Owns = [KModule, KDaemonSet, KDeployment],
    ctl_Watches = [\<lparr>wt_Kind = KNode, wt_Map = FindDeviceConfigForNodeChange ll ord (New (mgrClient rt mgr)),
      wt_Predicate = GetNodePredicate (predicateOr rt) (labelChanged rt)\<rparr>],
    ctl_Name = DeviceConfigReconcilerName, ctl_Client = mgrClient rt mgr,
    ctl_Reconcile = Reconcile (operatorReconciler lib (mgrClient rt mgr) dockerfile dra)\<rparr>"
  have "complete rt mgr ?spec w5 = (Inr (), w6)"
    using 1(6) by (simp add: SetupWithManager_def NewDeviceConfigReconciler_def operatorReconciler_def
        operatorHelper_def Let_def)
  with 1(1,3-5) show ?case
    by (intro exI [of _ cfg] exI [of _ w1] exI [of _ kc] exI [of _ w2] exI [of _ mgr] exI [of _ w3] exI [of _ dc]
        exI [of _ w4] exI [of _ w5] exI [of _ w6] exI [of _ "(ManagerOptions cfg)\<lparr>Scheme := Some scheme\<rparr>"]
        exI [of _ ?spec]) (simp add: ManagerOptions_def)
qed

lemma main_wiring_witness:
  "\<exists>cfg w1. ParseFile exFiles ''config.yaml'' exCAs = (Inr cfg, w1) \<and>
     (\<exists>spec :: mem controllerSpec. ctl_Reconcile spec = Reconcile (operatorReconciler memLib memClient ''FROM'' False))"
proof -
  obtain w' where run: "main exFiles exRuntime exLabels sortedOrder memLib exEnv ''FROM'' () ''config.yaml'' exCAs =
    (Inr (), w')" using ex_main by blast
  have "ranManager (Inr ())" by (simp add: ranManager_def)
  from main_wiring [OF run this] show ?thesis by (auto simp: exRuntime_def)
qed

text \<open>
  No namespace, no operator. Without OPERATOR_NAMESPACE the process ends with an error
  before the manager is started, whatever the platform does.
\<close>

theorem main_needs_namespace:
  assumes "getenv ''OPERATOR_NAMESPACE'' = []"
    and "main os rt ll ord lib getenv dockerfile scheme configFile w = (r, w')"
  shows "isl r \<and> \<not> ranManager r"
proof -
  have "\<not> ranManager r"
  proof
    assume "ranManager r"
    then show False
      by (rule main_past [OF assms(2)]) (use assms(1) in \<open>simp add: CreateKubeletKubeRootCAConfigMap_def\<close>)
  qed
  then show ?thesis by (cases r) (auto simp: ranManager_def)
qed

lemma main_needs_namespace_witness:
  "isl (fst (main exFiles exRuntime exLabels sortedOrder memLib (\<lambda>_. []) ''FROM'' () ''config.yaml'' exCAs))"
  by (rule main_needs_namespace [where getenv = "\<lambda>_. []", OF refl prod.collapse [symmetric], THEN conjunct1])

text \<open>
  No descriptor is leaked. Reading the configuration file closes what it opened, on every
  path, errors included: n counts the open files, opening adds one when it succeeds, closing
  takes one away.
\<close>

theorem ParseFile_closes:
  assumes "\<And>path v fd v'. openFile os path v = (Inr fd, v') \<Longrightarrow> n v' = n v + (1::nat)"
    and "\<And>path v e v'. openFile os path v = (Inl e, v') \<Longrightarrow> n v' = n v"
    and "\<And>fd cfg v. n (snd (decodeYAML os fd cfg v)) = n v"
    and "\<And>fd v. n (snd (closeFile os fd v)) = n v - 1"
    and "ParseFile os path w = (r, w')"
  shows "n w' = n w"
proof (cases "openFile os path w")
  case (Pair r1 w1)
  show ?thesis
  proof (cases r1)
    case (Inl e)
    with Pair assms(2,5) show ?thesis by (auto simp: ParseFile_def bindE_def wrapE_def tryE_def)
  next
    case (Inr fd)
    obtain r2 w2 where d: "decodeYAML os fd zeroConfig w1 = (r2, w2)" by fastforce
    have "w' = snd (closeFile os fd w2)"
      using assms(5) Pair Inr d by (auto simp: ParseFile_def bindE_def wrapE_def tryE_def deferE_def split: sum.splits)
    with assms(1) [of path w fd w1] assms(3) [of fd zeroConfig w1] assms(4) [of fd w2] Pair Inr d
    show ?thesis by simp
  qed
qed

text \<open>A file that opens and does not decode: one descriptor is taken and given back.\<close>

lemma ParseFile_closes_witness:
  "snd (ParseFile \<lparr>openFile = (\<lambda>path n. (Inr (), n + (1::nat))), decodeYAML = (\<lambda>fd cfg. fail invalidErr),
     closeFile = (\<lambda>fd n. (Inr (), n - 1))\<rparr> ''config.yaml'' 0) = 0"
  by (rule ParseFile_closes [where n = "\<lambda>n. n" and w = 0, OF _ _ _ _ prod.collapse [symmetric]]) auto

end
