(* ===== verification/DeepCopy.thy ===== *)
theory DeepCopy
  imports Api_V1beta1 "HOL-Library.Finite_Map" "HOL-Library.Char_ord" "HOL-Library.List_Lexorder"
begin

text \<open>
  api/v1beta1/zz_generated.deepcopy.go: the deep copies of the API types, on an explicit
  store, since what they are for is aliasing. A struct holds addresses where the Go struct
  holds slices, pointers and maps; \<open>*out = *in\<close> copies the addresses, and the generated code
  then replaces each by a fresh one. The structs of other packages (DeviceSelector,
  DeviceClassConfiguration, ObjectMeta, ListMeta) and their DeepCopyInto are parameters.
  Everywhere else the development works with values; the theorems here are the reason it may.
\<close>

section \<open>The store\<close>

type_synonym addr = nat

record hClass =
  hc_Name :: string
  hc_Selectors :: "addr option"
  hc_Config :: "addr option"

record hSpec =
  hs_UseInTreeDrivers :: bool
  hs_DriversImage :: string
  hs_DriverVersion :: string
  hs_DevicePluginImage :: string
  hs_CustomSchedulerImage :: string
  hs_SchedulerExtensionImage :: string
  hs_DRADriverImage :: string
  hs_DeviceClasses :: "addr option"
  hs_NodeMetricsImage :: string
  hs_ImageRepoSecret :: "addr option"
  hs_Selector :: "addr option"

text \<open>\<open>'x\<close> is the type of the structs of other packages.\<close>

record TypeMeta =
  tm_Kind :: string
  tm_APIVersion :: string

record 'x hDeviceConfig =
  hd_Type :: TypeMeta
  hd_Meta :: 'x
  hd_Spec :: hSpec
  hd_Status :: DeviceConfigStatus

record 'x hDeviceConfigList =
  hl_Type :: TypeMeta
  hl_Meta :: 'x
  hl_Items :: "addr option"

text \<open>What one address holds: the array of a slice, a map, or a struct behind a pointer.\<close>

datatype 'x cell =
    Structs "'x list"
  | Classes "hClass list"
  | Items "'x hDeviceConfig list"
  | Reference string
  | StringMap "(string, string) fmap"
  | Foreign 'x
  | AClass hClass
  | ASpec hSpec
  | ADeploymentStatus DeploymentStatus
  | AStatus DeviceConfigStatus
  | AConfig "'x hDeviceConfig"
  | AList "'x hDeviceConfigList"

record 'x store =
  limit :: addr
  cells :: "addr \<Rightarrow> 'x cell option"

definition alloc :: "'x cell \<Rightarrow> 'x store \<Rightarrow> addr \<times> 'x store" where
  "alloc v s = (limit s, s\<lparr>limit := Suc (limit s), cells := (cells s)(limit s \<mapsto> v)\<rparr>)"

definition setCell :: "addr \<Rightarrow> 'x cell \<Rightarrow> 'x store \<Rightarrow> 'x store" where
  "setCell a v s = s\<lparr>cells := (cells s)(a \<mapsto> v)\<rparr>"

lemma setCell_simps [simp]:
  "limit (setCell a v s) = limit s" "cells (setCell a v s) = (cells s)(a \<mapsto> v)"
  by (simp_all add: setCell_def)

text \<open>A copier takes a value in a store to its copy in a larger store.\<close>

type_synonym ('x, 'a) copier = "'a \<Rightarrow> 'x store \<Rightarrow> 'a \<times> 'x store"

record 'x foreign =
  copySelector :: "('x, 'x) copier"
  copyConfiguration :: "('x, 'x) copier"
  copyObjectMeta :: "('x, 'x) copier"
  copyListMeta :: "('x, 'x) copier"
  zeroStruct :: 'x

section \<open>The generated code\<close>

text \<open>
  \<open>*out = make([]T, len(*in)); for i := range *in { (*in)[i].DeepCopyInto(&(*out)[i]) }\<close>,
  with the constructor \<open>put\<close> of the cell for slices of that element type and its reader.
\<close>

fun copyLoop ::
  "('x, 'e) copier \<Rightarrow> ('e list \<Rightarrow> 'x cell) \<Rightarrow> ('x cell option \<Rightarrow> 'e list) \<Rightarrow> addr \<Rightarrow> addr \<Rightarrow> nat \<Rightarrow> nat \<Rightarrow>
   'x store \<Rightarrow> 'x store" where
  "copyLoop copy put get inp out i 0 s = s"
| "copyLoop copy put get inp out i (Suc n) s =
     (let (y, s) = copy (get (cells s inp) ! i) s;
          s = setCell out (put ((get (cells s out))[i := y])) s
      in copyLoop copy put get inp out (Suc i) n s)"

definition copySlice ::
  "'e \<Rightarrow> ('x, 'e) copier \<Rightarrow> ('e list \<Rightarrow> 'x cell) \<Rightarrow> ('x cell option \<Rightarrow> 'e list) \<Rightarrow> ('x, addr) copier" where
  "copySlice zero copy put get inp s =
     (let n = length (get (cells s inp)); (out, s) = alloc (put (replicate n zero)) s
      in (out, copyLoop copy put get inp out 0 n s))"

fun structsOf :: "'x cell option \<Rightarrow> 'x list" where
  "structsOf (Some (Structs xs)) = xs"
| "structsOf _ = []"

fun classesOf :: "'x cell option \<Rightarrow> hClass list" where
  "classesOf (Some (Classes xs)) = xs"
| "classesOf _ = []"

fun itemsOf :: "'x cell option \<Rightarrow> 'x hDeviceConfig list" where
  "itemsOf (Some (Items xs)) = xs"
| "itemsOf _ = []"

fun referenceOf :: "'x cell option \<Rightarrow> string" where
  "referenceOf (Some (Reference r)) = r"
| "referenceOf _ = []"

fun stringMapOf :: "'x cell option \<Rightarrow> (string, string) fmap" where
  "stringMapOf (Some (StringMap m)) = m"
| "stringMapOf _ = fmempty"

definition zeroHClass :: hClass where
  "zeroHClass = \<lparr>hc_Name = [], hc_Selectors = None, hc_Config = None\<rparr>"

definition zeroHSpec :: hSpec where
  "zeroHSpec = \<lparr>hs_UseInTreeDrivers = False, hs_DriversImage = [], hs_DriverVersion = [], hs_DevicePluginImage = [],
     hs_CustomSchedulerImage = [], hs_SchedulerExtensionImage = [], hs_DRADriverImage = [], hs_DeviceClasses = None,
     hs_NodeMetricsImage = [], hs_ImageRepoSecret = None, hs_Selector = None\<rparr>"

definition zeroHStatus :: DeviceConfigStatus where
  "zeroHStatus = \<lparr>st_DevicePlugin = zeroStatus, st_Drivers = zeroStatus\<rparr>"

definition zeroHDeviceConfig :: "'x foreign \<Rightarrow> 'x hDeviceConfig" where
  "zeroHDeviceConfig F = \<lparr>hd_Type = \<lparr>tm_Kind = [], tm_APIVersion = []\<rparr>, hd_Meta = zeroStruct F,
     hd_Spec = zeroHSpec, hd_Status = zeroHStatus\<rparr>"

definition zeroHDeviceConfigList :: "'x foreign \<Rightarrow> 'x hDeviceConfigList" where
  "zeroHDeviceConfigList F = \<lparr>hl_Type = \<lparr>tm_Kind = [], tm_APIVersion = []\<rparr>, hl_Meta = zeroStruct F, hl_Items = None\<rparr>"

definition DeploymentStatus_DeepCopyInto :: "('x, DeploymentStatus) copier" where
  "DeploymentStatus_DeepCopyInto inp s = (let out = inp in (out, s))"

definition DeviceClassSpec_DeepCopyInto :: "'x foreign \<Rightarrow> ('x, hClass) copier" where
  "DeviceClassSpec_DeepCopyInto F inp s =
     (let out = inp;
          (out, s) = (case hc_Selectors inp of None \<Rightarrow> (out, s) | Some p \<Rightarrow>
            let (q, s) = copySlice (zeroStruct F) (copySelector F) Structs structsOf p s
            in (out\<lparr>hc_Selectors := Some q\<rparr>, s));
          (out, s) = (case hc_Config inp of None \<Rightarrow> (out, s) | Some p \<Rightarrow>
            let (q, s) = copySlice (zeroStruct F) (copyConfiguration F) Structs structsOf p s
            in (out\<lparr>hc_Config := Some q\<rparr>, s))
      in (out, s))"

text \<open>
  \<open>*out = new(corev1.LocalObjectReference); **out = **in\<close>, and \<open>*out = make(map...)\<close> with the
  loop that sets every key; \<open>range\<close> enumerates the map in some order.
\<close>

definition copyReference :: "('x, addr) copier" where
  "copyReference inp s = (let (out, s) = alloc (Reference []) s in (out, setCell out (Reference (referenceOf (cells s inp))) s))"

fun mapLoop :: "(string \<times> string) list \<Rightarrow> addr \<Rightarrow> 'x store \<Rightarrow> 'x store" where
  "mapLoop [] out s = s"
| "mapLoop ((key, val) # kvs) out s =
     mapLoop kvs out (setCell out (StringMap (fmupd key val (stringMapOf (cells s out)))) s)"

type_synonym mapRange = "(string, string) fmap \<Rightarrow> (string \<times> string) list"

definition copyStringMap :: "mapRange \<Rightarrow> ('x, addr) copier" where
  "copyStringMap rng inp s =
     (let (out, s) = alloc (StringMap fmempty) s in (out, mapLoop (rng (stringMapOf (cells s inp))) out s))"

definition DeviceConfigSpec_DeepCopyInto :: "'x foreign \<Rightarrow> mapRange \<Rightarrow> ('x, hSpec) copier" where
  "DeviceConfigSpec_DeepCopyInto F rng inp s =
     (let out = inp;
          (out, s) = (case hs_DeviceClasses inp of None \<Rightarrow> (out, s) | Some p \<Rightarrow>
            let (q, s) = copySlice zeroHClass (DeviceClassSpec_DeepCopyInto F) Classes classesOf p s
            in (out\<lparr>hs_DeviceClasses := Some q\<rparr>, s));
          (out, s) = (case hs_ImageRepoSecret inp of None \<Rightarrow> (out, s) | Some p \<Rightarrow>
            let (q, s) = copyReference p s in (out\<lparr>hs_ImageRepoSecret := Some q\<rparr>, s));
          (out, s) = (case hs_Selector inp of None \<Rightarrow> (out, s) | Some p \<Rightarrow>
            let (q, s) = copyStringMap rng p s in (out\<lparr>hs_Selector := Some q\<rparr>, s))
      in (out, s))"

definition DeviceConfigStatus_DeepCopyInto :: "('x, DeviceConfigStatus) copier" where
  "DeviceConfigStatus_DeepCopyInto inp s =
     (let out = inp; out = out\<lparr>st_DevicePlugin := st_DevicePlugin inp\<rparr>; out = out\<lparr>st_Drivers := st_Drivers inp\<rparr>
      in (out, s))"

definition DeviceConfig_DeepCopyInto :: "'x foreign \<Rightarrow> mapRange \<Rightarrow> ('x, 'x hDeviceConfig) copier" where
  "DeviceConfig_DeepCopyInto F rng inp s =
     (let out = inp;
          out = out\<lparr>hd_Type := hd_Type inp\<rparr>;
          (m, s) = copyObjectMeta F (hd_Meta inp) s;
          out = out\<lparr>hd_Meta := m\<rparr>;
          (sp, s) = DeviceConfigSpec_DeepCopyInto F rng (hd_Spec inp) s;
          out = out\<lparr>hd_Spec := sp\<rparr>;
          out = out\<lparr>hd_Status := hd_Status inp\<rparr>
      in (out, s))"

definition DeviceConfigList_DeepCopyInto :: "'x foreign \<Rightarrow> mapRange \<Rightarrow> ('x, 'x hDeviceConfigList) copier" where
  "DeviceConfigList_DeepCopyInto F rng inp s =
     (let out = inp;
          out = out\<lparr>hl_Type := hl_Type inp\<rparr>;
          (m, s) = copyListMeta F (hl_Meta inp) s;
          out = out\<lparr>hl_Meta := m\<rparr>;
          (out, s) = (case hl_Items inp of None \<Rightarrow> (out, s) | Some p \<Rightarrow>
            let (q, s) = copySlice (zeroHDeviceConfig F) (DeviceConfig_DeepCopyInto F rng) Items itemsOf p s
            in (out\<lparr>hl_Items := Some q\<rparr>, s))
      in (out, s))"

text \<open>\<open>if in == nil { return nil }; out := new(T); in.DeepCopyInto(out); return out\<close>.\<close>

definition copyPointer ::
  "'e \<Rightarrow> ('x, 'e) copier \<Rightarrow> ('e \<Rightarrow> 'x cell) \<Rightarrow> ('x cell option \<Rightarrow> 'e) \<Rightarrow> ('x, addr option) copier" where
  "copyPointer zero into put get inp s =
     (case inp of None \<Rightarrow> (None, s) | Some p \<Rightarrow>
        let (out, s) = alloc (put zero) s; (v, s) = into (get (cells s p)) s in (Some out, setCell out (put v) s))"

fun classOf :: "'x cell option \<Rightarrow> hClass" where
  "classOf (Some (AClass x)) = x" | "classOf _ = zeroHClass"

fun specOf :: "'x cell option \<Rightarrow> hSpec" where
  "specOf (Some (ASpec x)) = x" | "specOf _ = zeroHSpec"

fun deploymentStatusOf :: "'x cell option \<Rightarrow> DeploymentStatus" where
  "deploymentStatusOf (Some (ADeploymentStatus x)) = x" | "deploymentStatusOf _ = zeroStatus"

fun statusOf :: "'x cell option \<Rightarrow> DeviceConfigStatus" where
  "statusOf (Some (AStatus x)) = x" | "statusOf _ = zeroHStatus"

fun configOf :: "'x foreign \<Rightarrow> 'x cell option \<Rightarrow> 'x hDeviceConfig" where
  "configOf F (Some (AConfig x)) = x" | "configOf F _ = zeroHDeviceConfig F"

fun listOf :: "'x foreign \<Rightarrow> 'x cell option \<Rightarrow> 'x hDeviceConfigList" where
  "listOf F (Some (AList x)) = x" | "listOf F _ = zeroHDeviceConfigList F"

definition DeploymentStatus_DeepCopy :: "('x, addr option) copier" where
  "DeploymentStatus_DeepCopy = copyPointer zeroStatus DeploymentStatus_DeepCopyInto ADeploymentStatus deploymentStatusOf"

definition DeviceClassSpec_DeepCopy :: "'x foreign \<Rightarrow> ('x, addr option) copier" where
  "DeviceClassSpec_DeepCopy F = copyPointer zeroHClass (DeviceClassSpec_DeepCopyInto F) AClass classOf"

definition DeviceConfigSpec_DeepCopy :: "'x foreign \<Rightarrow> mapRange \<Rightarrow> ('x, addr option) copier" where
  "DeviceConfigSpec_DeepCopy F rng = copyPointer zeroHSpec (DeviceConfigSpec_DeepCopyInto F rng) ASpec specOf"

definition DeviceConfigStatus_DeepCopy :: "('x, addr option) copier" where
  "DeviceConfigStatus_DeepCopy = copyPointer zeroHStatus DeviceConfigStatus_DeepCopyInto AStatus statusOf"

definition DeviceConfig_DeepCopy :: "'x foreign \<Rightarrow> mapRange \<Rightarrow> ('x, addr option) copier" where
  "DeviceConfig_DeepCopy F rng =
     copyPointer (zeroHDeviceConfig F) (DeviceConfig_DeepCopyInto F rng) AConfig (configOf F)"

definition DeviceConfigList_DeepCopy :: "'x foreign \<Rightarrow> mapRange \<Rightarrow> ('x, addr option) copier" where
  "DeviceConfigList_DeepCopy F rng =
     copyPointer (zeroHDeviceConfigList F) (DeviceConfigList_DeepCopyInto F rng) AList (listOf F)"

text \<open>The method of the interface runtime.Object: a nil pointer becomes a nil interface.\<close>

definition DeviceConfig_DeepCopyObject :: "'x foreign \<Rightarrow> mapRange \<Rightarrow> ('x, addr option) copier" where
  "DeviceConfig_DeepCopyObject F rng inp s =
     (case DeviceConfig_DeepCopy F rng inp s of (Some c, s) \<Rightarrow> (Some c, s) | (None, s) \<Rightarrow> (None, s))"

definition DeviceConfigList_DeepCopyObject :: "'x foreign \<Rightarrow> mapRange \<Rightarrow> ('x, addr option) copier" where
  "DeviceConfigList_DeepCopyObject F rng inp s =
     (case DeviceConfigList_DeepCopy F rng inp s of (Some c, s) \<Rightarrow> (Some c, s) | (None, s) \<Rightarrow> (None, s))"

section \<open>What a deep copy is\<close>

text \<open>A store grows: what was allocated stays as it was.\<close>

definition extends :: "'x store \<Rightarrow> 'x store \<Rightarrow> bool" where
  "extends s t \<longleftrightarrow> limit s \<le> limit t \<and> (\<forall>a < limit s. cells t a = cells s a)"

lemma extends_refl [simp]: "extends s s"
  by (simp add: extends_def)

lemma extends_trans: "extends s t \<Longrightarrow> extends t u \<Longrightarrow> extends s u"
  by (auto simp: extends_def)

lemma extends_alloc: "alloc v s = (a, t) \<Longrightarrow> extends s t \<and> a = limit s \<and> limit t = Suc a \<and> cells t a = Some v"
  by (auto simp: alloc_def extends_def)

lemma extends_setCell: "extends s t \<Longrightarrow> limit s \<le> a \<Longrightarrow> extends s (setCell a v t)"
  by (auto simp: extends_def)

text \<open>
  \<open>read s x\<close> is what \<open>x\<close> stands for in the store \<open>s\<close> and \<open>foot s x\<close> the addresses it reaches:
  both depend on the cells of these addresses only.
\<close>

definition reading :: "('x store \<Rightarrow> 'a \<Rightarrow> 'v) \<Rightarrow> ('x store \<Rightarrow> 'a \<Rightarrow> addr set) \<Rightarrow> bool" where
  "reading read foot \<longleftrightarrow> (\<forall>s t x. (\<forall>a \<in> foot s x. cells t a = cells s a) \<longrightarrow> read t x = read s x \<and> foot t x = foot s x)"

definition deepCopies :: "('x, 'a) copier \<Rightarrow> ('x store \<Rightarrow> 'a \<Rightarrow> 'v) \<Rightarrow> ('x store \<Rightarrow> 'a \<Rightarrow> addr set) \<Rightarrow> bool" where
  "deepCopies copy read foot \<longleftrightarrow> reading read foot \<and>
     (\<forall>x s y t. foot s x \<subseteq> {..<limit s} \<longrightarrow> copy x s = (y, t) \<longrightarrow>
        extends s t \<and> read t y = read s x \<and> foot t y \<subseteq> {limit s..<limit t})"

lemma readingI:
  "(\<And>s t x. \<forall>a \<in> foot s x. cells t a = cells s a \<Longrightarrow> read t x = read s x \<and> foot t x = foot s x) \<Longrightarrow> reading read foot"
  unfolding reading_def by blast

lemma readingD:
  "reading read foot \<Longrightarrow> \<forall>a \<in> foot s x. cells t a = cells s a \<Longrightarrow> read t x = read s x \<and> foot t x = foot s x"
  unfolding reading_def by blast

lemma reading_same:
  assumes "reading read foot" and "\<And>a. a \<in> foot s x \<Longrightarrow> cells t a = cells s a"
  shows "read t x = read s x" and "foot t x = foot s x"
  using readingD [OF assms(1)] assms(2) by blast+

lemma deepCopiesD:
  assumes "deepCopies copy read foot" and "foot s x \<subseteq> {..<limit s}" and "copy x s = (y, t)"
  shows "extends s t" and "read t y = read s x" and "foot t y \<subseteq> {limit s..<limit t}"
  using assms unfolding deepCopies_def by blast+

lemma deepCopiesI:
  assumes "reading read foot"
    and "\<And>x s y t. foot s x \<subseteq> {..<limit s} \<Longrightarrow> copy x s = (y, t) \<Longrightarrow>
      extends s t \<and> read t y = read s x \<and> foot t y \<subseteq> {limit s..<limit t}"
  shows "deepCopies copy read foot"
  using assms unfolding deepCopies_def by blast

lemma deepCopies_reading: "deepCopies copy read foot \<Longrightarrow> reading read foot"
  by (simp add: deepCopies_def)

text \<open>What is allocated reads the same in a larger store.\<close>

lemma reading_later:
  assumes "reading read foot" and "foot s x \<subseteq> {..<limit s}" and "extends s t"
  shows "read t x = read s x" and "foot t x = foot s x"
  using assms(2,3) by (auto intro!: reading_same [OF assms(1)] simp: extends_def)

section \<open>Deep copies of composite values\<close>

lemma deepCopies_pure: "deepCopies (\<lambda>x s. (x, s)) (\<lambda>_ x. g x) (\<lambda>_ _. {})"
  by (auto intro!: deepCopiesI simp: reading_def)

text \<open>A field that may be nil.\<close>

definition copyOpt :: "('x, 'a) copier \<Rightarrow> ('x, 'a option) copier" where
  "copyOpt copy p s = (case p of None \<Rightarrow> (None, s) | Some a \<Rightarrow> let (q, t) = copy a s in (Some q, t))"

definition readOpt :: "('x store \<Rightarrow> 'a \<Rightarrow> 'v) \<Rightarrow> 'x store \<Rightarrow> 'a option \<Rightarrow> 'v option" where
  "readOpt read s p = map_option (read s) p"

definition footOpt :: "('x store \<Rightarrow> 'a \<Rightarrow> addr set) \<Rightarrow> 'x store \<Rightarrow> 'a option \<Rightarrow> addr set" where
  "footOpt foot s p = (case p of None \<Rightarrow> {} | Some a \<Rightarrow> foot s a)"

lemma reading_opt:
  fixes read :: "'x store \<Rightarrow> 'a \<Rightarrow> 'v"
  assumes "reading read foot"
  shows "reading (readOpt read) (footOpt foot)"
proof (rule readingI)
  fix s t :: "'x store" and p assume *: "\<forall>a \<in> footOpt foot s p. cells t a = cells s a"
  show "readOpt read t p = readOpt read s p \<and> footOpt foot t p = footOpt foot s p"
  proof (cases p)
    case (Some a)
    with * have "\<forall>b \<in> foot s a. cells t b = cells s b" by (simp add: footOpt_def)
    from readingD [OF assms this] Some show ?thesis by (simp add: readOpt_def footOpt_def)
  qed (simp add: readOpt_def footOpt_def)
qed

lemma deepCopies_opt:
  assumes "deepCopies copy read foot"
  shows "deepCopies (copyOpt copy) (readOpt read) (footOpt foot)"
proof (rule deepCopiesI)
  show "reading (readOpt read) (footOpt foot)" by (rule reading_opt [OF deepCopies_reading [OF assms]])
next
  fix p s q t assume foot: "footOpt foot s p \<subseteq> {..<limit s}" and copied: "copyOpt copy p s = (q, t)"
  show "extends s t \<and> readOpt read t q = readOpt read s p \<and> footOpt foot t q \<subseteq> {limit s..<limit t}"
  proof (cases p)
    case (Some a)
    obtain b u where run: "copy a s = (b, u)" by fastforce
    with foot copied Some have "foot s a \<subseteq> {..<limit s}" "q = Some b" "t = u"
      by (simp_all add: copyOpt_def footOpt_def)
    with deepCopiesD [OF assms _ run] Some show ?thesis by (simp add: readOpt_def footOpt_def)
  qed (use copied in \<open>simp add: copyOpt_def readOpt_def footOpt_def\<close>)
qed

text \<open>Two fields, one after the other.\<close>

definition copyBoth :: "('x, 'a) copier \<Rightarrow> ('x, 'b) copier \<Rightarrow> ('x, 'a \<times> 'b) copier" where
  "copyBoth f g p s = (let (x, t) = f (fst p) s; (y, u) = g (snd p) t in ((x, y), u))"

definition readBoth :: "('x store \<Rightarrow> 'a \<Rightarrow> 'v) \<Rightarrow> ('x store \<Rightarrow> 'b \<Rightarrow> 'w) \<Rightarrow> 'x store \<Rightarrow> 'a \<times> 'b \<Rightarrow> 'v \<times> 'w" where
  "readBoth f g s p = (f s (fst p), g s (snd p))"

definition footBoth ::
  "('x store \<Rightarrow> 'a \<Rightarrow> addr set) \<Rightarrow> ('x store \<Rightarrow> 'b \<Rightarrow> addr set) \<Rightarrow> 'x store \<Rightarrow> 'a \<times> 'b \<Rightarrow> addr set" where
  "footBoth f g s p = f s (fst p) \<union> g s (snd p)"

lemma deepCopies_both:
  fixes read1 :: "'x store \<Rightarrow> 'a \<Rightarrow> 'v"
  assumes "deepCopies copy1 read1 foot1" and "deepCopies copy2 read2 foot2"
  shows "deepCopies (copyBoth copy1 copy2) (readBoth read1 read2) (footBoth foot1 foot2)"
proof (rule deepCopiesI)
  show "reading (readBoth read1 read2) (footBoth foot1 foot2)"
  proof (rule readingI)
    fix s t :: "'x store" and p assume "\<forall>a \<in> footBoth foot1 foot2 s p. cells t a = cells s a"
    then have "\<forall>a \<in> foot1 s (fst p). cells t a = cells s a" "\<forall>a \<in> foot2 s (snd p). cells t a = cells s a"
      by (simp_all add: footBoth_def)
    from readingD [OF deepCopies_reading [OF assms(1)] this(1)] readingD [OF deepCopies_reading [OF assms(2)] this(2)]
    show "readBoth read1 read2 t p = readBoth read1 read2 s p \<and> footBoth foot1 foot2 t p = footBoth foot1 foot2 s p"
      by (simp add: readBoth_def footBoth_def)
  qed
next
  fix p s q u assume foot: "footBoth foot1 foot2 s p \<subseteq> {..<limit s}" and "copyBoth copy1 copy2 p s = (q, u)"
  then obtain x y t where run: "copy1 (fst p) s = (x, t)" "copy2 (snd p) t = (y, u)" "q = (x, y)"
    by (auto simp: copyBoth_def split: prod.splits)
  note one = deepCopiesD [OF assms(1) _ run(1)]
  from foot have f1: "foot1 s (fst p) \<subseteq> {..<limit s}" and f2: "foot2 s (snd p) \<subseteq> {..<limit s}"
    by (simp_all add: footBoth_def)
  note later = reading_later [OF deepCopies_reading [OF assms(2)] f2 one(1) [OF f1]]
  have le: "limit s \<le> limit t" using one(1) [OF f1] by (simp add: extends_def)
  have "foot2 t (snd p) \<subseteq> {..<limit t}" using f2 le by (auto simp: later)
  note two = deepCopiesD [OF assms(2) this run(2)]
  have "foot1 t x \<subseteq> {..<limit t}" using one(3) [OF f1] by auto
  note kept = reading_later [OF deepCopies_reading [OF assms(1)] this two(1)]
  show "extends s u \<and> readBoth read1 read2 u q = readBoth read1 read2 s p \<and>
      footBoth foot1 foot2 u q \<subseteq> {limit s..<limit u}"
  proof (intro conjI)
    show "extends s u" by (rule extends_trans [OF one(1) [OF f1] two(1)])
    show "readBoth read1 read2 u q = readBoth read1 read2 s p"
      by (simp add: run(3) readBoth_def kept two(2) one(2) [OF f1] later)
    have "limit t \<le> limit u" using two(1) by (simp add: extends_def)
    with one(3) [OF f1] two(3) le show "footBoth foot1 foot2 u q \<subseteq> {limit s..<limit u}"
      by (fastforce simp: run(3) footBoth_def kept)
  qed
qed

text \<open>A struct whose addresses are those of its component \<open>proj\<close>.\<close>

lemma deepCopies_struct:
  assumes "deepCopies copy read foot"
    and "\<And>x s. copyS x s = (let (p, t) = copy (proj x) s in (upd p x, t))"
    and "\<And>s x. readS s x = g x (read s (proj x))" and "\<And>s x. footS s x = foot s (proj x)"
    and "\<And>p x. proj (upd p x) = p" and "\<And>p x v. g (upd p x) v = g x v"
  shows "deepCopies copyS readS footS"
proof (rule deepCopiesI)
  show "reading readS footS"
    by (rule readingI, unfold assms(3,4), drule readingD [OF deepCopies_reading [OF assms(1)]]) simp
next
  fix x s y t assume foot: "footS s x \<subseteq> {..<limit s}" and copied: "copyS x s = (y, t)"
  obtain p u where run: "copy (proj x) s = (p, u)" by fastforce
  with copied have y: "y = upd p x" "t = u" by (simp_all add: assms(2))
  from foot have "foot s (proj x) \<subseteq> {..<limit s}" by (simp add: assms(4))
  from deepCopiesD [OF assms(1) this run]
  show "extends s t \<and> readS t y = readS s x \<and> footS t y \<subseteq> {limit s..<limit t}"
    by (simp add: y assms(3-6))
qed

text \<open>A new cell for a struct, a reference or a map.\<close>

definition readCell :: "('x cell option \<Rightarrow> 'e) \<Rightarrow> ('x store \<Rightarrow> 'e \<Rightarrow> 'v) \<Rightarrow> 'x store \<Rightarrow> addr \<Rightarrow> 'v" where
  "readCell get read s a = read s (get (cells s a))"

definition footCell :: "('x cell option \<Rightarrow> 'e) \<Rightarrow> ('x store \<Rightarrow> 'e \<Rightarrow> addr set) \<Rightarrow> 'x store \<Rightarrow> addr \<Rightarrow> addr set" where
  "footCell get foot s a = insert a (foot s (get (cells s a)))"

lemma reading_cell: "reading read foot \<Longrightarrow> reading (readCell get read) (footCell get foot)"
  unfolding reading_def readCell_def footCell_def by (metis insertCI)

text \<open>
  The copy in a cell of its own: \<open>out\<close> is allocated first, then the struct is copied, then
  \<open>out\<close> is set.
\<close>

lemma copied_cell:
  assumes "deepCopies copy read foot" and "\<And>e. get (Some (put e)) = e"
    and "footCell get foot s p \<subseteq> {..<limit s}" and "alloc v s = (out, t)" and "copy (get (cells t p)) t = (e, u)"
  shows "extends s (setCell out (put e) u)" and "out < limit u" "limit s \<le> out"
    and "readCell get read (setCell out (put e) u) out = readCell get read s p"
    and "footCell get foot (setCell out (put e) u) out \<subseteq> {limit s..<limit u}"
proof -
  note al = extends_alloc [OF assms(4)]
  have p: "p < limit s" "foot s (get (cells s p)) \<subseteq> {..<limit s}" using assms(3) by (auto simp: footCell_def)
  have same: "cells t p = cells s p" using al p(1) by (simp add: extends_def)
  have st: "extends s t" using al by simp
  note later = reading_later [OF deepCopies_reading [OF assms(1)] p(2) st]
  have "foot t (get (cells t p)) \<subseteq> {..<limit t}" using p(2) al by (auto simp: same later)
  note copied = deepCopiesD [OF assms(1) this assms(5)]
  have le: "Suc out \<le> limit u" using copied(1) al by (simp add: extends_def)
  then show "out < limit u" and "limit s \<le> out" using al by simp_all
  show "extends s (setCell out (put e) u)" using extends_trans [OF _ copied(1), of s] al by (simp add: extends_setCell)
  have away: "out \<notin> foot u e" using copied(3) al by auto
  have kept: "read (setCell out (put e) u) e = read u e" "foot (setCell out (put e) u) e = foot u e"
    using readingD [OF deepCopies_reading [OF assms(1)], of u e "setCell out (put e) u"] away by auto
  show "readCell get read (setCell out (put e) u) out = readCell get read s p"
    by (simp add: readCell_def assms(2) kept copied(2) same later)
  show "footCell get foot (setCell out (put e) u) out \<subseteq> {limit s..<limit u}"
    using copied(3) al le unfolding footCell_def by (auto simp: assms(2) kept [unfolded al [THEN conjunct2, THEN conjunct1]])
qed

lemma deepCopies_pointer:
  assumes "deepCopies copy read foot" and "\<And>e. get (Some (put e)) = e"
  shows "deepCopies (copyPointer zero copy put get) (readOpt (readCell get read)) (footOpt (footCell get foot))"
proof (rule deepCopiesI)
  show "reading (readOpt (readCell get read)) (footOpt (footCell get foot))"
    by (rule reading_opt [OF reading_cell [OF deepCopies_reading [OF assms(1)]]])
next
  fix p s q w assume foot: "footOpt (footCell get foot) s p \<subseteq> {..<limit s}"
    and copied: "copyPointer zero copy put get p s = (q, w)"
  show "extends s w \<and> readOpt (readCell get read) w q = readOpt (readCell get read) s p \<and>
      footOpt (footCell get foot) w q \<subseteq> {limit s..<limit w}"
  proof (cases p)
    case (Some a)
    obtain out t where al: "alloc (put zero) s = (out, t)" by fastforce
    obtain e u where run: "copy (get (cells t a)) t = (e, u)" by fastforce
    have q: "q = Some out" "w = setCell out (put e) u" using copied Some al run by (simp_all add: copyPointer_def)
    have "footCell get foot s a \<subseteq> {..<limit s}" using foot Some by (simp add: footOpt_def)
    from copied_cell [OF assms this al run] show ?thesis by (simp add: q Some readOpt_def footOpt_def)
  qed (use copied in \<open>simp add: copyPointer_def readOpt_def footOpt_def\<close>)
qed

text \<open>A slice: the array in a cell of its own, and the copies of its elements.\<close>

definition readList :: "('x store \<Rightarrow> 'e \<Rightarrow> 'v) \<Rightarrow> 'x store \<Rightarrow> 'e list \<Rightarrow> 'v list" where
  "readList read s xs = map (read s) xs"

definition footList :: "('x store \<Rightarrow> 'e \<Rightarrow> addr set) \<Rightarrow> 'x store \<Rightarrow> 'e list \<Rightarrow> addr set" where
  "footList foot s xs = (\<Union>x \<in> set xs. foot s x)"

lemma reading_list:
  fixes read :: "'x store \<Rightarrow> 'e \<Rightarrow> 'v"
  assumes "reading read foot"
  shows "reading (readList read) (footList foot)"
proof (rule readingI)
  fix s t :: "'x store" and xs assume "\<forall>a \<in> footList foot s xs. cells t a = cells s a"
  then have "\<forall>x \<in> set xs. read t x = read s x \<and> foot t x = foot s x"
    unfolding footList_def by (intro ballI readingD [OF assms]) blast
  then show "readList read t xs = readList read s xs \<and> footList foot t xs = footList foot s xs"
    by (simp add: readList_def footList_def)
qed

text \<open>The loop of a slice, after \<open>i\<close> elements: these are copies, above the address of the array.\<close>

definition copiedElement ::
  "('x store \<Rightarrow> 'e \<Rightarrow> 'v) \<Rightarrow> ('x store \<Rightarrow> 'e \<Rightarrow> addr set) \<Rightarrow> 'x store \<Rightarrow> addr \<Rightarrow> 'x store \<Rightarrow> 'e \<Rightarrow> 'e \<Rightarrow> bool" where
  "copiedElement read foot s out t y x \<longleftrightarrow> read t y = read s x \<and> foot t y \<subseteq> {Suc out..<limit t}"

lemma copiedElement_later:
  assumes "reading read foot" and "copiedElement read foot s out t y x"
    and "\<And>a. out < a \<Longrightarrow> a < limit t \<Longrightarrow> cells u a = cells t a" and "limit t \<le> limit u"
  shows "copiedElement read foot s out u y x"
proof -
  have "\<forall>a \<in> foot t y. cells u a = cells t a" using assms(2,3) by (fastforce simp: copiedElement_def)
  from readingD [OF assms(1) this] assms(2,4) show ?thesis by (fastforce simp: copiedElement_def)
qed

lemma copyLoop_copies:
  fixes read :: "'x store \<Rightarrow> 'e \<Rightarrow> 'v"
  assumes dc: "deepCopies copy read foot" and get: "\<And>es. get (Some (put es)) = es"
    and s: "inp < limit s" "footList foot s (get (cells s inp)) \<subseteq> {..<limit s}" "out = limit s"
    and t: "extends s t" "out < limit t" "get (cells t out) = ys @ replicate n z"
      "length (get (cells s inp)) = length ys + n"
      "list_all2 (copiedElement read foot s out t) ys (take (length ys) (get (cells s inp)))"
  shows "let u = copyLoop copy put get inp out (length ys) n t
    in extends s u \<and> out < limit u \<and> list_all2 (copiedElement read foot s out u) (get (cells u out)) (get (cells s inp))"
  using t
proof (induction n arbitrary: ys t)
  case 0
  have "take (length ys) (get (cells s inp)) = get (cells s inp)" and ys: "get (cells t out) = ys"
    using 0(3,4) by simp_all
  with 0(5) have "list_all2 (copiedElement read foot s out t) ys (get (cells s inp))" by metis
  with 0(1,2) show ?case unfolding copyLoop.simps Let_def ys by blast
next
  case (Suc n)
  let ?xs = "get (cells s inp)"
  let ?x = "?xs ! length ys"
  have same: "cells t inp = cells s inp" using Suc.prems(1) s(1) by (simp add: extends_def)
  have "?x \<in> set ?xs" using Suc.prems(4) by simp
  then have fx: "foot s ?x \<subseteq> {..<limit s}" using s(2) by (auto simp: footList_def)
  note x = reading_later [OF deepCopies_reading [OF dc] fx Suc.prems(1)]
  obtain y t1 where run: "copy ?x t = (y, t1)" by fastforce
  have le: "limit s \<le> limit t" using Suc.prems(1) by (simp add: extends_def)
  with fx have "foot t ?x \<subseteq> {..<limit t}" unfolding x(2) by auto
  note copied = deepCopiesD [OF dc this run]
  have t1: "limit t \<le> limit t1" "\<And>a. a < limit t \<Longrightarrow> cells t1 a = cells t a"
    using copied(1) by (simp_all add: extends_def)
  let ?t2 = "setCell out (put (ys @ y # replicate n z)) t1"
  have loop: "copyLoop copy put get inp out (length ys) (Suc n) t =
      copyLoop copy put get inp out (length (ys @ [y])) n ?t2"
    using Suc.prems(3) t1(2) [OF Suc.prems(2)] by (simp add: same run list_update_append)
  have "copiedElement read foot s out t1 y ?x"
    using copied(2,3) Suc.prems(2) unfolding x(1) by (fastforce simp: copiedElement_def)
  then have new: "copiedElement read foot s out ?t2 y ?x"
    by (rule copiedElement_later [OF deepCopies_reading [OF dc]]) simp_all
  have "copiedElement read foot s out ?t2 y' x'" if "copiedElement read foot s out t y' x'" for y' x'
    using that by (rule copiedElement_later [OF deepCopies_reading [OF dc]]) (use t1 in simp_all)
  then have old: "list_all2 (copiedElement read foot s out ?t2) ys (take (length ys) ?xs)"
    using Suc.prems(5) by (rule list_all2_mono [rotated])
  have "list_all2 (copiedElement read foot s out ?t2) (ys @ [y]) (take (length (ys @ [y])) ?xs)"
    using old new Suc.prems(4) by (simp add: take_Suc_conv_app_nth list_all2_appendI)
  moreover have "extends s ?t2"
    using extends_setCell [OF extends_trans [OF Suc.prems(1) copied(1)]] s(3) by simp
  moreover have "out < limit ?t2" using Suc.prems(2) t1(1) by simp
  moreover have "get (cells ?t2 out) = (ys @ [y]) @ replicate n z" by (simp add: get)
  moreover have "length ?xs = length (ys @ [y]) + n" using Suc.prems(4) by simp
  ultimately show ?case unfolding loop by (intro Suc.IH)
qed

lemma deepCopies_slice:
  fixes read :: "'x store \<Rightarrow> 'e \<Rightarrow> 'v"
  assumes "deepCopies copy read foot" and "\<And>es. get (Some (put es)) = es"
  shows "deepCopies (copySlice zero copy put get) (readCell get (readList read)) (footCell get (footList foot))"
proof (rule deepCopiesI)
  show "reading (readCell get (readList read)) (footCell get (footList foot))"
    by (rule reading_cell [OF reading_list [OF deepCopies_reading [OF assms(1)]]])
next
  fix p q s u assume foot: "footCell get (footList foot) s p \<subseteq> {..<limit s}"
    and copied: "copySlice zero copy put get p s = (q, u)"
  let ?n = "length (get (cells s p))"
  obtain out t where al: "alloc (put (replicate ?n zero)) s = (out, t)" by fastforce
  have st: "extends s t" "out = limit s" "out < limit t" "cells t out = Some (put (replicate ?n zero))"
    using extends_alloc [OF al] by auto
  have u: "q = out" "u = copyLoop copy put get p out (length []) ?n t" using copied by (auto simp: copySlice_def al)
  have p: "p < limit s" "footList foot s (get (cells s p)) \<subseteq> {..<limit s}" using foot by (auto simp: footCell_def)
  have "extends s u \<and> out < limit u \<and> list_all2 (copiedElement read foot s out u) (get (cells u out)) (get (cells s p))"
  proof (rule copyLoop_copies [OF assms p, of out t "[]" ?n zero, unfolded Let_def, folded u(2)])
    show "get (cells t out) = [] @ replicate ?n zero" by (simp add: st(4) assms(2))
  qed (use st in simp_all)
  then have ex: "extends s u" "out < limit u" and
    all: "list_all2 (copiedElement read foot s out u) (get (cells u out)) (get (cells s p))" by simp_all
  from all have "map (read u) (get (cells u out)) = map (read s) (get (cells s p))"
    by (induction rule: list_all2_induct) (simp_all add: copiedElement_def)
  moreover from all have "\<forall>y \<in> set (get (cells u out)). foot u y \<subseteq> {Suc out..<limit u}"
    by (induction rule: list_all2_induct) (simp_all add: copiedElement_def)
  ultimately show "extends s u \<and> readCell get (readList read) u q = readCell get (readList read) s p \<and>
      footCell get (footList foot) u q \<subseteq> {limit s..<limit u}"
    using ex st by (fastforce simp: u(1) readCell_def readList_def footCell_def footList_def)
qed

text \<open>A reference and a map hold no addresses.\<close>

lemma deepCopies_leaf:
  assumes "\<And>p s. p < limit s \<Longrightarrow> \<exists>v. copy p s = (limit s, snd (alloc v s)) \<and> g (get (Some v)) = g (get (cells s p))"
  shows "deepCopies copy (readCell get (\<lambda>_ x. g x)) (footCell get (\<lambda>_ _. {}))"
proof (rule deepCopiesI)
  show "reading (readCell get (\<lambda>_ x. g x)) (footCell get (\<lambda>_ _. {}))"
    by (rule reading_cell [OF deepCopies_reading [OF deepCopies_pure]])
next
  fix p s q t assume "footCell get (\<lambda>_ _. {}) s p \<subseteq> {..<limit s}" "copy p s = (q, t)"
  with assms [of p s] obtain v where "q = limit s" "t = snd (alloc v s)" "g (get (Some v)) = g (get (cells s p))"
    by (auto simp: footCell_def)
  then show "extends s t \<and> readCell get (\<lambda>_ x. g x) t q = readCell get (\<lambda>_ x. g x) s p \<and>
      footCell get (\<lambda>_ _. {}) t q \<subseteq> {limit s..<limit t}"
    by (simp add: readCell_def footCell_def alloc_def extends_def)
qed

section \<open>The API types\<close>

text \<open>
  What the structs of other packages stand for, and the addresses they reach. The law of
  their DeepCopyInto: it makes deep copies. The law of \<open>range\<close>: every entry of the map, once.
\<close>

record ListMeta =
  lm_ResourceVersion :: string
  lm_Continue :: string
  lm_RemainingItemCount :: "int option"

record 'x view =
  asSelector :: "'x store \<Rightarrow> 'x \<Rightarrow> DeviceSelector"
  asConfiguration :: "'x store \<Rightarrow> 'x \<Rightarrow> DeviceClassConfiguration"
  asObjectMeta :: "'x store \<Rightarrow> 'x \<Rightarrow> ObjectMeta"
  asListMeta :: "'x store \<Rightarrow> 'x \<Rightarrow> ListMeta"
  structFoot :: "'x store \<Rightarrow> 'x \<Rightarrow> addr set"

definition lawfulForeign :: "'x foreign \<Rightarrow> 'x view \<Rightarrow> bool" where
  "lawfulForeign F V \<longleftrightarrow> deepCopies (copySelector F) (asSelector V) (structFoot V) \<and>
     deepCopies (copyConfiguration F) (asConfiguration V) (structFoot V) \<and>
     deepCopies (copyObjectMeta F) (asObjectMeta V) (structFoot V) \<and>
     deepCopies (copyListMeta F) (asListMeta V) (structFoot V)"

definition lawfulRange :: "mapRange \<Rightarrow> bool" where
  "lawfulRange rng \<longleftrightarrow> (\<forall>m. distinct (map fst (rng m)) \<and> set (rng m) = {(k, v). fmlookup m k = Some v})"

abbreviation readStructs :: "('x store \<Rightarrow> 'x \<Rightarrow> 'v) \<Rightarrow> 'x store \<Rightarrow> addr \<Rightarrow> 'v list" where
  "readStructs read \<equiv> readCell structsOf (readList read)"

abbreviation footStructs :: "'x view \<Rightarrow> 'x store \<Rightarrow> addr \<Rightarrow> addr set" where
  "footStructs V \<equiv> footCell structsOf (footList (structFoot V))"

text \<open>Each type is read field by field; a nil slice, pointer or map stays apart from an empty one.\<close>

definition readClass :: "'x view \<Rightarrow> 'x store \<Rightarrow> hClass \<Rightarrow>
    string \<times> DeviceSelector list option \<times> DeviceClassConfiguration list option" where
  "readClass V s c = (hc_Name c, readBoth (readOpt (readStructs (asSelector V))) (readOpt (readStructs (asConfiguration V)))
     s (hc_Selectors c, hc_Config c))"

definition footClass :: "'x view \<Rightarrow> 'x store \<Rightarrow> hClass \<Rightarrow> addr set" where
  "footClass V s c = footBoth (footOpt (footStructs V)) (footOpt (footStructs V)) s (hc_Selectors c, hc_Config c)"

definition plainSpec :: "hSpec \<Rightarrow> hSpec" where
  "plainSpec sp = sp\<lparr>hs_DeviceClasses := None, hs_ImageRepoSecret := None, hs_Selector := None\<rparr>"

abbreviation readAddrs where
  "readAddrs V \<equiv> readBoth (readOpt (readCell classesOf (readList (readClass V))))
     (readBoth (readOpt (readCell referenceOf (\<lambda>_ x. x))) (readOpt (readCell stringMapOf (\<lambda>_ m. m))))"

abbreviation footAddrs where
  "footAddrs V \<equiv> footBoth (footOpt (footCell classesOf (footList (footClass V))))
     (footBoth (footOpt (footCell referenceOf (\<lambda>_ _. {}))) (footOpt (footCell stringMapOf (\<lambda>_ _. {}))))"

definition readSpec where
  "readSpec V s sp = (plainSpec sp, readAddrs V s (hs_DeviceClasses sp, hs_ImageRepoSecret sp, hs_Selector sp))"

definition footSpec where
  "footSpec V s sp = footAddrs V s (hs_DeviceClasses sp, hs_ImageRepoSecret sp, hs_Selector sp)"

definition readConfig where
  "readConfig V s d = ((hd_Type d, hd_Status d), readBoth (asObjectMeta V) (readSpec V) s (hd_Meta d, hd_Spec d))"

definition footConfig where
  "footConfig V s d = footBoth (structFoot V) (footSpec V) s (hd_Meta d, hd_Spec d)"

definition readConfigList where
  "readConfigList V s l = (hl_Type l, readBoth (asListMeta V) (readOpt (readCell itemsOf (readList (readConfig V))))
     s (hl_Meta l, hl_Items l))"

definition footConfigList where
  "footConfigList V s l = footBoth (structFoot V) (footOpt (footCell itemsOf (footList (footConfig V))))
     s (hl_Meta l, hl_Items l)"

lemma copies_reference: "deepCopies copyReference (readCell referenceOf (\<lambda>_ x. x)) (footCell referenceOf (\<lambda>_ _. {}))"
proof (rule deepCopies_leaf [where g = "\<lambda>x. x"])
  fix p and s :: "'x store" assume "p < limit s"
  then show "\<exists>v. copyReference p s = (limit s, snd (alloc v s)) \<and> referenceOf (Some v) = referenceOf (cells s p)"
    by (intro exI [of _ "Reference (referenceOf (cells s p))"]) (simp add: copyReference_def alloc_def setCell_def)
qed

lemma mapLoop_cell:
  "cells s out = Some (StringMap m) \<Longrightarrow>
     mapLoop kvs out s = setCell out (StringMap (fold (\<lambda>(k, v). fmupd k v) kvs m)) s"
proof (induction kvs out s arbitrary: m rule: mapLoop.induct)
  case (1 out s)
  then have "(cells s)(out \<mapsto> StringMap m) = cells s" by (rule fun_upd_idem)
  then show ?case by (simp add: setCell_def)
next
  case (2 key val kvs out s)
  from 2 show ?case by (simp add: setCell_def)
qed

lemma fold_fmupd:
  "(\<And>k v. (k, v) \<in> set kvs \<Longrightarrow> fmlookup m k = Some v) \<Longrightarrow>
     fmlookup (fold (\<lambda>(k, v). fmupd k v) kvs m0) k = (if k \<in> fst ` set kvs then fmlookup m k else fmlookup m0 k)"
proof (induction kvs arbitrary: m0)
  case (Cons kv kvs)
  obtain k' v' where kv: "kv = (k', v')" by fastforce
  have "fmlookup m k' = Some v'" by (rule Cons.prems) (simp add: kv)
  moreover have "fmlookup (fold (\<lambda>(k, v). fmupd k v) kvs (fmupd k' v' m0)) k =
      (if k \<in> fst ` set kvs then fmlookup m k else fmlookup (fmupd k' v' m0) k)"
    by (rule Cons.IH) (rule Cons.prems, simp)
  ultimately show ?case by (auto simp: kv)
qed simp

lemma fold_range:
  assumes "lawfulRange rng"
  shows "fold (\<lambda>(k, v). fmupd k v) (rng m) fmempty = m"
proof (rule fmap_ext)
  fix k
  have "set (rng m) = {(k, v). fmlookup m k = Some v}" using assms by (simp add: lawfulRange_def)
  then show "fmlookup (fold (\<lambda>(k, v). fmupd k v) (rng m) fmempty) k = fmlookup m k"
    by (subst fold_fmupd [where m = m]) (force simp: image_iff)+
qed

lemma copies_map:
  assumes "lawfulRange rng"
  shows "deepCopies (copyStringMap rng) (readCell stringMapOf (\<lambda>_ m. m)) (footCell stringMapOf (\<lambda>_ _. {}))"
proof (rule deepCopies_leaf [where g = "\<lambda>m. m"])
  fix p and s :: "'x store" assume "p < limit s"
  then show "\<exists>v. copyStringMap rng p s = (limit s, snd (alloc v s)) \<and> stringMapOf (Some v) = stringMapOf (cells s p)"
    by (intro exI [of _ "StringMap (stringMapOf (cells s p))"])
       (simp add: copyStringMap_def alloc_def mapLoop_cell fold_range [OF assms] setCell_def)
qed

lemma copies_class:
  assumes "lawfulForeign F V"
  shows "deepCopies (DeviceClassSpec_DeepCopyInto F) (readClass V) (footClass V)"
proof -
  let ?copy = "\<lambda>f. copySlice (zeroStruct F) f Structs structsOf"
  have "deepCopies (copyBoth (copyOpt (?copy (copySelector F))) (copyOpt (?copy (copyConfiguration F))))
      (readBoth (readOpt (readStructs (asSelector V))) (readOpt (readStructs (asConfiguration V))))
      (footBoth (footOpt (footStructs V)) (footOpt (footStructs V)))"
    using assms unfolding lawfulForeign_def by (intro deepCopies_both deepCopies_opt deepCopies_slice) simp_all
  then show ?thesis
  proof (rule deepCopies_struct [where proj = "\<lambda>c. (hc_Selectors c, hc_Config c)" and g = "\<lambda>c v. (hc_Name c, v)"
        and upd = "\<lambda>p c. c\<lparr>hc_Selectors := fst p, hc_Config := snd p\<rparr>"])
    fix c and s :: "'a store"
    show "DeviceClassSpec_DeepCopyInto F c s =
      (let (p, t) = copyBoth (copyOpt (?copy (copySelector F))) (copyOpt (?copy (copyConfiguration F)))
         (hc_Selectors c, hc_Config c) s in (c\<lparr>hc_Selectors := fst p, hc_Config := snd p\<rparr>, t))"
      by (cases c) (simp add: DeviceClassSpec_DeepCopyInto_def copyBoth_def copyOpt_def Let_def split: option.split prod.split)
  qed (simp_all add: readClass_def footClass_def)
qed

lemma copies_spec:
  assumes "lawfulForeign F V" and "lawfulRange rng"
  shows "deepCopies (DeviceConfigSpec_DeepCopyInto F rng) (readSpec V) (footSpec V)"
proof -
  let ?copy = "copyBoth (copyOpt (copySlice zeroHClass (DeviceClassSpec_DeepCopyInto F) Classes classesOf))
    (copyBoth (copyOpt copyReference) (copyOpt (copyStringMap rng)))"
  have "deepCopies ?copy (readAddrs V) (footAddrs V)"
    by (intro deepCopies_both deepCopies_opt deepCopies_slice copies_class [OF assms(1)] copies_reference
        copies_map [OF assms(2)]) simp
  then show ?thesis
  proof (rule deepCopies_struct [where proj = "\<lambda>sp. (hs_DeviceClasses sp, hs_ImageRepoSecret sp, hs_Selector sp)"
        and g = "\<lambda>sp v. (plainSpec sp, v)"
        and upd = "\<lambda>p sp. sp\<lparr>hs_DeviceClasses := fst p, hs_ImageRepoSecret := fst (snd p), hs_Selector := snd (snd p)\<rparr>"])
    fix sp and s :: "'a store"
    show "DeviceConfigSpec_DeepCopyInto F rng sp s =
      (let (p, t) = ?copy (hs_DeviceClasses sp, hs_ImageRepoSecret sp, hs_Selector sp) s
       in (sp\<lparr>hs_DeviceClasses := fst p, hs_ImageRepoSecret := fst (snd p), hs_Selector := snd (snd p)\<rparr>, t))"
      by (cases sp) (simp add: DeviceConfigSpec_DeepCopyInto_def copyBoth_def copyOpt_def Let_def split: option.split prod.split)
  qed (simp_all add: readSpec_def footSpec_def plainSpec_def)
qed

lemma copies_config:
  assumes "lawfulForeign F V" and "lawfulRange rng"
  shows "deepCopies (DeviceConfig_DeepCopyInto F rng) (readConfig V) (footConfig V)"
proof -
  have "deepCopies (copyBoth (copyObjectMeta F) (DeviceConfigSpec_DeepCopyInto F rng))
      (readBoth (asObjectMeta V) (readSpec V)) (footBoth (structFoot V) (footSpec V))"
    using assms(1) unfolding lawfulForeign_def by (intro deepCopies_both copies_spec [OF assms]) simp
  then show ?thesis
    by (rule deepCopies_struct [where proj = "\<lambda>d. (hd_Meta d, hd_Spec d)" and g = "\<lambda>d v. ((hd_Type d, hd_Status d), v)"
          and upd = "\<lambda>p d. d\<lparr>hd_Meta := fst p, hd_Spec := snd p\<rparr>"])
       (simp_all add: DeviceConfig_DeepCopyInto_def copyBoth_def Let_def readConfig_def footConfig_def split: prod.split)
qed

lemma copies_config_list:
  assumes "lawfulForeign F V" and "lawfulRange rng"
  shows "deepCopies (DeviceConfigList_DeepCopyInto F rng) (readConfigList V) (footConfigList V)"
proof -
  let ?copy = "copyBoth (copyListMeta F) (copyOpt (copySlice (zeroHDeviceConfig F) (DeviceConfig_DeepCopyInto F rng) Items itemsOf))"
  have "deepCopies ?copy (readBoth (asListMeta V) (readOpt (readCell itemsOf (readList (readConfig V)))))
      (footBoth (structFoot V) (footOpt (footCell itemsOf (footList (footConfig V)))))"
    using assms(1) unfolding lawfulForeign_def
    by (intro deepCopies_both deepCopies_opt deepCopies_slice copies_config [OF assms]) simp_all
  then show ?thesis
  proof (rule deepCopies_struct [where proj = "\<lambda>l. (hl_Meta l, hl_Items l)" and g = "\<lambda>l v. (hl_Type l, v)"
        and upd = "\<lambda>p l. l\<lparr>hl_Meta := fst p, hl_Items := snd p\<rparr>"])
    fix l and s :: "'a store"
    show "DeviceConfigList_DeepCopyInto F rng l s =
      (let (p, t) = ?copy (hl_Meta l, hl_Items l) s in (l\<lparr>hl_Meta := fst p, hl_Items := snd p\<rparr>, t))"
      by (cases l) (simp add: DeviceConfigList_DeepCopyInto_def copyBoth_def copyOpt_def Let_def split: option.split prod.split)
  qed (simp_all add: readConfigList_def footConfigList_def)
qed

section \<open>Independence\<close>

lemma deepCopies_independent:
  assumes "deepCopies copy read foot" and "foot s x \<subseteq> {..<limit s}" and "copy x s = (y, t)"
  shows "read t y = read s x" and "foot t y \<inter> foot s x = {}"
    and "(\<And>a. a \<notin> foot s x \<Longrightarrow> cells u a = cells t a) \<Longrightarrow> read u y = read s x"
    and "(\<And>a. a \<notin> foot t y \<Longrightarrow> cells u a = cells t a) \<Longrightarrow> read u x = read s x"
proof -
  note copied = deepCopiesD [OF assms]
  note same = reading_same [OF deepCopies_reading [OF assms(1)]]
  note later = reading_later [OF deepCopies_reading [OF assms(1)] assms(2) copied(1)]
  show "read t y = read s x" by (rule copied(2))
  show apart: "foot t y \<inter> foot s x = {}" using assms(2) copied(3) by fastforce
  show "read u y = read s x" if "\<And>a. a \<notin> foot s x \<Longrightarrow> cells u a = cells t a"
    using same(1) [of t y u] that apart copied(2) by (metis disjoint_iff)
  show "read u x = read s x" if "\<And>a. a \<notin> foot t y \<Longrightarrow> cells u a = cells t a"
    using same(1) [of t x u] that apart later by (metis disjoint_iff)
qed

text \<open>
  What the DeviceConfig (the list of them) at an address stands for, down to which of its
  slices, pointers and maps are nil, and the addresses it reaches.
\<close>

definition configAt where
  "configAt F V s p = readOpt (readCell (configOf F) (readConfig V)) s p"

definition configReach where
  "configReach F V s p = footOpt (footCell (configOf F) (footConfig V)) s p"

definition listAt where
  "listAt F V s p = readOpt (readCell (listOf F) (readConfigList V)) s p"

definition listReach where
  "listReach F V s p = footOpt (footCell (listOf F) (footConfigList V)) s p"

lemma copies_config_pointer:
  assumes "lawfulForeign F V" and "lawfulRange rng"
  shows "deepCopies (DeviceConfig_DeepCopy F rng) (configAt F V) (configReach F V)"
  using deepCopies_pointer [OF copies_config [OF assms], of "configOf F" AConfig "zeroHDeviceConfig F"]
  by (simp add: DeviceConfig_DeepCopy_def configAt_def [abs_def] configReach_def [abs_def])

lemma copies_list_pointer:
  assumes "lawfulForeign F V" and "lawfulRange rng"
  shows "deepCopies (DeviceConfigList_DeepCopy F rng) (listAt F V) (listReach F V)"
  using deepCopies_pointer [OF copies_config_list [OF assms], of "listOf F" AList "zeroHDeviceConfigList F"]
  by (simp add: DeviceConfigList_DeepCopy_def listAt_def [abs_def] listReach_def [abs_def])

text \<open>The types without a DeepCopyObject of their own.\<close>

lemma copies_part_pointers:
  assumes "lawfulForeign F V" and "lawfulRange rng"
  shows "deepCopies (DeviceClassSpec_DeepCopy F) (readOpt (readCell classOf (readClass V))) (footOpt (footCell classOf (footClass V)))"
    and "deepCopies (DeviceConfigSpec_DeepCopy F rng) (readOpt (readCell specOf (readSpec V))) (footOpt (footCell specOf (footSpec V)))"
    and "deepCopies DeviceConfigStatus_DeepCopy (readOpt (readCell statusOf (\<lambda>_ x. x))) (footOpt (footCell statusOf (\<lambda>_ _. {})))"
    and "deepCopies DeploymentStatus_DeepCopy (readOpt (readCell deploymentStatusOf (\<lambda>_ x. x)))
      (footOpt (footCell deploymentStatusOf (\<lambda>_ _. {})))"
proof -
  have status: "DeviceConfigStatus_DeepCopyInto = (\<lambda>x s. (x, s))" "DeploymentStatus_DeepCopyInto = (\<lambda>x s. (x, s))"
    by (simp_all add: fun_eq_iff DeviceConfigStatus_DeepCopyInto_def DeploymentStatus_DeepCopyInto_def)
  have plain: "deepCopies DeviceConfigStatus_DeepCopyInto (\<lambda>_ x. x) (\<lambda>_ _. {})"
    "deepCopies DeploymentStatus_DeepCopyInto (\<lambda>_ x. x) (\<lambda>_ _. {})" unfolding status by (rule deepCopies_pure)+
  show "deepCopies DeviceConfigStatus_DeepCopy (readOpt (readCell statusOf (\<lambda>_ x. x))) (footOpt (footCell statusOf (\<lambda>_ _. {})))"
    unfolding DeviceConfigStatus_DeepCopy_def by (rule deepCopies_pointer [OF plain(1)]) simp
  show "deepCopies DeploymentStatus_DeepCopy (readOpt (readCell deploymentStatusOf (\<lambda>_ x. x)))
      (footOpt (footCell deploymentStatusOf (\<lambda>_ _. {})))"
    unfolding DeploymentStatus_DeepCopy_def by (rule deepCopies_pointer [OF plain(2)]) simp
  show "deepCopies (DeviceClassSpec_DeepCopy F) (readOpt (readCell classOf (readClass V))) (footOpt (footCell classOf (footClass V)))"
    unfolding DeviceClassSpec_DeepCopy_def by (rule deepCopies_pointer [OF copies_class [OF assms(1)]]) simp
  show "deepCopies (DeviceConfigSpec_DeepCopy F rng) (readOpt (readCell specOf (readSpec V))) (footOpt (footCell specOf (footSpec V)))"
    unfolding DeviceConfigSpec_DeepCopy_def by (rule deepCopies_pointer [OF copies_spec [OF assms]]) simp
qed

lemma deepCopyObject_eq:
  "DeviceConfig_DeepCopyObject F rng = DeviceConfig_DeepCopy F rng"
  "DeviceConfigList_DeepCopyObject F rng = DeviceConfigList_DeepCopy F rng"
  by (auto simp: fun_eq_iff DeviceConfig_DeepCopyObject_def DeviceConfigList_DeepCopyObject_def split: prod.split option.split)

text \<open>The value that the rest of the development works with.\<close>

definition classValue ::
  "string \<times> DeviceSelector list option \<times> DeviceClassConfiguration list option \<Rightarrow> DeviceClassSpec" where
  "classValue r = (case r of (nm, sels, cfgs) \<Rightarrow> \<lparr>dcs_Name = nm,
     dcs_Selectors = (case sels of None \<Rightarrow> [] | Some xs \<Rightarrow> xs), dcs_Config = (case cfgs of None \<Rightarrow> [] | Some xs \<Rightarrow> xs)\<rparr>)"

definition configValue where
  "configValue r = (case r of ((ty, st), meta, sp, classes, ref, sel) \<Rightarrow> \<lparr>dc_Meta = meta, dc_Spec = \<lparr>
     UseInTreeDrivers = hs_UseInTreeDrivers sp, DriversImage = hs_DriversImage sp, DriverVersion = hs_DriverVersion sp,
     DevicePluginImage = hs_DevicePluginImage sp, CustomSchedulerImage = hs_CustomSchedulerImage sp,
     SchedulerExtensionImage = hs_SchedulerExtensionImage sp, DRADriverImage = hs_DRADriverImage sp,
     DeviceClasses = (case classes of None \<Rightarrow> [] | Some cs \<Rightarrow> map classValue cs),
     NodeMetricsImage = hs_NodeMetricsImage sp, ImageRepoSecret = ref, Selector = map_option fmlookup sel\<rparr>,
     dc_Status = st\<rparr>)"

definition representsConfig where
  "representsConfig F V s p d \<longleftrightarrow> map_option configValue (configAt F V s p) = Some d"

section \<open>Concrete parameters\<close>

text \<open>Structs of other packages with one pointer each, and the entries of a map by key.\<close>

datatype exStruct =
    XSelector DeviceSelector
  | XConfiguration DeviceClassConfiguration
  | XMeta ObjectMeta
  | XListMeta ListMeta
  | XBox addr

fun boxed :: "exStruct cell option \<Rightarrow> exStruct" where
  "boxed (Some (Foreign (XBox a))) = XMeta zeroMeta"
| "boxed (Some (Foreign x)) = x"
| "boxed _ = XMeta zeroMeta"

fun unbox :: "exStruct store \<Rightarrow> exStruct \<Rightarrow> exStruct" where
  "unbox s (XBox a) = boxed (cells s a)"
| "unbox s x = x"

fun exFoot :: "exStruct store \<Rightarrow> exStruct \<Rightarrow> addr set" where
  "exFoot s (XBox a) = {a}"
| "exFoot s x = {}"

definition exCopy :: "(exStruct, exStruct) copier" where
  "exCopy x s = (case x of XBox a \<Rightarrow> let (b, s) = alloc (Foreign (unbox s x)) s in (XBox b, s) | _ \<Rightarrow> (x, s))"

definition exForeign :: "exStruct foreign" where
  "exForeign = \<lparr>copySelector = exCopy, copyConfiguration = exCopy, copyObjectMeta = exCopy, copyListMeta = exCopy,
     zeroStruct = XMeta zeroMeta\<rparr>"

definition exView :: "exStruct view" where
  "exView = \<lparr>asSelector = (\<lambda>s x. case unbox s x of XSelector y \<Rightarrow> y | _ \<Rightarrow> CEL []),
     asConfiguration = (\<lambda>s x. case unbox s x of XConfiguration y \<Rightarrow> y | _ \<Rightarrow> []),
     asObjectMeta = (\<lambda>s x. case unbox s x of XMeta y \<Rightarrow> y | _ \<Rightarrow> zeroMeta),
     asListMeta = (\<lambda>s x. case unbox s x of XListMeta y \<Rightarrow> y
       | _ \<Rightarrow> \<lparr>lm_ResourceVersion = [], lm_Continue = [], lm_RemainingItemCount = None\<rparr>),
     structFoot = exFoot\<rparr>"

definition exRange :: mapRange where
  "exRange m = map (\<lambda>k. (k, the (fmlookup m k))) (sorted_list_of_fset (fmdom m))"

lemma boxed_again: "boxed (Some (Foreign (boxed c))) = boxed c"
  by (cases c rule: boxed.cases) simp_all

lemma deepCopies_ex: "deepCopies exCopy (\<lambda>s x. h (unbox s x)) exFoot"
proof (rule deepCopiesI)
  show "reading (\<lambda>s x. h (unbox s x)) exFoot"
  proof (rule readingI)
    fix s t :: "exStruct store" and x assume "\<forall>a \<in> exFoot s x. cells t a = cells s a"
    then show "h (unbox t x) = h (unbox s x) \<and> exFoot t x = exFoot s x" by (cases x) simp_all
  qed
next
  fix x s y t assume "exFoot s x \<subseteq> {..<limit s}" "exCopy x s = (y, t)"
  then show "extends s t \<and> h (unbox t y) = h (unbox s x) \<and> exFoot t y \<subseteq> {limit s..<limit t}"
    by (cases x) (auto simp: exCopy_def alloc_def extends_def boxed_again)
qed

lemma lawfulForeign_ex: "lawfulForeign exForeign exView"
  unfolding lawfulForeign_def exForeign_def exView_def by (simp add: deepCopies_ex)

lemma lawfulRange_ex: "lawfulRange exRange"
  unfolding lawfulRange_def
proof (intro allI conjI)
  fix m :: "(string, string) fmap"
  show "distinct (map fst (exRange m))" by (simp add: exRange_def comp_def sorted_list_of_fset.rep_eq)
  show "set (exRange m) = {(k, v). fmlookup m k = Some v}"
    by (auto simp: exRange_def fmlookup_dom_iff image_iff intro!: bexI fmdomI)
qed

text \<open>A DeviceConfig with a class, a selector map and boxed metadata, at address 4, and a list of one, at address 5.\<close>

definition exConfig :: "exStruct hDeviceConfig" where
  "exConfig = (zeroHDeviceConfig exForeign)\<lparr>hd_Meta := XBox 0,
     hd_Spec := zeroHSpec\<lparr>hs_DeviceClasses := Some 3, hs_Selector := Some 1\<rparr>\<rparr>"

definition exStore :: "exStruct store" where
  "exStore = \<lparr>limit = 7, cells = [0 \<mapsto> Foreign (XMeta (zeroMeta\<lparr>om_Name := ''neuron''\<rparr>)),
     1 \<mapsto> StringMap (fmupd ''neuron'' ''true'' fmempty), 2 \<mapsto> Structs [XSelector (CEL ''x'')],
     3 \<mapsto> Classes [\<lparr>hc_Name = ''c'', hc_Selectors = Some 2, hc_Config = None\<rparr>], 4 \<mapsto> AConfig exConfig,
     5 \<mapsto> AList \<lparr>hl_Type = \<lparr>tm_Kind = [], tm_APIVersion = []\<rparr>,
       hl_Meta = XListMeta \<lparr>lm_ResourceVersion = [], lm_Continue = [], lm_RemainingItemCount = None\<rparr>, hl_Items = Some 6\<rparr>,
     6 \<mapsto> Items [exConfig]]\<rparr>"

section \<open>Properties\<close>

text \<open>
  C33: a deep copy of a DeviceConfig stands for the same DeviceConfig and shares nothing with
  it. Given a pointer, DeepCopyObject returns a pointer to a copy that reads the same (which
  fields are nil included), reaches none of the addresses the original reaches, still reads
  the same after any writes through the original, and leaves the original alone under any
  writes through itself; given nil it returns nil.
\<close>

theorem deep_copy_independent:
  assumes "lawfulForeign F V" and "lawfulRange rng" and "configReach F V s p \<subseteq> {..<limit s}"
    and "DeviceConfig_DeepCopyObject F rng p s = (q, t)"
  shows "(q = None \<longleftrightarrow> p = None) \<and> configAt F V t q = configAt F V s p \<and>
    (representsConfig F V s p d \<longrightarrow> representsConfig F V t q d) \<and>
    configReach F V t q \<inter> configReach F V s p = {} \<and>
    (\<forall>u. (\<forall>a. a \<notin> configReach F V s p \<longrightarrow> cells u a = cells t a) \<longrightarrow> configAt F V u q = configAt F V s p) \<and>
    (\<forall>u. (\<forall>a. a \<notin> configReach F V t q \<longrightarrow> cells u a = cells t a) \<longrightarrow> configAt F V u p = configAt F V s p)"
proof -
  have run: "DeviceConfig_DeepCopy F rng p s = (q, t)" using assms(4) by (simp add: deepCopyObject_eq)
  note free = deepCopies_independent [OF copies_config_pointer [OF assms(1,2)] assms(3) run]
  have "q = None \<longleftrightarrow> p = None"
    using run by (cases p) (auto simp: DeviceConfig_DeepCopy_def copyPointer_def split: prod.splits)
  with free show ?thesis unfolding representsConfig_def by (metis (no_types, lifting))
qed

lemma deep_copy_independent_witness:
  "\<exists>q t. DeviceConfig_DeepCopyObject exForeign exRange (Some 4) exStore = (Some q, t) \<and>
     configAt exForeign exView t (Some q) = configAt exForeign exView exStore (Some 4) \<and>
     configAt exForeign exView (setCell 1 (StringMap fmempty) t) (Some q) = configAt exForeign exView exStore (Some 4)"
proof -
  have reach: "configReach exForeign exView exStore (Some 4) = {0, 1, 2, 3, 4}"
    by (auto simp: configReach_def footOpt_def footCell_def footConfig_def footBoth_def footSpec_def footList_def footClass_def
        exStore_def exConfig_def exView_def zeroHDeviceConfig_def zeroHSpec_def)
  have bound: "configReach exForeign exView exStore (Some 4) \<subseteq> {..<limit exStore}"
    unfolding reach by (simp add: exStore_def)
  obtain r t where run: "DeviceConfig_DeepCopyObject exForeign exRange (Some 4) exStore = (r, t)" by fastforce
  note free = deep_copy_independent [OF lawfulForeign_ex lawfulRange_ex bound run, of zeroDeviceConfig]
  then obtain q where q: "r = Some q" by blast
  have "\<forall>a. a \<notin> configReach exForeign exView exStore (Some 4) \<longrightarrow> cells (setCell 1 (StringMap fmempty) t) a = cells t a"
    unfolding reach by simp
  with free run show ?thesis unfolding q by blast
qed

text \<open>
  The same holds of a list of DeviceConfigs, whose items each have slices, pointers and
  maps of their own.
\<close>

theorem deep_copy_list_independent:
  assumes "lawfulForeign F V" and "lawfulRange rng" and "listReach F V s p \<subseteq> {..<limit s}"
    and "DeviceConfigList_DeepCopyObject F rng p s = (q, t)"
  shows "(q = None \<longleftrightarrow> p = None) \<and> listAt F V t q = listAt F V s p \<and> listReach F V t q \<inter> listReach F V s p = {} \<and>
    (\<forall>u. (\<forall>a. a \<notin> listReach F V s p \<longrightarrow> cells u a = cells t a) \<longrightarrow> listAt F V u q = listAt F V s p) \<and>
    (\<forall>u. (\<forall>a. a \<notin> listReach F V t q \<longrightarrow> cells u a = cells t a) \<longrightarrow> listAt F V u p = listAt F V s p)"
proof -
  have run: "DeviceConfigList_DeepCopy F rng p s = (q, t)" using assms(4) by (simp add: deepCopyObject_eq)
  note free = deepCopies_independent [OF copies_list_pointer [OF assms(1,2)] assms(3) run]
  have "q = None \<longleftrightarrow> p = None"
    using run by (cases p) (auto simp: DeviceConfigList_DeepCopy_def copyPointer_def split: prod.splits)
  with free show ?thesis by (metis (no_types, lifting))
qed

lemma deep_copy_list_independent_witness:
  "\<exists>q t. DeviceConfigList_DeepCopyObject exForeign exRange (Some 5) exStore = (Some q, t) \<and>
     listAt exForeign exView t (Some q) = listAt exForeign exView exStore (Some 5) \<and>
     listAt exForeign exView (setCell 3 (Classes []) t) (Some q) = listAt exForeign exView exStore (Some 5)"
proof -
  have reach: "listReach exForeign exView exStore (Some 5) = {0, 1, 2, 3, 5, 6}"
    by (auto simp: listReach_def footConfigList_def footOpt_def footCell_def footConfig_def footBoth_def footSpec_def
        footList_def footClass_def exStore_def exConfig_def exView_def zeroHDeviceConfig_def zeroHSpec_def)
  have bound: "listReach exForeign exView exStore (Some 5) \<subseteq> {..<limit exStore}"
    unfolding reach by (simp add: exStore_def)
  obtain r t where run: "DeviceConfigList_DeepCopyObject exForeign exRange (Some 5) exStore = (r, t)" by fastforce
  note free = deep_copy_list_independent [OF lawfulForeign_ex lawfulRange_ex bound run]
  then obtain q where q: "r = Some q" by blast
  have "\<forall>a. a \<notin> listReach exForeign exView exStore (Some 5) \<longrightarrow> cells (setCell 3 (Classes []) t) a = cells t a"
    unfolding reach by simp
  with free run show ?thesis unfolding q by blast
qed

end
