(* ===== verification/Calls.thy ===== *)
theory Calls
  imports Reconciler
begin

text \<open>
  Reconciliations at the granularity of calls to the API server. The environment (other
  controllers, KMM, users, reconciliations for other DeviceConfigs) may act before every
  single call, so that what a handler has listed or read may have changed when it writes.
  Every call of the operator changes at most one object, and \<open>call_write\<close> lists the ways it
  can: this is the guarantee that a reconciliation gives to its environment. A predicate that
  the environment preserves (\<open>stableUnder\<close>) and that survives such writes is kept by every
  operation of the reconciler.
\<close>

section \<open>A client under interference\<close>

definition beforeEach :: "('w \<Rightarrow> 'w) \<Rightarrow> ('w, 'a) io \<Rightarrow> ('w, 'a) io" where
  "beforeEach env m w = m (env w)"

definition interferedApi :: "('w \<Rightarrow> 'w) \<Rightarrow> ('w, 'o) api \<Rightarrow> ('w, 'o) api" where
  "interferedApi env a = \<lparr>
     apiGet = (\<lambda>k. beforeEach env (apiGet a k)),
     apiList = (\<lambda>s. beforeEach env (apiList a s)),
     apiCreateOrPatch = (\<lambda>x f. beforeEach env (apiCreateOrPatch a x f)),
     apiCreateOrUpdate = (\<lambda>x f. beforeEach env (apiCreateOrUpdate a x f)),
     apiPatch = (\<lambda>x y. beforeEach env (apiPatch a x y)),
     apiDelete = (\<lambda>x. beforeEach env (apiDelete a x))\<rparr>"

definition interfered :: "('w \<Rightarrow> 'w) \<Rightarrow> 'w client \<Rightarrow> 'w client" where
  "interfered env c = \<lparr>Nodes = interferedApi env (Nodes c), Modules = interferedApi env (Modules c),
     DaemonSets = interferedApi env (DaemonSets c), Deployments = interferedApi env (Deployments c),
     ConfigMaps = interferedApi env (ConfigMaps c), DeviceConfigs = interferedApi env (DeviceConfigs c)\<rparr>"

lemma interfered_simps [simp]:
  "Nodes (interfered env c) = interferedApi env (Nodes c)"
  "Modules (interfered env c) = interferedApi env (Modules c)"
  "DaemonSets (interfered env c) = interferedApi env (DaemonSets c)"
  "Deployments (interfered env c) = interferedApi env (Deployments c)"
  "ConfigMaps (interfered env c) = interferedApi env (ConfigMaps c)"
  "DeviceConfigs (interfered env c) = interferedApi env (DeviceConfigs c)"
  "apiGet (interferedApi env a) k = beforeEach env (apiGet a k)"
  "apiList (interferedApi env a) s = beforeEach env (apiList a s)"
  "apiCreateOrPatch (interferedApi env a) x f = beforeEach env (apiCreateOrPatch a x f)"
  "apiCreateOrUpdate (interferedApi env a) x f = beforeEach env (apiCreateOrUpdate a x f)"
  "apiPatch (interferedApi env a) x y = beforeEach env (apiPatch a x y)"
  "apiDelete (interferedApi env a) x = beforeEach env (apiDelete a x)"
  by (simp_all add: interfered_def interferedApi_def)

definition stableUnder :: "(cluster \<Rightarrow> bool) \<Rightarrow> ('w \<Rightarrow> cluster) \<Rightarrow> ('w \<Rightarrow> 'w) \<Rightarrow> bool" where
  "stableUnder I cl env \<longleftrightarrow> (\<forall>w. I (cl w) \<longrightarrow> I (cl (env w)))"

lemma triple_before:
  assumes "triple (\<lambda>w. I (cl w)) m Q E" and "stableUnder I cl env"
  shows "triple (\<lambda>w. I (cl w)) (beforeEach env m) Q E"
proof (rule tripleI)
  have env: "I (cl (env w))" if "I (cl w)" for w using assms(2) that by (simp add: stableUnder_def)
  show "Q x w'" if "I (cl w)" and "beforeEach env m w = (Inr x, w')" for w x w'
    using triple_Inr [OF assms(1) env [OF that(1)]] that(2) by (simp add: beforeEach_def)
  show "E e w'" if "I (cl w)" and "beforeEach env m w = (Inl e, w')" for w e w'
    using triple_Inl [OF assms(1) env [OF that(1)]] that(2) by (simp add: beforeEach_def)
qed

lemma keeps_before:
  assumes "keeps (\<lambda>w. I (cl w)) m" and "stableUnder I cl env"
  shows "keeps (\<lambda>w. I (cl w)) (beforeEach env m)"
  using assms unfolding keeps_triple by (rule triple_before)

lemma stable_conj: "stableUnder I cl env \<Longrightarrow> stableUnder (\<lambda>c. I c \<and> b) cl env"
  by (simp add: stableUnder_def)

lemma beforeEach_id [simp]: "beforeEach (\<lambda>w. w) m = m"
  by (simp add: beforeEach_def fun_eq_iff)

lemma interfered_id: "interfered (\<lambda>w. w) c = c"
  by (simp add: interfered_def interferedApi_def)

section \<open>What the writes of a client do\<close>

text \<open>
  Which objects a call changes does not depend on what was read before. \<open>lawfulWrites\<close> asks
  less of a client than \<open>lawfulClient\<close>: its reads may return anything (a cache that lags
  behind), as long as an object read by its name bears this name; a create-or-patch and a
  delete may do anything to the object they are for, and only to it; patches are merged by
  the server.
\<close>

definition silentGet :: "(nsname \<Rightarrow> ('w, 'o) io) \<Rightarrow> ('o \<Rightarrow> ObjectMeta) \<Rightarrow> ('w \<Rightarrow> cluster) \<Rightarrow> bool" where
  "silentGet op meta cl \<longleftrightarrow> (\<forall>k w. cl (snd (op k w)) = cl w \<and> (\<forall>x. fst (op k w) = Inr x \<longrightarrow> keyOf (meta x) = k))"

definition framedWrite :: "('w, 'a) io \<Rightarrow> nsname \<Rightarrow> ('w \<Rightarrow> cluster) \<Rightarrow>
   (cluster \<Rightarrow> nsname \<rightharpoonup> 'o) \<Rightarrow> ((nsname \<rightharpoonup> 'o) \<Rightarrow> cluster \<Rightarrow> cluster) \<Rightarrow> bool" where
  "framedWrite m k cl sel put \<longleftrightarrow> (\<forall>w. \<exists>z. cl (snd (m w)) = put ((sel (cl w))(k := z)) (cl w))"

definition lawfulWrites :: "'w client \<Rightarrow> ('w \<Rightarrow> cluster) \<Rightarrow> bool" where
  "lawfulWrites c cl \<longleftrightarrow>
     (\<forall>w. wellKeyed (cl w)) \<and>
     (\<forall>s w. cl (snd (apiList (Nodes c) s w)) = cl w) \<and>
     silentGet (apiGet (DaemonSets c)) ds_Meta cl \<and> silentGet (apiGet (Modules c)) mod_Meta cl \<and>
     lawfulPatchNode (Nodes c) cl \<and> lawfulPatchDC (DeviceConfigs c) cl \<and>
     (\<forall>x. framedWrite (apiDelete (DaemonSets c) x) (keyOf (ds_Meta x)) cl cl_DaemonSets (\<lambda>m. cl_DaemonSets_update (\<lambda>_. m))) \<and>
     (\<forall>x. framedWrite (apiDelete (Modules c) x) (keyOf (mod_Meta x)) cl cl_Modules (\<lambda>m. cl_Modules_update (\<lambda>_. m))) \<and>
     (\<forall>x f. framedWrite (apiCreateOrPatch (ConfigMaps c) x f) (keyOf (cm_Meta x)) cl cl_ConfigMaps (\<lambda>m. cl_ConfigMaps_update (\<lambda>_. m))) \<and>
     (\<forall>x f. framedWrite (apiCreateOrPatch (Modules c) x f) (keyOf (mod_Meta x)) cl cl_Modules (\<lambda>m. cl_Modules_update (\<lambda>_. m))) \<and>
     (\<forall>x f. framedWrite (apiCreateOrPatch (Deployments c) x f) (keyOf (dep_Meta x)) cl cl_Deployments (\<lambda>m. cl_Deployments_update (\<lambda>_. m))) \<and>
     (\<forall>x f. framedWrite (apiCreateOrPatch (DaemonSets c) x f) (keyOf (ds_Meta x)) cl cl_DaemonSets (\<lambda>m. cl_DaemonSets_update (\<lambda>_. m)))"

lemma lawfulWritesD:
  assumes "lawfulWrites c cl"
  shows "wellKeyed (cl w)" and "cl (snd (apiList (Nodes c) s w)) = cl w"
    and "silentGet (apiGet (DaemonSets c)) ds_Meta cl" and "silentGet (apiGet (Modules c)) mod_Meta cl"
    and "lawfulPatchNode (Nodes c) cl" and "lawfulPatchDC (DeviceConfigs c) cl"
    and "framedWrite (apiDelete (DaemonSets c) ds) (keyOf (ds_Meta ds)) cl cl_DaemonSets (\<lambda>m. cl_DaemonSets_update (\<lambda>_. m))"
    and "framedWrite (apiDelete (Modules c) md) (keyOf (mod_Meta md)) cl cl_Modules (\<lambda>m. cl_Modules_update (\<lambda>_. m))"
    and "framedWrite (apiCreateOrPatch (ConfigMaps c) cm f1) (keyOf (cm_Meta cm)) cl cl_ConfigMaps (\<lambda>m. cl_ConfigMaps_update (\<lambda>_. m))"
    and "framedWrite (apiCreateOrPatch (Modules c) md f2) (keyOf (mod_Meta md)) cl cl_Modules (\<lambda>m. cl_Modules_update (\<lambda>_. m))"
    and "framedWrite (apiCreateOrPatch (Deployments c) dp f3) (keyOf (dep_Meta dp)) cl cl_Deployments (\<lambda>m. cl_Deployments_update (\<lambda>_. m))"
    and "framedWrite (apiCreateOrPatch (DaemonSets c) ds f4) (keyOf (ds_Meta ds)) cl cl_DaemonSets (\<lambda>m. cl_DaemonSets_update (\<lambda>_. m))"
  using assms by (simp_all add: lawfulWrites_def)

lemma lawful_silent:
  assumes "lawfulGet lib op cl sel" and "\<And>w. keyed meta (sel (cl w))"
  shows "silentGet op meta cl"
  unfolding silentGet_def
proof (intro allI)
  fix k w
  from assms(1) [unfolded lawfulGet_def, THEN spec, of k, THEN spec, of w] keyedD [OF assms(2)]
  show "cl (snd (op k w)) = cl w \<and> (\<forall>x. fst (op k w) = Inr x \<longrightarrow> keyOf (meta x) = k)"
    by (auto split: sum.splits)
qed

lemma upsert_framed:
  "lawfulUpsert op meta cl sel put \<Longrightarrow> lens sel put \<Longrightarrow> framedWrite (op x f) (keyOf (meta x)) cl sel put"
  unfolding framedWrite_def using upsert_frame by (metis prod.collapse)

lemma delete_framed:
  assumes "lawfulDelete lib op meta cl sel put" and "lens sel put"
  shows "framedWrite (op x) (keyOf (meta x)) cl sel put"
  unfolding framedWrite_def
proof
  fix w
  have same: "cl w = put ((sel (cl w))(k := sel (cl w) k)) (cl w)" for k using assms(2) by (simp add: lens_def)
  obtain r w' where run: "op x w = (r, w')" by fastforce
  from assms(1) [unfolded lawfulDelete_def Let_def, THEN spec, of x, THEN spec, of w] run
  have "cl w' = cl w \<or> (\<exists>z. cl w' = put ((sel (cl w))(keyOf (meta x) := z)) (cl w))" by (cases r) auto
  with same run show "\<exists>z. cl (snd (op x w)) = put ((sel (cl w))(keyOf (meta x) := z)) (cl w)" by (metis snd_conv)
qed

lemma lawfulClient_writes:
  assumes "lawfulClient lib c cl"
  shows "lawfulWrites c cl"
proof -
  note law = lawfulClientD [OF assms]
  have "keyed ds_Meta (cl_DaemonSets (cl w))" "keyed mod_Meta (cl_Modules (cl w))" for w
    using law(1) by (simp_all add: wellKeyed_def)
  note silent = lawful_silent [OF law(4) this(1)] lawful_silent [OF law(5) this(2)]
  have "cl (snd (apiList (Nodes c) s w)) = cl w" for s w using law(2) by (simp add: lawfulList_def)
  with law(1,3,8) silent show ?thesis unfolding lawfulWrites_def
    by (simp add: delete_framed [OF law(9)] delete_framed [OF law(10)] upsert_framed [OF law(11)]
        upsert_framed [OF law(13)] upsert_framed [OF law(14)] upsert_framed [OF law(15)])
qed

text \<open>A patch of a node.\<close>

lemma patch_merged:
  assumes "lawfulWrites c cl" and "apiPatch (Nodes c) obj base w = (r, w')"
  obtains (same) "cl w' = cl w"
  | (written) srv ts new where "stored (cl w) srv"
    "rewrote srv (mergedLabel (node_Labels base) (node_Labels obj) (node_Labels srv)) ts (cl w) (cl w') new"
    "keyOf (node_Meta srv) = keyOf (node_Meta obj)" "ts = mergedList (node_Taints base) (node_Taints obj) (node_Taints srv)"
proof -
  let ?k = "keyOf (node_Meta obj)"
  from lawfulWritesD(5) [OF assms(1), unfolded lawfulPatchNode_def Let_def, THEN spec, of obj, THEN spec, of base,
      THEN spec, of w] assms(2)
  have "cl w' = cl w \<or> (\<exists>srv new. cl_Nodes (cl w) ?k = Some srv \<and> nodeMerged base obj srv new \<and>
      cl w' = (cl w)\<lparr>cl_Nodes := (cl_Nodes (cl w))(?k \<mapsto> new)\<rparr>)"
    by (cases r) auto
  then show thesis
  proof (elim disjE exE conjE)
    fix srv new assume srv: "cl_Nodes (cl w) ?k = Some srv" and new: "nodeMerged base obj srv new"
      and w': "cl w' = (cl w)\<lparr>cl_Nodes := (cl_Nodes (cl w))(?k \<mapsto> new)\<rparr>"
    have k: "keyOf (node_Meta srv) = ?k" using wellKeyed_key(1) [OF lawfulWritesD(1) [OF assms(1)] srv] .
    note merged = new [unfolded nodeMerged_nodeIs]
    have "cl w' = setNode new (cl w)" using w' nodeIs_key [OF merged] k by (simp add: setNode_def)
    with merged have "rewrote srv (mergedLabel (node_Labels base) (node_Labels obj) (node_Labels srv))
        (mergedList (node_Taints base) (node_Taints obj) (node_Taints srv)) (cl w) (cl w') new"
      by (simp add: rewrote_def)
    moreover have "stored (cl w) srv" using srv k by (simp add: stored_def)
    ultimately show thesis using k by (intro written [OF _ _ _ refl])
  qed (rule same)
qed

lemmas patch_written [consumes 2, case_names same written] = patch_merged [OF lawfulClient_writes]

lemma delete_interfered:
  assumes "\<And>x. framedWrite (op x) (keyOf (meta x)) cl sel put" and "stableUnder I cl env"
    and "\<And>c z. I c \<Longrightarrow> I (put ((sel c)(k := z)) c)"
  shows "triple (\<lambda>w. I (cl w) \<and> keyOf (meta x) = k) (beforeEach env (op x)) (\<lambda>_ w. I (cl w)) (\<lambda>_ w. I (cl w))"
proof (rule triple_before [where I = "\<lambda>c. I c \<and> keyOf (meta x) = k", OF _ stable_conj [OF assms(2)]], rule tripleI)
  fix w r w' assume "I (cl w) \<and> keyOf (meta x) = k" and run: "op x w = (Inr r, w')"
  with assms(3) assms(1) [of x, unfolded framedWrite_def, THEN spec, of w] show "I (cl w')" by auto
next
  fix w e w' assume "I (cl w) \<and> keyOf (meta x) = k" and run: "op x w = (Inl e, w')"
  with assms(3) assms(1) [of x, unfolded framedWrite_def, THEN spec, of w] show "I (cl w')" by auto
qed


section \<open>The writes of single calls\<close>

text \<open>
  The writes that an operation for the DeviceConfig named \<open>NN ns nm\<close> may do: to an object
  that bears its name, which is stored or gone afterwards; to a node, where of the labels
  only the version label of this DeviceConfig can differ; and to the DeviceConfig, where
  only its finalizers can differ.
\<close>

inductive named_write :: "string \<Rightarrow> string \<Rightarrow> cluster \<Rightarrow> cluster \<Rightarrow> bool" for ns nm :: string where
  dockerfile_write: "named_write ns nm c
    (c\<lparr>cl_ConfigMaps := (cl_ConfigMaps c)(NN ns (''dockerfile-'' @ nm) := cm)\<rparr>)"
| module_write: "named_write ns nm c (c\<lparr>cl_Modules := (cl_Modules c)(NN ns nm := m)\<rparr>)"
| scheduler_write: "named_write ns nm c
    (c\<lparr>cl_Deployments := (cl_Deployments c)(NN ns (nm @ ''-custom-scheduler'') := dep)\<rparr>)"
| extension_write: "named_write ns nm c
    (c\<lparr>cl_Deployments := (cl_Deployments c)(NN ns (nm @ ''-custom-scheduler-extension'') := dep)\<rparr>)"
| metrics_write: "named_write ns nm c
    (c\<lparr>cl_DaemonSets := (cl_DaemonSets c)(NN ns (nm @ ''-node-metrics'') := ds)\<rparr>)"

inductive object_write :: "library \<Rightarrow> string \<Rightarrow> string \<Rightarrow> cluster \<Rightarrow> cluster \<Rightarrow> bool"
  for lib :: library and ns nm :: string where
  object_named: "named_write ns nm c c' \<Longrightarrow> object_write lib ns nm c c'"
| object_node: "stored c srv \<Longrightarrow>
    (\<And>k. k \<noteq> getModuleVersionLabelName lib ns nm \<Longrightarrow> ls k = mapGet (node_Labels srv) k) \<Longrightarrow>
    rewrote srv ls ts c c' new \<Longrightarrow> object_write lib ns nm c c'"

inductive finalizers_write :: "string \<Rightarrow> string \<Rightarrow> cluster \<Rightarrow> cluster \<Rightarrow> bool" for ns nm :: string where
  finalizers_stored: "cl_DeviceConfigs c (NN ns nm) = Some d \<Longrightarrow> keyOf (dc_Meta d) = NN ns nm \<Longrightarrow>
    finalizers_write ns nm c (storeDC (setFinalizers fs d) c)"

inductive call_write :: "library \<Rightarrow> string \<Rightarrow> string \<Rightarrow> cluster \<Rightarrow> cluster \<Rightarrow> bool"
  for lib :: library and ns nm :: string where
  call_object: "object_write lib ns nm c c' \<Longrightarrow> call_write lib ns nm c c'"
| call_finalizers: "finalizers_write ns nm c c' \<Longrightarrow> call_write lib ns nm c c'"

inductive_cases named_writeE: "named_write ns nm c c'"
inductive_cases object_writeE: "object_write lib ns nm c c'"
inductive_cases call_writeE: "call_write lib ns nm c c'"

text \<open>Only the last of them touches a DeviceConfig.\<close>

lemma object_write_DeviceConfigs: "object_write lib ns nm c c' \<Longrightarrow> cl_DeviceConfigs c' = cl_DeviceConfigs c"
  by (auto elim!: object_writeE named_writeE simp: rewrote_def)

text \<open>A call that does at most one write of \<open>R\<close>, whatever its outcome.\<close>

definition atMost :: "('w \<Rightarrow> cluster) \<Rightarrow> (cluster \<Rightarrow> cluster \<Rightarrow> bool) \<Rightarrow> ('w, 'a) io \<Rightarrow> bool" where
  "atMost cl R m \<longleftrightarrow> (\<forall>w. cl (snd (m w)) = cl w \<or> R (cl w) (cl (snd (m w))))"

lemma atMostI: "(\<And>w r w'. m w = (r, w') \<Longrightarrow> cl w' = cl w \<or> R (cl w) (cl w')) \<Longrightarrow> atMost cl R m"
  by (auto simp: atMost_def) (metis prod.collapse)

lemma atMost_framed:
  assumes "framedWrite m k cl sel put" and "\<And>c z. R c (put ((sel c)(k := z)) c)"
  shows "atMost cl R m"
  using assms unfolding framedWrite_def atMost_def by metis

lemma atMost_patch:
  assumes "lawfulWrites c cl"
    and "\<And>k. k \<noteq> getModuleVersionLabelName lib ns nm \<Longrightarrow> mapGet (node_Labels obj) k = mapGet (node_Labels base) k"
  shows "atMost cl (object_write lib ns nm) (apiPatch (Nodes c) obj base)"
proof (rule atMostI)
  fix w r w' assume "apiPatch (Nodes c) obj base w = (r, w')"
  with assms(1) show "cl w' = cl w \<or> object_write lib ns nm (cl w) (cl w')"
  proof (cases rule: patch_merged)
    case (written srv ts new)
    from object_node [OF written(1) _ written(2)] assms(2) show ?thesis by (simp add: mergedLabel_def)
  qed simp
qed

lemma atMost_finalizers:
  assumes "lawfulWrites c cl" and "keyOf (dc_Meta d) = NN ns nm"
  shows "atMost cl (finalizers_write ns nm) (apiPatch (DeviceConfigs c) (setFinalizers fs d) d)"
proof (rule atMostI)
  fix w r w' assume run: "apiPatch (DeviceConfigs c) (setFinalizers fs d) d w = (r, w')"
  have "keyOf (dc_Meta (setFinalizers fs d)) = NN ns nm" using assms(2) by (simp add: setFinalizers_def)
  with lawfulWritesD(6) [OF assms(1), unfolded lawfulPatchDC_def Let_def, THEN spec, of "setFinalizers fs d",
      THEN spec, of d, THEN spec, of w] run
  have "cl w' = cl w \<or> (\<exists>srv. cl_DeviceConfigs (cl w) (NN ns nm) = Some srv \<and>
      cl w' = storeDC (dcMerged d (setFinalizers fs d) srv) (cl w))"
    by (cases r) auto
  then show "cl w' = cl w \<or> finalizers_write ns nm (cl w) (cl w')"
    unfolding dcMerged_finalizers
    by (elim disj_forward exE conjE)
       (simp, metis finalizers_stored wellKeyed_key(4) [OF lawfulWritesD(1) [OF assms(1)]])
qed

section \<open>What the operations uphold\<close>

text \<open>A call of the client takes the world from \<open>w\<close> to \<open>w'\<close>.\<close>

inductive apiCalled :: "('w, 'o) api \<Rightarrow> 'w \<Rightarrow> 'w \<Rightarrow> bool" for a :: "('w, 'o) api" where
  "apiCalled a w (snd (apiGet a k w))"
| "apiCalled a w (snd (apiList a s w))"
| "apiCalled a w (snd (apiCreateOrPatch a x f w))"
| "apiCalled a w (snd (apiCreateOrUpdate a x f w))"
| "apiCalled a w (snd (apiPatch a x y w))"
| "apiCalled a w (snd (apiDelete a x w))"

definition calls :: "'w client \<Rightarrow> 'w \<Rightarrow> 'w \<Rightarrow> bool" where
  "calls c w w' \<longleftrightarrow> apiCalled (Nodes c) w w' \<or> apiCalled (Modules c) w w' \<or> apiCalled (DaemonSets c) w w' \<or>
     apiCalled (Deployments c) w w' \<or> apiCalled (ConfigMaps c) w w' \<or> apiCalled (DeviceConfigs c) w w'"

definition isCall :: "'w client \<Rightarrow> ('w, 'a) io \<Rightarrow> bool" where
  "isCall c m \<longleftrightarrow> (\<forall>w. calls c w (snd (m w)))"

lemma isCall_simps [simp]:
  "isCall c (apiList (Nodes c) s)" "isCall c (apiPatch (Nodes c) n n')" "isCall c (apiPatch (DeviceConfigs c) d d')"
  "isCall c (apiCreateOrPatch (ConfigMaps c) cm f1)" "isCall c (apiCreateOrPatch (Modules c) md f2)"
  "isCall c (apiCreateOrPatch (Deployments c) dp f3)" "isCall c (apiCreateOrPatch (DaemonSets c) ds f4)"
  by (simp_all add: isCall_def calls_def apiCalled.intros)

text \<open>
  \<open>upholds c cl env R I\<close>: the environment preserves the predicate \<open>I\<close> of worlds, and so does
  every call of the client that changes nothing in the cluster or does a write of \<open>R\<close>.
\<close>

definition upholds :: "'w client \<Rightarrow> ('w \<Rightarrow> cluster) \<Rightarrow> ('w \<Rightarrow> 'w) \<Rightarrow>
   (cluster \<Rightarrow> cluster \<Rightarrow> bool) \<Rightarrow> ('w \<Rightarrow> bool) \<Rightarrow> bool" where
  "upholds c cl env R I \<longleftrightarrow> lawfulWrites c cl \<and> (\<forall>w. I w \<longrightarrow> I (env w)) \<and>
     (\<forall>w w'. calls c w w' \<longrightarrow> I w \<longrightarrow> cl w' = cl w \<or> R (cl w) (cl w') \<longrightarrow> I w')"

lemma upholdsD:
  assumes "upholds c cl env R I"
  shows "lawfulWrites c cl" and "I w \<Longrightarrow> I (env w)"
    and "calls c w w' \<Longrightarrow> I w \<Longrightarrow> cl w' = cl w \<or> R (cl w) (cl w') \<Longrightarrow> I w'"
  using assms by (auto simp: upholds_def)

lemma upholds_call:
  assumes "upholds c cl env R I" and "atMost cl R m" and "isCall c m"
  shows "keeps I (beforeEach env m)"
  unfolding keeps_def beforeEach_def
proof (intro allI impI)
  fix w assume "I w"
  then have "I (env w)" by (rule upholdsD(2) [OF assms(1)])
  moreover have "calls c (env w) (snd (m (env w)))" using assms(3) by (simp add: isCall_def)
  ultimately show "I (snd (m (env w)))"
    using upholdsD(3) [OF assms(1)] assms(2) unfolding atMost_def by blast
qed

lemma upholds_list:
  assumes "upholds c cl env R I"
  shows "keeps I (beforeEach env (apiList (Nodes c) s))"
  by (rule upholds_call [OF assms]) (simp_all add: atMost_def lawfulWritesD(2) [OF upholdsD(1) [OF assms]])

section \<open>What the operations carry\<close>

text \<open>
  \<open>carries c cl env R I\<close>: the environment preserves \<open>I\<close>, and so does every write of \<open>R\<close>.
\<close>

definition carries :: "'w client \<Rightarrow> ('w \<Rightarrow> cluster) \<Rightarrow> ('w \<Rightarrow> 'w) \<Rightarrow>
   (cluster \<Rightarrow> cluster \<Rightarrow> bool) \<Rightarrow> (cluster \<Rightarrow> bool) \<Rightarrow> bool" where
  "carries c cl env R I \<longleftrightarrow> lawfulWrites c cl \<and> stableUnder I cl env \<and> (\<forall>x x'. I x \<longrightarrow> R x x' \<longrightarrow> I x')"

lemma carriesD:
  assumes "carries c cl env R I"
  shows "lawfulWrites c cl" and "stableUnder I cl env" and "I x \<Longrightarrow> R x x' \<Longrightarrow> I x'"
  using assms by (auto simp: carries_def)

lemma carries_upholds: "carries c cl env R I \<Longrightarrow> upholds c cl env R (\<lambda>w. I (cl w))"
  by (auto simp: carries_def upholds_def stableUnder_def)

lemma carries_mono: "carries c cl env R I \<Longrightarrow> (\<And>x x'. R' x x' \<Longrightarrow> R x x') \<Longrightarrow> carries c cl env R' I"
  unfolding carries_def by blast

lemma carries_writes:
  "carries c cl env (object_write lib ns nm) I \<Longrightarrow> carries c cl env (named_write ns nm) I"
  "carries c cl env (call_write lib ns nm) I \<Longrightarrow> carries c cl env (object_write lib ns nm) I"
  "carries c cl env (call_write lib ns nm) I \<Longrightarrow> carries c cl env (finalizers_write ns nm) I"
  by (erule carries_mono, erule object_named call_object call_finalizers)+

lemmas carries_named = carries_writes(1) and carries_call_object = carries_writes(2)
  and carries_call_finalizers = carries_writes(3)

lemma keeps_call:
  assumes "carries c cl env R I" and "atMost cl R m"
  shows "keeps (\<lambda>w. I (cl w)) (beforeEach env m)"
proof (rule keeps_before [OF _ carriesD(2) [OF assms(1)]])
  show "keeps (\<lambda>w. I (cl w)) m" unfolding keeps_def
    using assms(2) carriesD(3) [OF assms(1)] unfolding atMost_def by metis
qed

text \<open>The operations that write to nodes.\<close>

lemma carries_node:
  assumes "carries c cl env (object_write lib (dc_Namespace d) (dc_Name d)) I"
    and "\<And>k. k \<noteq> versionLabel lib d \<Longrightarrow> mapGet (node_Labels obj) k = mapGet (node_Labels base) k"
  shows "keeps (\<lambda>w. I (cl w)) (beforeEach env (apiPatch (Nodes c) obj base))"
  by (rule keeps_call [OF assms(1) atMost_patch [OF carriesD(1) [OF assms(1)]]]) (rule assms(2))

lemmas carries_list = upholds_list [OF carries_upholds]

lemma KickoffUpgrade_Some: "upgradeImpl_KickoffUpgrade lib c d (Some n) =
    bindE (apiPatch (Nodes c) (nodeSetLabels (Some ((mapGet (node_Labels n))(versionLabel lib d \<mapsto> wanted d))) n) n)
      (\<lambda>node'. ret (Some node'))"
proof -
  have "mapGet (node_Labels n) = (case node_Labels n of None \<Rightarrow> Map.empty | Some m \<Rightarrow> m)"
    by (auto split: option.splits)
  moreover have "(case node_Labels n of None \<Rightarrow> Some Map.empty | Some m \<Rightarrow> Some m) = Some (mapGet (node_Labels n))"
    by (auto split: option.splits)
  ultimately show ?thesis by (simp add: upgradeImpl_KickoffUpgrade_def Let_def)
qed

lemma keeps_upgrade_calls:
  assumes "\<And>s. keeps I (beforeEach env (apiList (Nodes c) s))"
    and "\<And>n ts. keeps I (beforeEach env (apiPatch (Nodes c) (n\<lparr>node_Taints := ts\<rparr>) n))"
    and "\<And>n. keeps I (beforeEach env (apiPatch (Nodes c)
      (nodeSetLabels (Some ((mapGet (node_Labels n))(versionLabel lib d \<mapsto> wanted d))) n) n))"
  shows "keeps I (dcrh_handleModuleVersionUpgrade (operatorHelper lib (interfered env c) f b) d)"
proof -
  let ?c = "interfered env c"
  have "keeps I (upgradeImpl_KickoffUpgrade lib ?c d p)" for p
    by (cases p) (simp_all add: KickoffUpgrade_Some keeps_bind assms(3), simp add: upgradeImpl_KickoffUpgrade_def)
  moreover have "keeps I (upgradeImpl_GetTargetedNodes ?c d)"
    unfolding upgradeImpl_GetTargetedNodes_def interfered_simps by (intro keeps_wrap assms(1))
  moreover have "keeps I (upgradeImpl_UncordonUpgradedNode ?c p)" for p
    unfolding upgradeImpl_UncordonUpgradedNode_def interfered_simps Let_def
    by (cases p) (auto intro!: keeps_bind assms(2))
  moreover have "keeps I (upgradeImpl_CordonNodeForUpgrade lib ?c d p)" for p
    unfolding upgradeImpl_CordonNodeForUpgrade_def interfered_simps Let_def
    by (cases p) (auto intro!: keeps_bind keeps_if assms(2))
  ultimately show ?thesis
    unfolding dcrh_handleModuleVersionUpgrade_def Let_def newHelper_simps NewUpgradeAPI_simps
    by (intro keeps_if keeps_ret keeps_bind keeps_wrap)
qed

lemma carries_upgrade:
  assumes "carries c cl env (object_write lib (dc_Namespace d) (dc_Name d)) I"
  shows "keeps (\<lambda>w. I (cl w)) (dcrh_handleModuleVersionUpgrade (operatorHelper lib (interfered env c) f b) d)"
  by (rule keeps_upgrade_calls; (rule carries_list [OF assms] | rule carries_node [OF assms], simp))

lemma carries_unlabel:
  assumes "carries c cl env (object_write lib (dc_Namespace d) (dc_Name d)) I"
  shows "keeps (\<lambda>w. I (cl w)) (upgradeImpl_RemoveUpgradeLabels lib (interfered env c) d)"
proof -
  have "keeps (\<lambda>w. I (cl w)) (removeLabelLoop (interfered env c) (versionLabel lib d) nodes)" for nodes
  proof (induction nodes)
    case (Cons n nodes)
    show ?case unfolding removeLabelLoop.simps Let_def interfered_simps
      by (intro keeps_bind keeps_wrap carries_node [OF assms] Cons) simp
  qed (simp only: removeLabelLoop.simps keeps_ret)
  then show ?thesis unfolding upgradeImpl_RemoveUpgradeLabels_def Let_def interfered_simps
    by (intro keeps_bind keeps_wrap carries_list [OF assms])
qed

text \<open>The handlers that create or update one kind of object.\<close>

lemma upholds_handlers:
  fixes lib :: library and f :: string and b :: bool
  assumes "upholds c cl env (named_write (dc_Namespace d) (dc_Name d)) I"
  defines "H \<equiv> operatorHelper lib (interfered env c) f b"
  shows "keeps I (dcrh_handleBuildConfigMap H d)"
    and "keeps I (dcrh_handleKMMModule H d)"
    and "keeps I (dcrh_handleCustomScheduler lib H d)"
    and "keeps I (dcrh_handleNodeMetrics H d)"
proof -
  note law = lawfulWritesD [OF upholdsD(1) [OF assms(1)]]
  note call = upholds_call [OF assms(1) atMost_framed]
  show "keeps I (dcrh_handleBuildConfigMap H d)"
    unfolding H_def dcrh_handleBuildConfigMap_def Let_def newHelper_simps interfered_simps
    by (intro keeps_bind keeps_ret call [OF law(9)])
       (use dockerfile_write in \<open>simp_all add: GetDockerfileCMName_def\<close>)
  show "keeps I (dcrh_handleKMMModule H d)"
    unfolding H_def dcrh_handleKMMModule_def Let_def newHelper_simps interfered_simps
    by (intro keeps_bind keeps_ret call [OF law(10)]) (use module_write in simp_all)
  show "keeps I (dcrh_handleCustomScheduler lib H d)"
    unfolding H_def dcrh_handleCustomScheduler_def Let_def newHelper_simps interfered_simps
    by (intro keeps_bind keeps_wrap keeps_ret call [OF law(11)])
       (use scheduler_write extension_write in simp_all)
  show "keeps I (dcrh_handleNodeMetrics H d)"
    unfolding H_def dcrh_handleNodeMetrics_def Let_def newHelper_simps interfered_simps
    by (intro keeps_bind keeps_ret call [OF law(12)]) (use metrics_write in simp_all)
qed

lemmas carries_handlers = upholds_handlers [OF carries_upholds]

section \<open>The finalizer and the finalization\<close>

lemma upholds_finalizers:
  assumes "upholds c cl env (finalizers_write (dc_Namespace d) (dc_Name d)) I"
  shows "keeps I (beforeEach env (apiPatch (DeviceConfigs c) (setFinalizers fs d) d))"
  by (rule upholds_call [OF assms atMost_finalizers [OF upholdsD(1) [OF assms]]]) (simp_all add: keyOf_def)

lemmas carries_finalizers = upholds_finalizers [OF carries_upholds]

lemma patched_key:
  assumes "lawfulWrites c cl" and "apiPatch (DeviceConfigs c) obj base w = (Inr new, w')"
  shows "keyOf (dc_Meta new) = keyOf (dc_Meta obj)"
proof -
  from lawfulWritesD(6) [OF assms(1), unfolded lawfulPatchDC_def Let_def, THEN spec, of obj, THEN spec, of base,
      THEN spec, of w] assms(2) obtain srv where "cl_DeviceConfigs (cl w) (keyOf (dc_Meta obj)) = Some srv"
    "new = dcMerged base obj srv" by auto
  with wellKeyed_key(4) [OF lawfulWritesD(1) [OF assms(1)] this(1)] show ?thesis
    by (simp add: dcMerged_finalizers setFinalizers_def)
qed

lemma upholds_setFinalizer:
  assumes "upholds c cl env (finalizers_write (dc_Namespace d) (dc_Name d)) I"
  shows "triple I (dcrh_setFinalizer lib (operatorHelper lib (interfered env c) f b) d)
    (\<lambda>d' w. I w \<and> keyOf (dc_Meta d') = keyOf (dc_Meta d)) (\<lambda>e w. I w)"
proof -
  have key: "keyOf (dc_Meta (setFinalizers fs d)) = keyOf (dc_Meta d)" for fs by (simp add: setFinalizers_def)
  have "triple I (beforeEach env (apiPatch (DeviceConfigs c) (setFinalizers fs d) d))
      (\<lambda>d' w. I w \<and> keyOf (dc_Meta d') = keyOf (dc_Meta d)) (\<lambda>e w. I w)" for fs
    using upholds_finalizers [OF assms, of fs, unfolded keeps_triple] patched_key [OF upholdsD(1) [OF assms]]
    unfolding triple_def beforeEach_def key [of fs, symmetric] by (fastforce split: prod.splits sum.splits)
  then show ?thesis
    unfolding dcrh_setFinalizer_def Let_def newHelper_simps interfered_simps by (intro triple_if triple_ret) simp_all
qed

lemmas carries_setFinalizer = upholds_setFinalizer [OF carries_upholds]

lemma triple_silent:
  assumes "silentGet op meta cl"
  shows "triple (\<lambda>w. I (cl w)) (op k) (\<lambda>x w. I (cl w) \<and> keyOf (meta x) = k) (\<lambda>e w. I (cl w))"
proof -
  have "cl w' = cl w \<and> (\<forall>x. r = Inr x \<longrightarrow> keyOf (meta x) = k)" if "op k w = (r, w')" for w r w'
    using assms [unfolded silentGet_def, THEN spec, of k, THEN spec, of w] that by simp
  then show ?thesis by (intro tripleI) fastforce+
qed

text \<open>What the finalization needs of an invariant that the environment preserves.\<close>

lemma keeps_finalize_interfered:
  assumes "lawfulWrites c cl" and "stableUnder I cl env"
    and ds: "\<And>x z. I x \<Longrightarrow> I (x\<lparr>cl_DaemonSets := (cl_DaemonSets x)(NN (dc_Namespace d) (dc_Name d @ ''-node-metrics'') := z)\<rparr>)"
    and mods: "\<And>x z. I x \<Longrightarrow> I (x\<lparr>cl_Modules := (cl_Modules x)(NN (dc_Namespace d) (dc_Name d) := z)\<rparr>)"
    and unlabel: "keeps (\<lambda>w. I (cl w)) (upgradeImpl_RemoveUpgradeLabels lib (interfered env c) d)"
    and patch: "\<And>fs. keeps (\<lambda>w. I (cl w)) (beforeEach env (apiPatch (DeviceConfigs c) (setFinalizers fs d) d))"
  shows "keeps (\<lambda>w. I (cl w)) (dcrh_finalizeDeviceConfig lib (operatorHelper lib (interfered env c) f b) d)"
proof -
  let ?I = "\<lambda>w. I (cl w)"
  note law = lawfulWritesD [OF assms(1)] and before = triple_before [OF _ assms(2)]
  have getDS: "triple ?I (beforeEach env (apiGet (DaemonSets c) k)) (\<lambda>x w. ?I w \<and> keyOf (ds_Meta x) = k) (\<lambda>e. ?I)" for k
    by (rule before, rule triple_silent [OF law(3)])
  have getMod: "triple ?I (beforeEach env (apiGet (Modules c) k)) (\<lambda>x w. ?I w \<and> keyOf (mod_Meta x) = k) (\<lambda>e. ?I)" for k
    by (rule before, rule triple_silent [OF law(4)])
  note delDS = delete_interfered [OF law(7) assms(2)] and delMod = delete_interfered [OF law(8) assms(2)]
  have last: "keeps ?I (bindE (wrapE g (upgradeImpl_RemoveUpgradeLabels lib (interfered env c) d))
      (\<lambda>_. beforeEach env (apiPatch (DeviceConfigs c) (setFinalizers fs d) d)))" for g fs
    by (intro keeps_bind keeps_wrap unlabel patch)
  show ?thesis
    unfolding dcrh_finalizeDeviceConfig_def Let_def newHelper_simps NewUpgradeAPI_simps interfered_simps keeps_triple
    by (intro triple_if triple_try [OF getDS] triple_try [OF getMod] triple_bind [OF delDS] triple_try [OF delMod]
        triple_ret triple_fail) (simp_all add: last [unfolded keeps_triple] ds mods)
qed

lemma carries_finalize:
  assumes "carries c cl env (call_write lib (dc_Namespace d) (dc_Name d)) I"
  shows "keeps (\<lambda>w. I (cl w)) (dcrh_finalizeDeviceConfig lib (operatorHelper lib (interfered env c) f b) d)"
proof (rule keeps_finalize_interfered [OF carriesD(1,2) [OF assms]])
  show "I (x\<lparr>cl_DaemonSets := (cl_DaemonSets x)(NN (dc_Namespace d) (dc_Name d @ ''-node-metrics'') := z)\<rparr>)"
    "I (x\<lparr>cl_Modules := (cl_Modules x)(NN (dc_Namespace d) (dc_Name d) := y)\<rparr>)" if "I x" for x z y
    by (rule carriesD(3) [OF assms that], rule call_object, rule object_named, rule metrics_write module_write)+
qed (rule carries_unlabel [OF carries_call_object [OF assms]] carries_finalizers [OF carries_call_finalizers [OF assms]])+

section \<open>The reconciler at the level of calls\<close>

lemma carries_keyed:
  "keyOf (dc_Meta d) = NN ns nm \<Longrightarrow> carries c cl env (call_write lib ns nm) I \<Longrightarrow>
     carries c cl env (call_write lib (dc_Namespace d) (dc_Name d)) I"
  "keyOf (dc_Meta d) = NN ns nm \<Longrightarrow> carries c cl env (object_write lib ns nm) I \<Longrightarrow>
     carries c cl env (object_write lib (dc_Namespace d) (dc_Name d)) I"
  by (simp_all add: keyOf_def)

interpretation called: reconciler_helper "operatorReconciler lib (interfered env c) f b"
  "\<lambda>d. carries c cl env (call_write lib ns nm) I \<longrightarrow> keyOf (dc_Meta d) = NN ns nm"
  "\<lambda>w. carries c cl env (call_write lib ns nm) I \<longrightarrow> I (cl w)"
  for lib c f b cl env ns nm I
proof (cases "carries c cl env (call_write lib ns nm) I")
  case True
  note all = carries_keyed(1) [OF _ True] and objects = carries_call_object [OF carries_keyed(1) [OF _ True]]
  have set: "triple (\<lambda>w. I (cl w)) (dcrh_setFinalizer lib (operatorHelper lib (interfered env c) f b) d)
      (\<lambda>d' w. I (cl w) \<and> keyOf (dc_Meta d') = NN ns nm) (\<lambda>e w. I (cl w))" if "keyOf (dc_Meta d) = NN ns nm" for d
    using carries_setFinalizer [OF carries_call_finalizers [OF all [OF that]], of lib f b] unfolding that .
  show "reconciler_helper (operatorReconciler lib (interfered env c) f b)
     (\<lambda>d. carries c cl env (call_write lib ns nm) I \<longrightarrow> keyOf (dc_Meta d) = NN ns nm)
     (\<lambda>w. carries c cl env (call_write lib ns nm) I \<longrightarrow> I (cl w))"
    by unfold_locales
       (simp_all add: True set carries_upgrade [OF objects] carries_handlers [OF carries_named [OF objects]] carries_finalize [OF all])
next
  case False
  then show "reconciler_helper (operatorReconciler lib (interfered env c) f b)
     (\<lambda>d. carries c cl env (call_write lib ns nm) I \<longrightarrow> keyOf (dc_Meta d) = NN ns nm)
     (\<lambda>w. carries c cl env (call_write lib ns nm) I \<longrightarrow> I (cl w))"
    by unfold_locales (simp_all add: keeps_def triple_def)
qed

text \<open>After setFinalizer, the writes are to objects only.\<close>

interpretation called_objects: reconciler_handlers "operatorReconciler lib (interfered env c) f b"
  "\<lambda>d. carries c cl env (object_write lib ns nm) I \<longrightarrow> keyOf (dc_Meta d) = NN ns nm"
  "\<lambda>w. carries c cl env (object_write lib ns nm) I \<longrightarrow> I (cl w)"
  for lib c f b cl env ns nm I
proof (cases "carries c cl env (object_write lib ns nm) I")
  case True
  note objects = carries_keyed(2) [OF _ True]
  show "reconciler_handlers (operatorReconciler lib (interfered env c) f b)
     (\<lambda>d. carries c cl env (object_write lib ns nm) I \<longrightarrow> keyOf (dc_Meta d) = NN ns nm)
     (\<lambda>w. carries c cl env (object_write lib ns nm) I \<longrightarrow> I (cl w))"
    by unfold_locales (simp_all add: True carries_upgrade [OF objects] carries_handlers [OF carries_named [OF objects]])
next
  case False
  then show "reconciler_handlers (operatorReconciler lib (interfered env c) f b)
     (\<lambda>d. carries c cl env (object_write lib ns nm) I \<longrightarrow> keyOf (dc_Meta d) = NN ns nm)
     (\<lambda>w. carries c cl env (object_write lib ns nm) I \<longrightarrow> I (cl w))"
    by unfold_locales (simp_all add: keeps_def triple_def)
qed

lemma Reconcile_carries:
  assumes "carries c cl env (call_write lib (dc_Namespace d) (dc_Name d)) I" and "I (cl w)"
    and "Reconcile (operatorReconciler lib (interfered env c) f b) d w = (r, w')"
  shows "I (cl w')"
proof -
  have "keyOf (dc_Meta d) = NN (dc_Namespace d) (dc_Name d)" by (simp add: keyOf_def)
  with called.Reconcile_keeps [of c cl env lib "dc_Namespace d" "dc_Name d" I d f b] assms show ?thesis
    unfolding keeps_def by (metis snd_conv)
qed

section \<open>Runs\<close>

text \<open>From one cluster to another by steps of the environment and steps of \<open>G\<close>, in any order.\<close>

definition envStep :: "('w \<Rightarrow> cluster) \<Rightarrow> ('w \<Rightarrow> 'w) \<Rightarrow> cluster \<Rightarrow> cluster \<Rightarrow> bool" where
  "envStep cl env x y \<longleftrightarrow> (\<exists>w. x = cl w \<and> y = cl (env w))"

definition runsAs :: "('w \<Rightarrow> cluster) \<Rightarrow> ('w \<Rightarrow> 'w) \<Rightarrow> (cluster \<Rightarrow> cluster \<Rightarrow> bool) \<Rightarrow> cluster \<Rightarrow> cluster \<Rightarrow> bool" where
  "runsAs cl env G = (\<lambda>x y. envStep cl env x y \<or> G x y)\<^sup>*\<^sup>*"

lemma runsAs_refl [simp]: "runsAs cl env G x x"
  by (simp add: runsAs_def)

lemma runsAs_step: "runsAs cl env G x y \<Longrightarrow> G y z \<Longrightarrow> runsAs cl env G x z"
  unfolding runsAs_def by (rule rtranclp.rtrancl_into_rtrancl) auto

lemma runsAs_env: "runsAs cl env G x (cl w) \<Longrightarrow> runsAs cl env G x (cl (env w))"
  unfolding runsAs_def by (rule rtranclp.rtrancl_into_rtrancl) (auto simp: envStep_def)

lemma runsAs_mono: "runsAs cl env G x y \<Longrightarrow> (\<And>x y. G x y \<Longrightarrow> H x y) \<Longrightarrow> runsAs cl env H x y"
  unfolding runsAs_def by (erule rtranclp_mono [THEN predicate2D, rotated]) blast

lemma runsAs_stable: "stableUnder (runsAs cl env G x) cl env"
  by (simp add: stableUnder_def runsAs_env)

text \<open>A predicate that both kinds of steps preserve holds at the end of a run.\<close>

lemma runsAs_inv:
  assumes "runsAs cl env G x y" and "I x" and "stableUnder I cl env" and "\<And>x y. I x \<Longrightarrow> G x y \<Longrightarrow> I y"
  shows "I y"
  using assms(1) unfolding runsAs_def
proof (induction rule: rtranclp_induct)
  case (step y z)
  with assms(3,4) show ?case unfolding envStep_def stableUnder_def by blast
qed (rule assms(2))

lemma Reconcile_runs:
  assumes "lawfulWrites c cl" and "Reconcile (operatorReconciler lib (interfered env c) f b) d w = (r, w')"
  shows "runsAs cl env (call_write lib (dc_Namespace d) (dc_Name d)) (cl w) (cl w')"
  by (rule Reconcile_carries [OF _ _ assms(2)])
     (auto simp: carries_def assms(1) runsAs_stable intro: runsAs_step)

end
