(* ===== verification/Interleaving.thy ===== *)
theory Interleaving
  imports Calls
begin

text \<open>
  The invariant of the rolling upgrade when the environment may act before every single call
  to the API server (theory Calls), so that what a handler has listed or read may have
  changed when it writes. It survives this (rely/guarantee: the environment is the rely,
  every predicate that a proof carries across a call is stable under it). What it does not
  protect is in theory Hazards.
\<close>

section \<open>The rely\<close>

text \<open>Before a call, the environment takes any number of its steps.\<close>

definition rely :: "library \<Rightarrow> DeviceConfig \<Rightarrow> ('w \<Rightarrow> cluster) \<Rightarrow> ('w \<Rightarrow> 'w) \<Rightarrow> bool" where
  "rely lib d cl env \<longleftrightarrow> (\<forall>w. (env_step lib d)\<^sup>*\<^sup>* (cl w) (cl (env w)))"

section \<open>What is stable\<close>

text \<open>
  The stored DeviceConfig keeps naming the same nodes; and where an upgrade has never run, no
  node has a version label.
\<close>

definition targetKept :: "DeviceConfig \<Rightarrow> cluster \<Rightarrow> bool" where
  "targetKept d0 c \<longleftrightarrow> (\<forall>d. cl_DeviceConfigs c (keyOf (dc_Meta d0)) = Some d \<longrightarrow> sameTarget d0 d)"

definition unlabelledCluster :: "library \<Rightarrow> DeviceConfig \<Rightarrow> cluster \<Rightarrow> bool" where
  "unlabelledCluster lib d c \<longleftrightarrow> (\<forall>n. stored c n \<longrightarrow> mapGet (node_Labels n) (versionLabel lib d) = None)"

lemma unlabelled_serialAll: "unlabelledCluster lib d c \<Longrightarrow> serialAll lib d c"
  by (auto simp: unlabelledCluster_def serialAll_def serial_def mem_inUpgrade)

definition upgradeInv :: "library \<Rightarrow> DeviceConfig \<Rightarrow> cluster \<Rightarrow> bool" where
  "upgradeInv lib d c \<longleftrightarrow> serialAll lib d c \<and> targetKept d c"

text \<open>No targeted node is in upgrade to version \<open>v\<close>.\<close>

definition quiet :: "library \<Rightarrow> DeviceConfig \<Rightarrow> string \<Rightarrow> cluster \<Rightarrow> bool" where
  "quiet lib d v c \<longleftrightarrow> upgradeInv lib d c \<and> inUpgrade lib (withVersion v d) c = {}"

definition pickSafe :: "library \<Rightarrow> DeviceConfig \<Rightarrow> string \<Rightarrow> Node option \<Rightarrow> cluster \<Rightarrow> bool" where
  "pickSafe lib d v p c \<longleftrightarrow> upgradeInv lib d c \<and> (p \<noteq> None \<longrightarrow> quiet lib d v c)"

lemma targetKept_env: "env_step lib d c c' \<Longrightarrow> targetKept d c \<Longrightarrow> targetKept d c'"
  by (induction rule: env_step.induct) (auto simp: targetKept_def rewrote_def)

lemma noneNew_keeps:
  assumes "noneNew lib d c c'" and "targetKept d c \<Longrightarrow> targetKept d c'"
  shows "upgradeInv lib d c \<Longrightarrow> upgradeInv lib d c'" and "quiet lib d v c \<Longrightarrow> quiet lib d v c'"
    and "pickSafe lib d v p c \<Longrightarrow> pickSafe lib d v p c'"
  using assms noneNew_serialAll noneNew_quiet unfolding pickSafe_def quiet_def upgradeInv_def by blast+

lemma env_noneNew:
  assumes "lawfulLabels lib"
  shows "(env_step lib d)\<^sup>*\<^sup>* c c' \<Longrightarrow> noneNew lib d c c' \<and> (targetKept d c \<longrightarrow> targetKept d c')"
proof (induction rule: rtranclp_induct)
  case (step y z)
  with noneNew_trans [OF _ env_step_noneNew [OF assms step(2)]] targetKept_env [OF step(2)] show ?case by blast
qed simp

lemma stable_env:
  assumes "lawfulLabels lib" and "rely lib d cl env"
  shows "stableUnder (upgradeInv lib d) cl env" and "stableUnder (pickSafe lib d v p) cl env"
proof -
  have "noneNew lib d (cl w) (cl (env w)) \<and> (targetKept d (cl w) \<longrightarrow> targetKept d (cl (env w)))" for w
    using assms(2) env_noneNew [OF assms(1)] unfolding rely_def by blast
  with noneNew_keeps show "stableUnder (upgradeInv lib d) cl env" and "stableUnder (pickSafe lib d v p) cl env"
    unfolding stableUnder_def by metis+
qed

section \<open>What the writes to nodes do\<close>

text \<open>A patch that leaves the labels alone, or removes the version label, starts nothing.\<close>

lemma patch_noneNew:
  assumes "lawfulClient lib c cl" and "apiPatch (Nodes c) obj base w = (r, w')"
    and "\<And>k. k \<noteq> versionLabel lib d \<Longrightarrow> mapGet (node_Labels obj) k = mapGet (node_Labels base) k"
    and "mapGet (node_Labels obj) (versionLabel lib d) \<in> {mapGet (node_Labels base) (versionLabel lib d), None}"
  shows "noneNew lib d (cl w) (cl w') \<and> cl_DeviceConfigs (cl w') = cl_DeviceConfigs (cl w)"
  using assms(1,2)
proof (cases rule: patch_written)
  case (written srv ts new)
  let ?ls = "mergedLabel (node_Labels base) (node_Labels obj) (node_Labels srv)"
  have "noneNew lib d (cl w) (cl w')"
  proof (rule rewrote_noneNew [OF written(2,1)])
    fix v assume new: "new \<in> inUpgrade lib (withVersion v d) (cl w')"
    then have "?ls (versionLabel lib d) = Some v" by (simp add: mem_inUpgrade rewrote_labels [OF written(2)])
    then have "mapGet (node_Labels obj) (versionLabel lib d) = mapGet (node_Labels base) (versionLabel lib d)"
      using assms(4) by (auto simp: mergedLabel_def split: if_splits)
    with assms(3) have "?ls k = mapGet (node_Labels srv) k" for k
      by (cases "k = versionLabel lib d") (simp_all add: mergedLabel_def)
    then have eq: "mapGet (node_Labels new) k = mapGet (node_Labels srv) k" for k
      by (simp add: rewrote_labels [OF written(2)])
    from new written(1) show "srv \<in> inUpgrade lib (withVersion v d) (cl w)"
      by (simp add: mem_inUpgrade eq selects_cong [OF eq])
  qed
  with written(2) show ?thesis by (simp add: rewrote_def)
qed simp

lemma keeps_patch:
  assumes "lawfulClient lib c cl"
    and "\<And>k. k \<noteq> versionLabel lib d \<Longrightarrow> mapGet (node_Labels obj) k = mapGet (node_Labels base) k"
    and "mapGet (node_Labels obj) (versionLabel lib d) \<in> {mapGet (node_Labels base) (versionLabel lib d), None}"
  shows "keeps (\<lambda>w. pickSafe lib d v p (cl w)) (apiPatch (Nodes c) obj base)"
    and "keeps (\<lambda>w. upgradeInv lib d (cl w)) (apiPatch (Nodes c) obj base)"
proof -
  have "noneNew lib d (cl w) (cl w') \<and> (targetKept d (cl w) \<longrightarrow> targetKept d (cl w'))"
    if "apiPatch (Nodes c) obj base w = (r, w')" for r w w'
    using patch_noneNew [OF assms(1) that assms(2,3)] by (simp add: targetKept_def)
  then show "keeps (\<lambda>w. pickSafe lib d v p (cl w)) (apiPatch (Nodes c) obj base)"
    and "keeps (\<lambda>w. upgradeInv lib d (cl w)) (apiPatch (Nodes c) obj base)"
    unfolding keeps_def by (metis noneNew_keeps(3) prod.collapse, metis noneNew_keeps(1) prod.collapse)
qed

text \<open>A patch that asks for version \<open>v\<close> may start one node, when none is in upgrade to it.\<close>

lemma start_keeps:
  assumes "lawfulClient lib c cl" and "apiPatch (Nodes c) obj base w = (r, w')"
    and "\<And>k. mapGet (node_Labels obj) k = ((mapGet (node_Labels base))(versionLabel lib d \<mapsto> v)) k"
    and "quiet lib d v (cl w)"
  shows "upgradeInv lib d (cl w')"
  using assms(1,2)
proof (cases rule: patch_written)
  case same
  with assms(4) show ?thesis by (simp add: quiet_def)
next
  case (written srv ts new)
  let ?ls = "mergedLabel (node_Labels base) (node_Labels obj) (node_Labels srv)"
  have "serial lib (withVersion u d) (cl w')" for u
  proof (rule rewrote_serial [OF written(2)])
    show s: "serial lib (withVersion u d) (cl w)" using assms(4) by (simp add: quiet_def upgradeInv_def serialAll_def)
    assume new: "new \<in> inUpgrade lib (withVersion u d) (cl w')"
    then have at: "?ls (versionLabel lib d) = Some u" by (simp add: mem_inUpgrade rewrote_labels [OF written(2)])
    show "inUpgrade lib (withVersion u d) (cl w) \<subseteq> {srv}"
    proof (cases "u = v")
      case True
      with assms(4) show ?thesis by (simp add: quiet_def)
    next
      case False
      with at have "mapGet (node_Labels srv) (versionLabel lib d) = Some u"
        by (auto simp: mergedLabel_def assms(3) split: if_splits)
      with at have "?ls k = mapGet (node_Labels srv) k" for k
        by (cases "k = versionLabel lib d") (simp_all add: mergedLabel_def assms(3))
      then have eq: "mapGet (node_Labels new) k = mapGet (node_Labels srv) k" for k
        by (simp add: rewrote_labels [OF written(2)])
      from new written(1) have "srv \<in> inUpgrade lib (withVersion u d) (cl w)"
        by (simp add: mem_inUpgrade eq selects_cong [OF eq])
      with s show ?thesis by (auto simp: serial_def)
    qed
  qed
  moreover have "targetKept d (cl w')" using assms(4) written(2)
    by (simp add: quiet_def upgradeInv_def targetKept_def rewrote_def)
  ultimately show ?thesis by (simp add: upgradeInv_def serialAll_def)
qed

section \<open>The upgrade handler under interference\<close>

lemma upgradeInv_sameTarget:
  assumes "sameTarget d0 d"
  shows "upgradeInv lib d = upgradeInv lib d0" and "pickSafe lib d = pickSafe lib d0"
proof -
  have "targetKept d c \<longleftrightarrow> targetKept d0 c" for c using assms by (simp add: targetKept_def sameTarget_def)
  then show "upgradeInv lib d = upgradeInv lib d0" and "pickSafe lib d = pickSafe lib d0"
    by (simp_all add: fun_eq_iff pickSafe_def quiet_def upgradeInv_def serialAll_sameTarget [OF assms]
        inUpgrade_sameTarget [OF assms])
qed

lemma pickSafe_None [simp]: "pickSafe lib d v None = upgradeInv lib d"
  by (simp add: fun_eq_iff pickSafe_def)

lemma pickSafe_inv: "pickSafe lib d v p c \<Longrightarrow> upgradeInv lib d c"
  by (simp add: pickSafe_def)

lemma pickSafe_pick:
  assumes "set ns = targetedNodes d c" and "upgradeInv lib d c"
  shows "pickSafe lib d (wanted d) (upgradeImpl_GetNodeForUpgrade lib d ns) c"
proof -
  have "inUpgrade lib d c = {}" if some: "upgradeImpl_GetNodeForUpgrade lib d ns = Some n" for n
  proof -
    have "getNodeUpgradeState lib m d \<noteq> nodeInUpgrade" if "m \<in> set ns" for m
      using ui.pick [unfolded NewUpgradeAPI_simps, OF some] that by force
    with assms(1) show ?thesis by (auto simp: inUpgrade_def)
  qed
  with assms(2) show ?thesis by (auto simp: pickSafe_def quiet_def inUpgrade_own)
qed

lemma targeted_interfered:
  assumes "lawfulClient lib c cl" and "stableUnder (upgradeInv lib d) cl env"
  shows "triple (\<lambda>w. upgradeInv lib d (cl w)) (upgradeImpl_GetTargetedNodes (interfered env c) d)
    (\<lambda>ns w. pickSafe lib d (wanted d) (upgradeImpl_GetNodeForUpgrade lib d ns) (cl w))
    (\<lambda>e w. upgradeInv lib d (cl w))"
  unfolding upgradeImpl_GetTargetedNodes_def interfered_simps
proof (rule triple_wrap, rule triple_before [OF tripleI assms(2)])
  fix w ns w' assume "upgradeInv lib d (cl w)" and l: "apiList (Nodes c) (Selector (dc_Spec d)) w = (Inr ns, w')"
  with lawful_list_nodes [OF assms(1) l] show "pickSafe lib d (wanted d) (upgradeImpl_GetNodeForUpgrade lib d ns) (cl w')"
    by (intro pickSafe_pick) (auto simp: targetedNodes_def)
next
  fix w e w' assume "upgradeInv lib d (cl w)" and l: "apiList (Nodes c) (Selector (dc_Spec d)) w = (Inl e, w')"
  with lawful_list_nodes(1) [OF assms(1) l] show "upgradeInv lib d (cl w')" by simp
qed

lemma uncordon_interfered:
  assumes "lawfulClient lib c cl" and "stableUnder (pickSafe lib d v p) cl env"
  shows "keeps (\<lambda>w. pickSafe lib d v p (cl w)) (upgradeImpl_UncordonUpgradedNode (interfered env c) q)"
  unfolding upgradeImpl_UncordonUpgradedNode_def Let_def interfered_simps
  by (cases q) (auto intro!: keeps_bind keeps_before [where I = "pickSafe lib d v p", OF _ assms(2)]
    keeps_patch(1) [OF assms(1)])

lemma cordon_interfered:
  assumes "lawfulClient lib c cl" and "stableUnder (pickSafe lib d v p) cl env"
  shows "triple (\<lambda>w. pickSafe lib d v p (cl w)) (upgradeImpl_CordonNodeForUpgrade lib (interfered env c) d p)
    (\<lambda>q w. pickSafe lib d v q (cl w)) (\<lambda>e w. pickSafe lib d v p (cl w))"
proof (cases p)
  case None
  then show ?thesis by (simp add: upgradeImpl_CordonNodeForUpgrade_def triple_ret)
next
  case (Some n)
  have same: "pickSafe lib d v (Some m) = pickSafe lib d v p" for m by (simp add: fun_eq_iff pickSafe_def Some)
  have "keeps (\<lambda>w. pickSafe lib d v p (cl w)) (beforeEach env (apiPatch (Nodes c) (n\<lparr>node_Taints := ts\<rparr>) n))" for ts
    by (rule keeps_before [OF keeps_patch(1) [OF assms(1)] assms(2)]) simp_all
  then show ?thesis
    unfolding upgradeImpl_CordonNodeForUpgrade_def Let_def interfered_simps Some option.case
    by (intro triple_if triple_bind [where R = "\<lambda>_ w. pickSafe lib d v p (cl w)"] triple_ret)
       (simp_all add: same keeps_triple flip: Some)
qed

lemma kickoff_interfered:
  assumes "lawfulClient lib c cl" and "stableUnder (pickSafe lib d (wanted d) p) cl env"
  shows "triple (\<lambda>w. pickSafe lib d (wanted d) p (cl w)) (upgradeImpl_KickoffUpgrade lib (interfered env c) d p)
    (\<lambda>q w. upgradeInv lib d (cl w)) (\<lambda>e w. upgradeInv lib d (cl w))"
proof (cases p)
  case None
  then show ?thesis by (simp add: upgradeImpl_KickoffUpgrade_def triple_ret)
next
  case (Some n)
  let ?obj = "nodeSetLabels (Some ((mapGet (node_Labels n))(versionLabel lib d \<mapsto> wanted d))) n"
  have "triple (\<lambda>w. pickSafe lib d (wanted d) p (cl w)) (beforeEach env (apiPatch (Nodes c) ?obj n))
      (\<lambda>_ w. upgradeInv lib d (cl w)) (\<lambda>_ w. upgradeInv lib d (cl w))"
    by (rule triple_before [OF tripleI assms(2)]; rule start_keeps [OF assms(1)], assumption)
       (auto simp: pickSafe_def Some)
  then show ?thesis unfolding Some KickoffUpgrade_Some interfered_simps by (simp add: triple_bind triple_ret)
qed

lemma upgrade_interfered:
  assumes "lawfulClient lib c cl" and "stableUnder (upgradeInv lib d) cl env" and "\<And>v p. stableUnder (pickSafe lib d v p) cl env"
  shows "keeps (\<lambda>w. upgradeInv lib d (cl w))
    (dcrh_handleModuleVersionUpgrade (operatorHelper lib (interfered env c) f b) d)"
proof -
  let ?I = "\<lambda>w. upgradeInv lib d (cl w)" and ?S = "\<lambda>p w. pickSafe lib d (wanted d) p (cl w)"
  let ?c = "interfered env c"
  have kick: "triple (?S q) (bindE (upgradeImpl_KickoffUpgrade lib ?c d q) (\<lambda>_. ret ())) (\<lambda>_. ?I) (\<lambda>_. ?I)" for q
    by (rule triple_bind [OF kickoff_interfered [OF assms(1,3)]]) (simp add: triple_ret)
  have cordon: "triple (?S p) (wrapE h (upgradeImpl_CordonNodeForUpgrade lib ?c d p)) ?S (\<lambda>_. ?I)" for h p
    by (rule triple_wrap, rule triple_conseq [OF cordon_interfered [OF assms(1,3)]]) (auto dest: pickSafe_inv)
  have uncordon: "triple (?S p) (wrapE g (upgradeImpl_UncordonUpgradedNode ?c q)) (\<lambda>_. ?S p) (\<lambda>_. ?I)" for g p q
    by (rule triple_wrap, rule triple_conseq [OF uncordon_interfered [OF assms(1,3), unfolded keeps_triple]])
       (auto dest: pickSafe_inv)
  show ?thesis
    unfolding keeps_triple dcrh_handleModuleVersionUpgrade_def Let_def newHelper_simps NewUpgradeAPI_simps
    by (rule triple_if, simp add: triple_ret)
       (rule triple_bind [OF triple_wrap [OF targeted_interfered [OF assms(1,2)]]
          triple_bind [OF uncordon triple_bind [OF cordon kick]]])
qed

section \<open>The other operations under interference\<close>

lemma serialAll_cong: "cl_Nodes c' = cl_Nodes c \<Longrightarrow> serialAll lib d c' \<longleftrightarrow> serialAll lib d c"
  by (simp add: serialAll_def serial_def mem_inUpgrade stored_def)

lemma sameTarget_setFinalizers [simp]:
  "sameTarget d (setFinalizers fs d') = sameTarget d d'"
  by (simp add: sameTarget_def setFinalizers_def)

lemma upgradeInv_frame [simp]:
  "upgradeInv lib d (c\<lparr>cl_ConfigMaps := cms\<rparr>) = upgradeInv lib d c"
  "upgradeInv lib d (c\<lparr>cl_Modules := ms\<rparr>) = upgradeInv lib d c"
  "upgradeInv lib d (c\<lparr>cl_Deployments := deps\<rparr>) = upgradeInv lib d c"
  "upgradeInv lib d (c\<lparr>cl_DaemonSets := dss\<rparr>) = upgradeInv lib d c"
  by (simp_all add: upgradeInv_def targetKept_def serialAll_def serial_def mem_inUpgrade stored_def)

lemma upgradeInv_storeDC:
  assumes "upgradeInv lib d c" and "cl_DeviceConfigs c (keyOf (dc_Meta d)) = Some d'"
    and "keyOf (dc_Meta d') = keyOf (dc_Meta d)"
  shows "upgradeInv lib d (storeDC (setFinalizers fs d') c) \<and> sameTarget d d'"
proof -
  have d': "sameTarget d d'" using assms(1,2) by (simp add: upgradeInv_def targetKept_def)
  have "keyOf (dc_Meta (setFinalizers fs d')) = keyOf (dc_Meta d)"
    using assms(3) by (simp add: setFinalizers_def)
  with d' have "targetKept d (storeDC (setFinalizers fs d') c)" by (simp add: targetKept_def storeDC_def)
  moreover have "serialAll lib d (storeDC (setFinalizers fs d') c)"
    using assms(1) serialAll_cong [of "storeDC (setFinalizers fs d') c" c] by (simp add: upgradeInv_def storeDC_def)
  ultimately show ?thesis using d' by (simp add: upgradeInv_def)
qed

lemma unlabel_interfered:
  assumes "lawfulClient lib c cl" and "stableUnder (upgradeInv lib d) cl env"
  shows "keeps (\<lambda>w. upgradeInv lib d (cl w)) (upgradeImpl_RemoveUpgradeLabels lib (interfered env c) d)"
proof -
  have loop: "keeps (\<lambda>w. upgradeInv lib d (cl w)) (removeLabelLoop (interfered env c) (versionLabel lib d) ns)" for ns
  proof (induction ns)
    case (Cons n ns)
    show ?case unfolding removeLabelLoop.simps Let_def interfered_simps
      by (intro keeps_bind keeps_wrap keeps_before [OF keeps_patch(2) [OF assms(1)] assms(2)] Cons)
         simp_all
  qed (simp only: removeLabelLoop.simps keeps_ret)
  have "keeps (\<lambda>w. upgradeInv lib d (cl w)) (apiList (Nodes c) s)" for s
    using lawful_list_nodes(1) [OF assms(1)] unfolding keeps_def by (metis prod.collapse)
  from keeps_before [OF this assms(2)] loop show ?thesis
    unfolding upgradeImpl_RemoveUpgradeLabels_def Let_def interfered_simps by (intro keeps_bind keeps_wrap)
qed

lemma writes_interfered:
  fixes f :: string and b :: bool
  assumes "lawfulClient lib c cl" and "stableUnder (upgradeInv lib d) cl env"
  defines "H \<equiv> operatorHelper lib (interfered env c) f b"
  shows "keeps (\<lambda>w. upgradeInv lib d (cl w)) (dcrh_handleBuildConfigMap H d')"
    and "keeps (\<lambda>w. upgradeInv lib d (cl w)) (dcrh_handleKMMModule H d')"
    and "keeps (\<lambda>w. upgradeInv lib d (cl w)) (dcrh_handleCustomScheduler lib H d')"
    and "keeps (\<lambda>w. upgradeInv lib d (cl w)) (dcrh_handleNodeMetrics H d')"
  unfolding H_def dcrh_handleBuildConfigMap_def dcrh_handleKMMModule_def dcrh_handleCustomScheduler_def
    dcrh_handleNodeMetrics_def Let_def newHelper_simps interfered_simps
  by (intro keeps_bind keeps_ret keeps_wrap keeps_before [OF _ assms(2)]
      keeps_upsert [OF lawfulClientD(11) [OF assms(1)]] keeps_upsert [OF lawfulClientD(13) [OF assms(1)]]
      keeps_upsert [OF lawfulClientD(14) [OF assms(1)]] keeps_upsert [OF lawfulClientD(15) [OF assms(1)]]; simp)+

lemma setFinalizer_interfered:
  assumes "lawfulClient lib c cl" and "stableUnder (upgradeInv lib d0) cl env" and "sameTarget d0 d"
  shows "triple (\<lambda>w. upgradeInv lib d0 (cl w)) (dcrh_setFinalizer lib (operatorHelper lib (interfered env c) f b) d)
    (\<lambda>d' w. upgradeInv lib d0 (cl w) \<and> sameTarget d0 d') (\<lambda>e w. upgradeInv lib d0 (cl w))"
proof -
  have key: "keyOf (dc_Meta (setFinalizers fs d)) = keyOf (dc_Meta d0)" for fs
    using assms(3) by (simp add: setFinalizers_def sameTarget_def)
  have "triple (\<lambda>w. upgradeInv lib d0 (cl w)) (apiPatch (DeviceConfigs c) (setFinalizers fs d) d)
      (\<lambda>d' w. upgradeInv lib d0 (cl w) \<and> sameTarget d0 d') (\<lambda>e w. upgradeInv lib d0 (cl w))" for fs
    by (rule triple_conseq [OF triple_patchDC [OF assms(1), where Q = "sameTarget d0"]])
       (use upgradeInv_storeDC in \<open>auto simp: key\<close>)
  from triple_before [OF this assms(2)] show ?thesis
    unfolding dcrh_setFinalizer_def Let_def newHelper_simps interfered_simps
    by (intro triple_if triple_ret) (simp_all add: assms(3))
qed

lemma finalize_interfered:
  assumes "lawfulClient lib c cl" and "stableUnder (upgradeInv lib d) cl env"
  shows "keeps (\<lambda>w. upgradeInv lib d (cl w)) (dcrh_finalizeDeviceConfig lib (operatorHelper lib (interfered env c) f b) d)"
proof (rule keeps_finalize_interfered [OF lawfulClient_writes [OF assms(1)] assms(2)])
  have key: "keyOf (dc_Meta (setFinalizers fs d)) = keyOf (dc_Meta d)" for fs by (simp add: setFinalizers_def)
  show "keeps (\<lambda>w. upgradeInv lib d (cl w)) (beforeEach env (apiPatch (DeviceConfigs c) (setFinalizers fs d) d))" for fs
    by (rule keeps_before [OF keeps_patchDC [OF assms(1)] assms(2)]) (use upgradeInv_storeDC in \<open>auto simp: key\<close>)
qed (simp_all add: unlabel_interfered [OF assms])

section \<open>The operator under interference\<close>

definition interference :: "library \<Rightarrow> 'w client \<Rightarrow> ('w \<Rightarrow> cluster) \<Rightarrow> ('w \<Rightarrow> 'w) \<Rightarrow> DeviceConfig \<Rightarrow> bool" where
  "interference lib c cl env d0 \<longleftrightarrow> lawfulClient lib c cl \<and> lawfulLabels lib \<and> rely lib d0 cl env"

interpretation interleaved: reconciler_helper "operatorReconciler lib (interfered env c) f b"
  "\<lambda>d. interference lib c cl env d0 \<longrightarrow> sameTarget d0 d"
  "\<lambda>w. interference lib c cl env d0 \<longrightarrow> upgradeInv lib d0 (cl w)"
  for lib c f b cl env d0
proof (cases "interference lib c cl env d0")
  case True
  then have law: "lawfulClient lib c cl" and st: "stableUnder (upgradeInv lib d0) cl env" "\<And>v p. stableUnder (pickSafe lib d0 v p) cl env"
    by (simp_all add: interference_def stable_env)
  let ?H = "operatorHelper lib (interfered env c) f b"
  have own: "keeps (\<lambda>w. upgradeInv lib d0 (cl w)) (dcrh_handleModuleVersionUpgrade ?H d)"
    "keeps (\<lambda>w. upgradeInv lib d0 (cl w)) (dcrh_finalizeDeviceConfig lib ?H d)" if "sameTarget d0 d" for d
    using upgrade_interfered [OF law, of d env f b] finalize_interfered [OF law, of d env f b] st
    by (simp_all add: upgradeInv_sameTarget [OF that])
  show "reconciler_helper (operatorReconciler lib (interfered env c) f b)
     (\<lambda>d. interference lib c cl env d0 \<longrightarrow> sameTarget d0 d)
     (\<lambda>w. interference lib c cl env d0 \<longrightarrow> upgradeInv lib d0 (cl w))"
    by unfold_locales (simp_all add: True own writes_interfered [OF law st(1)] setFinalizer_interfered [OF law st(1)])
next
  case False
  then show "reconciler_helper (operatorReconciler lib (interfered env c) f b)
     (\<lambda>d. interference lib c cl env d0 \<longrightarrow> sameTarget d0 d)
     (\<lambda>w. interference lib c cl env d0 \<longrightarrow> upgradeInv lib d0 (cl w))"
    by unfold_locales (simp_all add: keeps_def triple_def)
qed

text \<open>
  Reconciliations with any environment that keeps to the rely acting before each call, and
  the environment between reconciliations.
\<close>

inductive interleaving ::
  "library \<Rightarrow> 'w client \<Rightarrow> ('w \<Rightarrow> cluster) \<Rightarrow> string \<Rightarrow> bool \<Rightarrow> DeviceConfig \<Rightarrow> 'w \<Rightarrow> 'w \<Rightarrow> bool"
  for lib :: library and c :: "'w client" and cl :: "'w \<Rightarrow> cluster" and f :: string and b :: bool
    and d0 :: DeviceConfig where
  reconcile_among: "sameTarget d0 d \<Longrightarrow> rely lib d0 cl env \<Longrightarrow>
    Reconcile (operatorReconciler lib (interfered env c) f b) d w = (r, w') \<Longrightarrow> interleaving lib c cl f b d0 w w'"
| environment_between: "env_step lib d0 (cl w) (cl w') \<Longrightarrow> interleaving lib c cl f b d0 w w'"

lemma interleaving_inv:
  assumes "lawfulClient lib c cl" and "lawfulLabels lib"
  shows "interleaving lib c cl f b d0 w w' \<Longrightarrow> upgradeInv lib d0 (cl w) \<Longrightarrow> upgradeInv lib d0 (cl w')"
proof (induction rule: interleaving.induct)
  case (reconcile_among d env w r w')
  then have i: "interference lib c cl env d0" using assms by (simp add: interference_def)
  with interleaved.Reconcile_keeps [of lib c cl env d0 d f b] reconcile_among show ?case
    by (auto simp: keeps_def dest: spec [of _ w])
next
  case (environment_between w w')
  with noneNew_keeps(1) [OF env_step_noneNew [OF assms(2)] targetKept_env] show ?case by blast
qed

lemma interleavings_inv:
  assumes "lawfulClient lib c cl" and "lawfulLabels lib"
    and "(interleaving lib c cl f b d0)\<^sup>*\<^sup>* w w'" and "upgradeInv lib d0 (cl w)"
  shows "upgradeInv lib d0 (cl w')"
  using assms(3,4) by (induction rule: rtranclp_induct) (use interleaving_inv [OF assms(1,2)] in blast)+

text \<open>
  The coarser view, in which a reconciliation is not interrupted, is the case of an
  environment that does nothing before a call.
\<close>

inductive system ::
  "library \<Rightarrow> 'w client \<Rightarrow> ('w \<Rightarrow> cluster) \<Rightarrow> string \<Rightarrow> bool \<Rightarrow> DeviceConfig \<Rightarrow> 'w \<Rightarrow> 'w \<Rightarrow> bool"
  for lib :: library and c :: "'w client" and cl :: "'w \<Rightarrow> cluster" and f :: string and b :: bool
    and d0 :: DeviceConfig where
  reconcile: "sameTarget d0 d \<Longrightarrow> Reconcile (operatorReconciler lib c f b) d w = (r, w') \<Longrightarrow>
    system lib c cl f b d0 w w'"
| environment: "env_step lib d0 (cl w) (cl w') \<Longrightarrow> system lib c cl f b d0 w w'"

lemma system_interleaving: "system lib c cl f b d0 w w' \<Longrightarrow> interleaving lib c cl f b d0 w w'"
proof (induction rule: system.induct)
  case (reconcile d w r w')
  then show ?case
    by (intro reconcile_among [where env = "\<lambda>w. w"]) (simp_all add: interfered_id rely_def)
qed (rule environment_between)

lemma one_node_in_upgrade:
  assumes "lawfulClient lib c cl" and "lawfulLabels lib"
    and "unlabelledCluster lib d0 (cl w)" and "targetKept d0 (cl w)"
    and "(system lib c cl f b d0)\<^sup>*\<^sup>* w w'"
    and "sameTarget d0 d" and "n \<in> inUpgrade lib d (cl w')" and "m \<in> inUpgrade lib d (cl w')"
  shows "n = m"
proof -
  have "(interleaving lib c cl f b d0)\<^sup>*\<^sup>* w w'"
    using assms(5) by (rule rtranclp_mono [THEN predicate2D, rotated]) (blast intro: system_interleaving)
  from interleavings_inv [OF assms(1,2) this] unlabelled_serialAll [OF assms(3)] assms(4)
  have "serial lib d (cl w')"
    by (simp add: upgradeInv_def serialAll_serial serialAll_sameTarget [OF assms(6), symmetric])
  with assms(7,8) show ?thesis by (simp add: serial_def)
qed

section \<open>A run under interference\<close>

text \<open>
  Two fresh nodes, and an environment that, before each call, lets a third one join or leave
  again; when the first node is started, the cluster is no longer the one that was listed.
\<close>

definition toggled :: "Node list \<Rightarrow> Node list" where
  "toggled ns = (case lookup node_Meta ns (NN [] ''c'') of
     None \<Rightarrow> putObj node_Meta (exFresh ''c'') ns | Some _ \<Rightarrow> removeKey node_Meta (NN [] ''c'') ns)"

definition exToggle :: "mem \<Rightarrow> mem" where
  "exToggle w = w\<lparr>m_Nodes := toggled (m_Nodes w)\<rparr>"

lemma exToggle_rely:
  assumes "versionLabel memLib d \<noteq> ''neuron''"
  shows "rely memLib d memCluster exToggle"
  unfolding rely_def
proof (intro allI r_into_rtranclp)
  fix w
  show "env_step memLib d (memCluster w) (memCluster (exToggle w))"
  proof (cases "lookup node_Meta (m_Nodes w) (NN [] ''c'')")
    case None
    then have "memCluster (exToggle w) = setNode (exFresh ''c'') (memCluster w)"
      by (simp add: exToggle_def toggled_def memCluster_def lookup_putObj setNode_def)
    with None assms show ?thesis by (simp add: env_join memCluster_def)
  next
    case (Some n)
    then have "memCluster (exToggle w) = (memCluster w)\<lparr>cl_Nodes := (cl_Nodes (memCluster w))(NN [] ''c'' := None)\<rparr>"
      by (simp add: exToggle_def toggled_def memCluster_def lookup_removeKey)
    then show ?thesis by (simp only: env_leave)
  qed
qed

abbreviation exAmong :: "mem deviceConfigReconcilerHelper" where
  "exAmong \<equiv> operatorHelper memLib (interfered exToggle memClient) ''FROM'' False"

text \<open>A handler with one call runs in the world that the environment left to it.\<close>

lemma interfered_single:
  "dcrh_handleBuildConfigMap (operatorHelper lib (interfered env c) f b) d w =
     dcrh_handleBuildConfigMap (operatorHelper lib c f b) d (env w)"
  "dcrh_handleKMMModule (operatorHelper lib (interfered env c) f b) d w =
     dcrh_handleKMMModule (operatorHelper lib c f b) d (env w)"
  "dcrh_handleNodeMetrics (operatorHelper lib (interfered env c) f b) d w =
     dcrh_handleNodeMetrics (operatorHelper lib c f b) d (env w)"
  by (simp_all add: dcrh_handleBuildConfigMap_def dcrh_handleKMMModule_def dcrh_handleNodeMetrics_def
      Let_def bindE_def beforeEach_def)

lemma toggled_ex [simp]:
  "toggled [exFresh ''a'', exFresh ''b''] = [exFresh ''c'', exFresh ''a'', exFresh ''b'']"
  "toggled [exFresh ''c'', exFresh ''a'', exFresh ''b''] = [exFresh ''a'', exFresh ''b'']"
  "toggled [exStarted ''b'', exFresh ''c'', exFresh ''a''] = [exStarted ''b'', exFresh ''a'']"
  "toggled [exStarted ''b'', exFresh ''a''] = [exFresh ''c'', exStarted ''b'', exFresh ''a'']"
  "toggled [exFresh ''c'', exStarted ''b'', exFresh ''a''] = [exStarted ''b'', exFresh ''a'']"
  by (simp_all add: toggled_def putObj_def removeKey_def)

lemma among_scheduler:
  assumes "m_Deployments w = []"
  shows "\<exists>xs. dcrh_handleCustomScheduler memLib exAmong d w =
    (Inr (), w\<lparr>m_Nodes := toggled (toggled (m_Nodes w)), m_Deployments := xs\<rparr>)"
  using assms
  by (simp add: dcrh_handleCustomScheduler_def Let_def bindE_def wrapE_def tryE_def memClient_simps memUpsert_fresh
      ownDeployment_Inr SetCustomScheduler_spec_only memLib_own zeroMeta_def keyOf_def putObj_def removeKey_def
      ownDeployment_def beforeEach_def exToggle_def)
    (rule exI, rule refl)

lemma among_upgrade:
  assumes "m_Nodes w = [exFresh ''c'', exFresh ''a'', exFresh ''b'']"
  shows "dcrh_handleModuleVersionUpgrade exAmong (setFinalizers [deviceConfigFinalizer] (exDC ''2'')) w =
    (Inr (), w\<lparr>m_Nodes := [exStarted ''b'', exFresh ''c'', exFresh ''a'']\<rparr>)"
proof -
  have d: "wanted (setFinalizers fs (exDC v)) = v" "Selector (dc_Spec (setFinalizers fs (exDC v))) = Some [''neuron'' \<mapsto> ''true'']"
    "dc_Name (setFinalizers fs (exDC v)) = ''neuron''" "dc_Namespace (setFinalizers fs (exDC v)) = ''ns''" for fs v
    by (simp_all add: setFinalizers_def)
  have b: "isNewNodeForUpgrade memLib (exFresh nm) (setFinalizers fs (exDC v))"
    "getNodeUpgradeState memLib (exFresh nm) (setFinalizers fs (exDC v)) = nodeBeforeUpgrade" for nm fs v
    by (simp_all add: isNewNodeForUpgrade_def getNodeUpgradeState_def d)
  show ?thesis
    by (simp add: dcrh_handleModuleVersionUpgrade_def bindE_def wrapE_def tryE_def Let_def d b assms
        upgradeImpl_GetTargetedNodes_def upgradeImpl_GetNodeForUpgrade_def memClient_simps memList_def listing_def
        upgradeImpl_UncordonUpgradedNode_def upgradeImpl_CordonNodeForUpgrade_def upgradeImpl_KickoffUpgrade_def
        memPatchNode_def putObj_def removeKey_def beforeEach_def exToggle_def)
       (simp add: exNode_def nodeSetLabels_def mergedLabel_def mergedList_def fun_eq_iff)
qed

lemma among_Reconcile:
  "\<exists>w'. Reconcile (operatorReconciler memLib (interfered exToggle memClient) ''FROM'' False) (exDC ''2'')
      (exWorld [exFresh ''a'', exFresh ''b''] [exDC ''2'']) = (Inr zeroResult, w') \<and>
    m_Nodes w' = [exStarted ''b'', exFresh ''a'']"
proof -
  let ?d = "setFinalizers [deviceConfigFinalizer] (exDC ''2'')" and ?a = "exFresh ''a''" and ?b = "exFresh ''b''"
    and ?c = "exFresh ''c''"
  have dra: "DRADriverImage (dc_Spec ?d) = []" by (simp add: setFinalizers_def)
  define w0 where "w0 = exWorld [?c, ?a, ?b] [?d]"
  have fin: "dcrh_setFinalizer memLib exAmong (exDC ''2'') (exWorld [?a, ?b] [exDC ''2'']) = (Inr ?d, w0)"
    by (simp add: dcrh_setFinalizer_def memClient_simps memPatchDC_def setFinalizers_def Let_def memLib_def
        dcMerged_def mergedList_def putObj_def removeKey_def exWorld_def w0_def beforeEach_def exToggle_def)
  have "m_ConfigMaps (exToggle w0) = []" by (simp add: w0_def exToggle_def)
  from ex_build [OF this, of ?d] obtain x1 where
    1: "dcrh_handleBuildConfigMap exAmong ?d w0 = (Inr (), exToggle w0\<lparr>m_ConfigMaps := [x1]\<rparr>)"
    unfolding interfered_single by blast
  define w1 where "w1 = exToggle w0\<lparr>m_ConfigMaps := [x1]\<rparr>"
  have "m_Modules (exToggle w1) = []" by (simp add: w0_def w1_def exToggle_def)
  from ex_kmm [OF this, of ?d] obtain x2 where
    2: "dcrh_handleKMMModule exAmong ?d w1 = (Inr (), exToggle w1\<lparr>m_Modules := [x2]\<rparr>)"
    unfolding interfered_single by blast
  define w2 where "w2 = exToggle w1\<lparr>m_Modules := [x2]\<rparr>"
  have "m_Nodes w2 = [?c, ?a, ?b]" by (simp add: w0_def w1_def w2_def exToggle_def)
  note 3 = among_upgrade [OF this]
  define w3 where "w3 = w2\<lparr>m_Nodes := [exStarted ''b'', ?c, ?a]\<rparr>"
  have "m_Deployments w3 = []" by (simp add: w0_def w1_def w2_def w3_def exToggle_def)
  from among_scheduler [OF this, of ?d] obtain x4 where
    4: "dcrh_handleCustomScheduler memLib exAmong ?d w3 =
      (Inr (), w3\<lparr>m_Nodes := toggled (toggled (m_Nodes w3)), m_Deployments := x4\<rparr>)" by blast
  define w4 where "w4 = w3\<lparr>m_Nodes := toggled (toggled (m_Nodes w3)), m_Deployments := x4\<rparr>"
  have "m_DaemonSets (exToggle w4) = []" by (simp add: w0_def w1_def w2_def w3_def w4_def exToggle_def)
  from ex_metrics [OF this, of ?d] obtain x5 where
    5: "dcrh_handleNodeMetrics exAmong ?d w4 = (Inr (), exToggle w4\<lparr>m_DaemonSets := [x5]\<rparr>)"
    unfolding interfered_single by blast
  note steps = fin 1 [folded w1_def] 2 [folded w2_def] 3 [folded w3_def] 4 [folded w4_def] 5
  have "Reconcile (operatorReconciler memLib (interfered exToggle memClient) ''FROM'' False) (exDC ''2'')
      (exWorld [?a, ?b] [exDC ''2'']) = (Inr zeroResult, exToggle w4\<lparr>m_DaemonSets := [x5]\<rparr>)"
    by (simp add: Reconcile_def bindE_def wrapE_def tryE_def steps dra)
  moreover have "m_Nodes (exToggle w4) = [exStarted ''b'', ?a]" by (simp add: w3_def w4_def exToggle_def)
  ultimately show ?thesis by simp
qed

end
