(* ===== verification/Fleet.thy ===== *)
theory Fleet
  imports Interleaving
begin

text \<open>
  Several DeviceConfigs at once. The operator reconciles them one after the other; each of
  them has its own labels on nodes. The one-at-a-time invariant holds for all of them
  together: what is done for one is, to the others, a step that starts nothing.
\<close>

section \<open>DeviceConfigs that do not touch each other's labels\<close>

definition apart :: "library \<Rightarrow> DeviceConfig \<Rightarrow> DeviceConfig \<Rightarrow> bool" where
  "apart lib d1 d2 \<longleftrightarrow> keyOf (dc_Meta d1) \<noteq> keyOf (dc_Meta d2) \<and>
     versionLabel lib d1 \<noteq> versionLabel lib d2 \<and> versionLabel lib d1 \<noteq> readyLabel lib d2 \<and>
     mapGet (Selector (dc_Spec d2)) (versionLabel lib d1) = None"

lemma apart_sameTarget: "sameTarget d0 d \<Longrightarrow> apart lib d d2 \<longleftrightarrow> apart lib d0 d2"
  by (simp add: apart_def sameTarget_def keyOf_def)

section \<open>The writes for one, seen by another\<close>

lemma foreign_object:
  assumes "apart lib d1 d2" and "object_write lib (dc_Namespace d1) (dc_Name d1) x x'" and "upgradeInv lib d2 x"
  shows "upgradeInv lib d2 x'"
  using assms(2)
proof cases
  case (object_node srv ls ts new)
  have l: "mapGet (node_Labels new) k = mapGet (node_Labels srv) k" if "k \<noteq> versionLabel lib d1" for k
    using object_node(2) [OF that] by (simp add: rewrote_labels [OF object_node(3)])
  have sel: "selects (Selector (dc_Spec d2)) (node_Labels new) = selects (Selector (dc_Spec d2)) (node_Labels srv)"
    using assms(1) l unfolding apart_def selects_def by metis
  have "noneNew lib d2 x x'"
    by (rule rewrote_noneNew [OF object_node(3,1)])
       (use assms(1) object_node(1) l sel in \<open>auto simp: mem_inUpgrade apart_def\<close>)
  moreover have "targetKept d2 x \<Longrightarrow> targetKept d2 x'" using object_node(3) by (simp add: targetKept_def rewrote_def)
  ultimately show ?thesis using assms(3) noneNew_keeps(1) by blast
next
  case object_named
  then show ?thesis using assms(3) by cases simp_all
qed

lemma foreign_storeDC:
  assumes "keyOf (dc_Meta d1) \<noteq> keyOf (dc_Meta d2)" and "keyOf (dc_Meta d') = keyOf (dc_Meta d1)"
    and "upgradeInv lib d2 c"
  shows "upgradeInv lib d2 (storeDC (setFinalizers fs d') c)"
proof -
  have "keyOf (dc_Meta (setFinalizers fs d')) = keyOf (dc_Meta d1)" using assms(2) by (simp add: setFinalizers_def)
  with assms(1,3) have "targetKept d2 (storeDC (setFinalizers fs d') c)"
    by (simp add: targetKept_def upgradeInv_def storeDC_def)
  with assms(3) serialAll_cong [of "storeDC (setFinalizers fs d') c" c] show ?thesis
    by (simp add: upgradeInv_def storeDC_def)
qed

lemma foreign_carries:
  assumes "lawfulClient lib c cl" and "stableUnder (upgradeInv lib d2) cl env" and "apart lib d1 d2"
  shows "carries c cl env (call_write lib (dc_Namespace d1) (dc_Name d1)) (upgradeInv lib d2)"
proof -
  have "upgradeInv lib d2 x'" if "upgradeInv lib d2 x" "call_write lib (dc_Namespace d1) (dc_Name d1) x x'" for x x'
    using that(2)
  proof cases
    case call_object
    with foreign_object [OF assms(3)] that(1) show ?thesis by blast
  next
    case call_finalizers
    then show ?thesis
    proof cases
      case (finalizers_stored d fs)
      have "keyOf (dc_Meta d1) \<noteq> keyOf (dc_Meta d2)" using assms(3) by (simp add: apart_def)
      from foreign_storeDC [OF this _ that(1), of d fs] finalizers_stored show ?thesis by (simp add: keyOf_def)
    qed
  qed
  with lawfulClient_writes [OF assms(1)] assms(2) show ?thesis by (simp add: carries_def)
qed

section \<open>The fleet\<close>

definition fleetInv :: "library \<Rightarrow> DeviceConfig set \<Rightarrow> cluster \<Rightarrow> bool" where
  "fleetInv lib D c \<longleftrightarrow> (\<forall>d \<in> D. upgradeInv lib d c)"

definition allApart :: "library \<Rightarrow> DeviceConfig set \<Rightarrow> bool" where
  "allApart lib D \<longleftrightarrow> (\<forall>d1 \<in> D. \<forall>d2 \<in> D. d1 = d2 \<or> apart lib d1 d2)"

definition fleetInterference ::
  "library \<Rightarrow> 'w client \<Rightarrow> ('w \<Rightarrow> cluster) \<Rightarrow> ('w \<Rightarrow> 'w) \<Rightarrow> DeviceConfig set \<Rightarrow> bool" where
  "fleetInterference lib c cl env D \<longleftrightarrow>
     lawfulClient lib c cl \<and> lawfulLabels lib \<and> allApart lib D \<and> (\<forall>d \<in> D. rely lib d cl env)"

lemma keeps_fleet: "(\<And>d. d \<in> D \<Longrightarrow> keeps (\<lambda>w. upgradeInv lib d (cl w)) m) \<Longrightarrow> keeps (\<lambda>w. fleetInv lib D (cl w)) m"
  unfolding keeps_def fleetInv_def by blast

text \<open>Each operation for a member keeps the invariant of that member and of the others.\<close>

lemma fleet_handlers:
  fixes f :: string and b :: bool
  assumes "fleetInterference lib c cl env D" and "d0 \<in> D" and "sameTarget d0 d"
  defines "H \<equiv> operatorHelper lib (interfered env c) f b"
  shows "keeps (\<lambda>w. fleetInv lib D (cl w)) (dcrh_handleBuildConfigMap H d)"
    and "keeps (\<lambda>w. fleetInv lib D (cl w)) (dcrh_handleKMMModule H d)"
    and "keeps (\<lambda>w. fleetInv lib D (cl w)) (dcrh_handleModuleVersionUpgrade H d)"
    and "keeps (\<lambda>w. fleetInv lib D (cl w)) (dcrh_handleCustomScheduler lib H d)"
    and "keeps (\<lambda>w. fleetInv lib D (cl w)) (dcrh_handleNodeMetrics H d)"
    and "keeps (\<lambda>w. fleetInv lib D (cl w)) (dcrh_finalizeDeviceConfig lib H d)"
    and "triple (\<lambda>w. fleetInv lib D (cl w)) (dcrh_setFinalizer lib H d)
      (\<lambda>d' w. fleetInv lib D (cl w) \<and> sameTarget d0 d') (\<lambda>_ w. fleetInv lib D (cl w))"
proof -
  have law: "lawfulClient lib c cl" using assms(1) by (simp add: fleetInterference_def)
  have st: "stableUnder (upgradeInv lib d2) cl env" "stableUnder (pickSafe lib d2 v p) cl env" if "d2 \<in> D" for d2 v p
    using assms(1) that by (simp_all add: fleetInterference_def stable_env)
  have cases: "d2 = d0 \<or> apart lib d d2" if "d2 \<in> D" for d2
  proof -
    have all: "\<forall>d1 \<in> D. \<forall>d2 \<in> D. d1 = d2 \<or> apart lib d1 d2" using assms(1) by (simp add: fleetInterference_def allApart_def)
    have "d0 = d2 \<or> apart lib d0 d2" by (rule bspec [OF bspec [OF all assms(2)] that])
    then show ?thesis unfolding apart_sameTarget [OF assms(3)] by (rule disj_forward) simp_all
  qed
  note own = upgradeInv_sameTarget [OF assms(3)]
  have "keeps (\<lambda>w. upgradeInv lib d (cl w)) (dcrh_handleModuleVersionUpgrade H d)"
    "keeps (\<lambda>w. upgradeInv lib d (cl w)) (dcrh_finalizeDeviceConfig lib H d)"
    unfolding H_def
    by (rule upgrade_interfered [OF law] finalize_interfered [OF law]; simp only: own st [OF assms(2)])+
  then have mine: "keeps (\<lambda>w. upgradeInv lib d0 (cl w)) (dcrh_handleModuleVersionUpgrade H d)"
    "keeps (\<lambda>w. upgradeInv lib d0 (cl w)) (dcrh_finalizeDeviceConfig lib H d)" by (simp_all only: own)
  have up: "keeps (\<lambda>w. upgradeInv lib d2 (cl w)) (dcrh_handleModuleVersionUpgrade H d)" if "d2 \<in> D" for d2
    using cases [OF that] mine(1) carries_upgrade [OF carries_call_object [OF foreign_carries [OF law st(1) [OF that]]], of d f b]
    unfolding H_def by metis
  have fin: "keeps (\<lambda>w. upgradeInv lib d2 (cl w)) (dcrh_finalizeDeviceConfig lib H d)" if "d2 \<in> D" for d2
    using cases [OF that] mine(2) carries_finalize [OF foreign_carries [OF law st(1) [OF that]], of d f b] unfolding H_def by metis
  note writes = writes_interfered [OF law st(1), where f = f and b = b, folded H_def]
  show "keeps (\<lambda>w. fleetInv lib D (cl w)) (dcrh_handleBuildConfigMap H d)"
    "keeps (\<lambda>w. fleetInv lib D (cl w)) (dcrh_handleKMMModule H d)"
    "keeps (\<lambda>w. fleetInv lib D (cl w)) (dcrh_handleModuleVersionUpgrade H d)"
    "keeps (\<lambda>w. fleetInv lib D (cl w)) (dcrh_handleCustomScheduler lib H d)"
    "keeps (\<lambda>w. fleetInv lib D (cl w)) (dcrh_handleNodeMetrics H d)"
    "keeps (\<lambda>w. fleetInv lib D (cl w)) (dcrh_finalizeDeviceConfig lib H d)"
    by (rule keeps_fleet, (rule writes up fin, assumption))+
  have keep: "keeps (\<lambda>w. upgradeInv lib d2 (cl w)) (dcrh_setFinalizer lib H d)" if "d2 \<in> D" for d2
    using cases [OF that]
  proof
    assume "d2 = d0"
    with setFinalizer_interfered [OF law st(1) [OF that] , of d f b] assms(3) show ?thesis
      unfolding keeps_triple H_def by (blast intro: triple_conseq)
  next
    assume "apart lib d d2"
    from carries_setFinalizer [OF carries_call_finalizers [OF foreign_carries [OF law st(1) [OF that] this]], of lib f b]
    show ?thesis unfolding keeps_triple H_def by (rule triple_conseq) auto
  qed
  show "triple (\<lambda>w. fleetInv lib D (cl w)) (dcrh_setFinalizer lib H d)
      (\<lambda>d' w. fleetInv lib D (cl w) \<and> sameTarget d0 d') (\<lambda>_ w. fleetInv lib D (cl w))"
  proof (rule tripleI)
    note all = keeps_fleet [of D lib cl, OF keep]
    fix w d' w' assume i: "fleetInv lib D (cl w)" and run: "dcrh_setFinalizer lib H d w = (Inr d', w')"
    with assms(2) have "upgradeInv lib d0 (cl w)" by (simp add: fleetInv_def)
    with triple_Inr [OF setFinalizer_interfered [OF law st(1) [OF assms(2)] assms(3)], of w f b d' w'] run
    have "sameTarget d0 d'" by (simp add: H_def)
    moreover have "fleetInv lib D (cl w')" using all i run unfolding keeps_def by (metis snd_conv)
    ultimately show "fleetInv lib D (cl w') \<and> sameTarget d0 d'" by simp
  next
    note all = keeps_fleet [of D lib cl, OF keep]
    fix w e w' assume "fleetInv lib D (cl w)" and "dcrh_setFinalizer lib H d w = (Inl e, w')"
    with all show "fleetInv lib D (cl w')" unfolding keeps_def by (metis snd_conv)
  qed
qed

interpretation fleet: reconciler_helper "operatorReconciler lib (interfered env c) f b"
  "\<lambda>d. fleetInterference lib c cl env D \<and> d0 \<in> D \<longrightarrow> sameTarget d0 d"
  "\<lambda>w. fleetInterference lib c cl env D \<and> d0 \<in> D \<longrightarrow> fleetInv lib D (cl w)"
  for lib c f b cl env D d0
proof (cases "fleetInterference lib c cl env D \<and> d0 \<in> D")
  case True
  then have ok: "fleetInterference lib c cl env D" "d0 \<in> D" by simp_all
  note ops = fleet_handlers [OF ok]
  show "reconciler_helper (operatorReconciler lib (interfered env c) f b)
     (\<lambda>d. fleetInterference lib c cl env D \<and> d0 \<in> D \<longrightarrow> sameTarget d0 d)
     (\<lambda>w. fleetInterference lib c cl env D \<and> d0 \<in> D \<longrightarrow> fleetInv lib D (cl w))"
    by unfold_locales (simp_all add: ok ops)
next
  case False
  then have no: "(fleetInterference lib c cl env D \<and> d0 \<in> D) = False" by simp
  show "reconciler_helper (operatorReconciler lib (interfered env c) f b)
     (\<lambda>d. fleetInterference lib c cl env D \<and> d0 \<in> D \<longrightarrow> sameTarget d0 d)
     (\<lambda>w. fleetInterference lib c cl env D \<and> d0 \<in> D \<longrightarrow> fleetInv lib D (cl w))"
    unfolding no by unfold_locales (simp_all add: keeps_def triple_def)
qed

text \<open>Reconciliations of any members, in any order, among any steps of the environment.\<close>

inductive fleetStep ::
  "library \<Rightarrow> 'w client \<Rightarrow> ('w \<Rightarrow> cluster) \<Rightarrow> string \<Rightarrow> bool \<Rightarrow> DeviceConfig set \<Rightarrow> 'w \<Rightarrow> 'w \<Rightarrow> bool"
  for lib :: library and c :: "'w client" and cl :: "'w \<Rightarrow> cluster" and f :: string and b :: bool
    and D :: "DeviceConfig set" where
  fleet_reconcile: "d0 \<in> D \<Longrightarrow> sameTarget d0 d \<Longrightarrow> \<forall>d1 \<in> D. rely lib d1 cl env \<Longrightarrow>
    Reconcile (operatorReconciler lib (interfered env c) f b) d w = (r, w') \<Longrightarrow> fleetStep lib c cl f b D w w'"
| fleet_environment: "\<forall>d1 \<in> D. env_step lib d1 (cl w) (cl w') \<Longrightarrow> fleetStep lib c cl f b D w w'"

lemma fleetStep_inv:
  assumes "lawfulClient lib c cl" and "lawfulLabels lib" and "allApart lib D"
  shows "fleetStep lib c cl f b D w w' \<Longrightarrow> fleetInv lib D (cl w) \<Longrightarrow> fleetInv lib D (cl w')"
proof (induction rule: fleetStep.induct)
  case (fleet_reconcile d0 d env w r w')
  then have i: "fleetInterference lib c cl env D" using assms by (simp add: fleetInterference_def)
  with fleet.Reconcile_keeps [of lib c cl env D d0 d f b] fleet_reconcile show ?case
    by (auto simp: keeps_def dest: spec [of _ w])
next
  case (fleet_environment w w')
  show ?case unfolding fleetInv_def
  proof
    fix d assume d: "d \<in> D"
    with fleet_environment have step: "env_step lib d (cl w) (cl w')" and "upgradeInv lib d (cl w)"
      by (simp_all add: fleetInv_def)
    from noneNew_keeps(1) [OF env_step_noneNew [OF assms(2) step] targetKept_env [OF step] this(2)]
    show "upgradeInv lib d (cl w')" .
  qed
qed

section \<open>Properties\<close>

text \<open>
  C2: one node at a time for every DeviceConfig. Start from a cluster where no node has a
  version label of any of them. When DeviceConfigs with labels of their own are reconciled in
  any order, each with any outcome, while the environment acts before every call within the
  limits of the rely (it withdraws no readiness for the version a node has, and brings no
  node with a version label into the selection), then for each of them, and for every
  version, at most one of its nodes has been asked for it and is not ready with it.
\<close>

theorem one_node_per_config:
  assumes "lawfulClient lib c cl" and "lawfulLabels lib" and "allApart lib D"
    and "\<forall>d1 \<in> D. unlabelledCluster lib d1 (cl w) \<and> targetKept d1 (cl w)"
    and "(fleetStep lib c cl f b D)\<^sup>*\<^sup>* w w'"
    and "d0 \<in> D" and "sameTarget d0 d" and "n \<in> inUpgrade lib d (cl w')" and "m \<in> inUpgrade lib d (cl w')"
  shows "n = m"
proof -
  have "fleetInv lib D (cl w)" using assms(4) by (simp add: fleetInv_def upgradeInv_def unlabelled_serialAll)
  with assms(5) have "fleetInv lib D (cl w')"
    by (induction rule: rtranclp_induct) (use fleetStep_inv [OF assms(1-3)] in blast)+
  with assms(6) have "serialAll lib d0 (cl w')" by (simp add: fleetInv_def upgradeInv_def)
  then have "serial lib d (cl w')" by (intro serialAll_serial) (simp add: serialAll_sameTarget [OF assms(7)])
  with assms(8,9) show ?thesis by (simp add: serial_def)
qed

text \<open>Two DeviceConfigs for the same nodes; the first one is reconciled under interference.\<close>

abbreviation exOther :: DeviceConfig where
  "exOther \<equiv> (exDC ''3'')\<lparr>dc_Meta := (dc_Meta (exDC ''3''))\<lparr>om_Name := ''other''\<rparr>\<rparr>"

lemma exOther_labels:
  "versionLabel memLib exOther = ''kmm.node.kubernetes.io/version-module.ns.other''"
  "readyLabel memLib exOther = ''kmm.node.kubernetes.io/ns.other.version.ready''"
  by (simp_all add: memLib_def)

lemma exOther_apart: "allApart memLib {exDC ''2'', exOther}"
  unfolding allApart_def apart_def using exOther_labels by (auto simp: keyOf_def)

lemma one_node_per_config_witness:
  "\<exists>w'. (fleetStep memLib memClient memCluster ''FROM'' False {exDC ''2'', exOther})\<^sup>*\<^sup>*
       (exWorld [exFresh ''a'', exFresh ''b''] [exDC ''2'']) w' \<and>
     inUpgrade memLib (exDC ''2'') (memCluster w') = {exStarted ''b''}"
proof -
  let ?w = "exWorld [exFresh ''a'', exFresh ''b''] [exDC ''2'']" and ?D = "{exDC ''2'', exOther}"
  obtain w' where run: "Reconcile (operatorReconciler memLib (interfered exToggle memClient) ''FROM'' False)
      (exDC ''2'') ?w = (Inr zeroResult, w')" and nodes: "m_Nodes w' = [exStarted ''b'', exFresh ''a'']"
    using among_Reconcile by blast
  have rely: "\<forall>d1 \<in> ?D. rely memLib d1 memCluster exToggle"
    using exToggle_rely [of "exDC ''2''"] exToggle_rely [of exOther] exOther_labels by simp
  have first: "exDC ''2'' \<in> ?D" by simp
  have sys: "(fleetStep memLib memClient memCluster ''FROM'' False ?D)\<^sup>*\<^sup>* ?w w'"
    by (rule r_into_rtranclp, rule fleet_reconcile [OF first sameTarget_refl rely run])
  have fresh: "\<forall>d1 \<in> ?D. unlabelledCluster memLib d1 (memCluster ?w) \<and> targetKept d1 (memCluster ?w)"
    using exOther_labels by (auto simp: unlabelledCluster_def targetKept_def keyOf_def dest!: stored_mem)
  have b: "exStarted ''b'' \<in> inUpgrade memLib (exDC ''2'') (memCluster w')"
    by (simp add: mem_inUpgrade stored_def nodes)
  have "m = exStarted ''b''" if "m \<in> inUpgrade memLib (exDC ''2'') (memCluster w')" for m
    using one_node_per_config [OF lawfulClient_mem lawfulLabels_mem exOther_apart fresh sys first sameTarget_refl that b] .
  with sys b show ?thesis by blast
qed

end
