(* ===== verification/Recording.thy ===== *)
theory Recording
  imports Calls
begin

text \<open>
  A record of the calls that a reconciliation makes. The client \<open>recorded cl c\<close> does what
  \<open>c\<close> does and writes down the cluster before and after each call, so that a property of
  every single call is a property of the list of these pairs. Recording changes nothing:
  the reconciliation over the recorded client has the same result and leaves the same world
  (\<open>Reconcile_recorded\<close>).
\<close>

section \<open>The recorded client\<close>

type_synonym call_log = "(cluster \<times> cluster) list"

definition recordCall :: "('w \<Rightarrow> cluster) \<Rightarrow> ('w, 'a) io \<Rightarrow> ('w \<times> call_log, 'a) io" where
  "recordCall cl m = (\<lambda>(w, h). let (r, w') = m w in (r, (w', h @ [(cl w, cl w')])))"

definition recordedApi :: "('w \<Rightarrow> cluster) \<Rightarrow> ('w, 'o) api \<Rightarrow> ('w \<times> call_log, 'o) api" where
  "recordedApi cl a = \<lparr>
     apiGet = (\<lambda>k. recordCall cl (apiGet a k)),
     apiList = (\<lambda>s. recordCall cl (apiList a s)),
     apiCreateOrPatch = (\<lambda>x f. recordCall cl (apiCreateOrPatch a x f)),
     apiCreateOrUpdate = (\<lambda>x f. recordCall cl (apiCreateOrUpdate a x f)),
     apiPatch = (\<lambda>x y. recordCall cl (apiPatch a x y)),
     apiDelete = (\<lambda>x. recordCall cl (apiDelete a x))\<rparr>"

definition recorded :: "('w \<Rightarrow> cluster) \<Rightarrow> 'w client \<Rightarrow> ('w \<times> call_log) client" where
  "recorded cl c = \<lparr>Nodes = recordedApi cl (Nodes c), Modules = recordedApi cl (Modules c),
     DaemonSets = recordedApi cl (DaemonSets c), Deployments = recordedApi cl (Deployments c),
     ConfigMaps = recordedApi cl (ConfigMaps c), DeviceConfigs = recordedApi cl (DeviceConfigs c)\<rparr>"

lemma recorded_simps [simp]:
  "Nodes (recorded cl c) = recordedApi cl (Nodes c)" "Modules (recorded cl c) = recordedApi cl (Modules c)"
  "DaemonSets (recorded cl c) = recordedApi cl (DaemonSets c)"
  "Deployments (recorded cl c) = recordedApi cl (Deployments c)"
  "ConfigMaps (recorded cl c) = recordedApi cl (ConfigMaps c)"
  "DeviceConfigs (recorded cl c) = recordedApi cl (DeviceConfigs c)"
  "apiGet (recordedApi cl a) k = recordCall cl (apiGet a k)"
  "apiList (recordedApi cl a) s = recordCall cl (apiList a s)"
  "apiCreateOrPatch (recordedApi cl a) x f = recordCall cl (apiCreateOrPatch a x f)"
  "apiCreateOrUpdate (recordedApi cl a) x f = recordCall cl (apiCreateOrUpdate a x f)"
  "apiPatch (recordedApi cl a) x y = recordCall cl (apiPatch a x y)"
  "apiDelete (recordedApi cl a) x = recordCall cl (apiDelete a x)"
  by (simp_all add: recorded_def recordedApi_def)

lemma recordCall_eq: "recordCall cl m w = (fst (m (fst w)), (snd (m (fst w)), snd w @ [(cl (fst w), cl (snd (m (fst w))))]))"
  by (simp add: recordCall_def split_beta Let_def)

abbreviation recordedCluster :: "('w \<Rightarrow> cluster) \<Rightarrow> 'w \<times> call_log \<Rightarrow> cluster" where
  "recordedCluster cl w \<equiv> cl (fst w)"

text \<open>A world that keeps such a log: every call adds its pair, and the environment does not write to it.\<close>

definition keepsLog :: "'w client \<Rightarrow> ('w \<Rightarrow> cluster) \<Rightarrow> ('w \<Rightarrow> 'w) \<Rightarrow> ('w \<Rightarrow> call_log) \<Rightarrow> bool" where
  "keepsLog c cl env log \<longleftrightarrow> (\<forall>w. log (env w) = log w) \<and>
     (\<forall>w w'. calls c w w' \<longrightarrow> log w' = log w @ [(cl w, cl w')])"

lemma keepsLogD:
  assumes "keepsLog c cl env log"
  shows "log (env w) = log w" and "calls c w w' \<Longrightarrow> log w' = log w @ [(cl w, cl w')]"
  using assms by (simp_all add: keepsLog_def)

lemma keepsLog_call: "keepsLog c cl env log \<Longrightarrow> isCall c m \<Longrightarrow> m w = (r, w') \<Longrightarrow> log w' = log w @ [(cl w, cl w')]"
  unfolding isCall_def by (metis keepsLogD(2) snd_conv)

lemma keepsLog_recorded: "keepsLog (recorded cl c) (recordedCluster cl) (apfst env) snd"
  by (auto simp: keepsLog_def calls_def recordCall_eq elim!: apiCalled.cases)

text \<open>All calls of a log.\<close>

definition everyCall :: "(cluster \<Rightarrow> cluster \<Rightarrow> bool) \<Rightarrow> call_log \<Rightarrow> bool" where
  "everyCall G h \<longleftrightarrow> (\<forall>(x, y) \<in> set h. G x y)"

lemma everyCall_simps [simp]: "everyCall G []" "everyCall G (h @ [(x, y)]) \<longleftrightarrow> everyCall G h \<and> G x y"
  by (auto simp: everyCall_def)

text \<open>
  A run of calls in \<open>G\<close> so far, at whose end \<open>J\<close> holds: it goes on with every write that
  keeps \<open>J\<close> and is in \<open>G\<close>.
\<close>

definition soFar :: "('w \<Rightarrow> cluster) \<Rightarrow> ('w \<Rightarrow> call_log) \<Rightarrow> (cluster \<Rightarrow> cluster \<Rightarrow> bool) \<Rightarrow> (cluster \<Rightarrow> bool) \<Rightarrow> 'w \<Rightarrow> bool" where
  "soFar cl log G J w \<longleftrightarrow> everyCall G (log w) \<and> J (cl w)"

lemma soFar_env: "keepsLog c cl env log \<Longrightarrow> stableUnder J cl env \<Longrightarrow> soFar cl log G J w \<Longrightarrow> soFar cl log G J (env w)"
  by (simp add: soFar_def keepsLogD(1) stableUnder_def)

lemma soFar_mono: "soFar cl log G J w \<Longrightarrow> (J (cl w) \<Longrightarrow> J' (cl w)) \<Longrightarrow> soFar cl log G J' w"
  by (simp add: soFar_def)

lemma soFar_call:
  assumes "keepsLog c cl env log" and "isCall c m" and "m w = (r, w')"
    and "soFar cl log G J w" and "J (cl w) \<Longrightarrow> G (cl w) (cl w') \<and> J' (cl w')"
  shows "soFar cl log G J' w'"
  using assms(4,5) keepsLog_call [OF assms(1-3)] by (simp add: soFar_def)

lemma soFar_upholds:
  assumes "lawfulWrites c cl" and "keepsLog c cl env log" and "stableUnder J cl env" and "\<And>x. G x x"
    and "\<And>x y. J x \<Longrightarrow> R x y \<Longrightarrow> G x y \<and> J y"
  shows "upholds c cl env R (soFar cl log G J)"
proof -
  have "soFar cl log G J w'" if "calls c w w'" "soFar cl log G J w" "cl w' = cl w \<or> R (cl w) (cl w')" for w w'
    using that(2,3) keepsLogD(2) [OF assms(2) that(1)] assms(4,5) by (auto simp: soFar_def)
  with assms(1) soFar_env [OF assms(2,3)] show ?thesis by (simp add: upholds_def)
qed

text \<open>Before a call the environment may act.\<close>

lemma triple_env:
  assumes "triple P m Q E" and "\<And>w. P w \<Longrightarrow> P (env w)"
  shows "triple P (beforeEach env m) Q E"
proof (rule tripleI)
  show "Q x w'" if "P w" and "beforeEach env m w = (Inr x, w')" for w x w'
    using triple_Inr [OF assms(1) assms(2) [OF that(1)]] that(2) by (simp add: beforeEach_def)
  show "E e w'" if "P w" and "beforeEach env m w = (Inl e, w')" for w e w'
    using triple_Inl [OF assms(1) assms(2) [OF that(1)]] that(2) by (simp add: beforeEach_def)
qed

section \<open>The recorded client is as lawful as the client\<close>

lemma recorded_get: "lawfulGet lib op cl sel \<Longrightarrow> lawfulGet lib (\<lambda>k. recordCall cl (op k)) (recordedCluster cl) sel"
  by (simp add: lawfulGet_def recordCall_eq)

lemma recorded_list: "lawfulList op meta cl sel \<Longrightarrow> lawfulList (\<lambda>s. recordCall cl (op s)) meta (recordedCluster cl) sel"
  by (simp add: lawfulList_def recordCall_eq)

lemma recorded_patchNode: "lawfulPatchNode a cl \<Longrightarrow> lawfulPatchNode (recordedApi cl a) (recordedCluster cl)"
  unfolding lawfulPatchNode_def Let_def recorded_simps recordCall_eq by (simp add: split_beta cong: sum.case_cong)

lemma recorded_patchDC: "lawfulPatchDC a cl \<Longrightarrow> lawfulPatchDC (recordedApi cl a) (recordedCluster cl)"
  unfolding lawfulPatchDC_def Let_def recorded_simps recordCall_eq by (simp add: split_beta cong: sum.case_cong)

lemma recorded_upsert:
  "lawfulUpsert op meta cl sel put \<Longrightarrow> lawfulUpsert (\<lambda>x f. recordCall cl (op x f)) meta (recordedCluster cl) sel put"
  unfolding lawfulUpsert_def Let_def recordCall_eq by (simp add: split_beta cong: sum.case_cong)

lemma recorded_delete:
  "lawfulDelete lib op meta cl sel put \<Longrightarrow> lawfulDelete lib (\<lambda>x. recordCall cl (op x)) meta (recordedCluster cl) sel put"
  unfolding lawfulDelete_def Let_def recordCall_eq by (simp add: split_beta cong: sum.case_cong)

lemma recorded_apis:
  "apiGet (recordedApi cl a) = (\<lambda>k. recordCall cl (apiGet a k))" "apiList (recordedApi cl a) = (\<lambda>s. recordCall cl (apiList a s))"
  "apiCreateOrPatch (recordedApi cl a) = (\<lambda>x f. recordCall cl (apiCreateOrPatch a x f))"
  "apiCreateOrUpdate (recordedApi cl a) = (\<lambda>x f. recordCall cl (apiCreateOrUpdate a x f))"
  "apiDelete (recordedApi cl a) = (\<lambda>x. recordCall cl (apiDelete a x))"
  by (simp_all add: recordedApi_def)

lemma recorded_lawful:
  assumes "lawfulClient lib c cl"
  shows "lawfulClient lib (recorded cl c) (recordedCluster cl)"
proof -
  note law = lawfulClientD [OF assms]
  show ?thesis unfolding lawfulClient_def recorded_simps(1-6) recorded_apis
    by (intro conjI allI law(1) recorded_list recorded_patchNode recorded_get recorded_patchDC recorded_delete
        recorded_upsert law(2-))
qed

section \<open>Recording changes nothing\<close>

definition mirrors :: "('w \<times> 'h, 'a) io \<Rightarrow> ('w, 'a) io \<Rightarrow> bool" where
  "mirrors m' m \<longleftrightarrow> (\<forall>w h. fst (m' (w, h)) = fst (m w) \<and> fst (snd (m' (w, h))) = snd (m w))"

named_theorems mirrors_intros \<open>recording an operation\<close>

lemma mirrorsD: "mirrors m' m \<Longrightarrow> m w = (r, w1) \<Longrightarrow> \<exists>h1. m' (w, h) = (r, (w1, h1))"
  unfolding mirrors_def by (metis prod.collapse fst_conv snd_conv)

lemma mirrorsI: "(\<And>w r w1 h. m w = (r, w1) \<Longrightarrow> \<exists>h1. m' (w, h) = (r, (w1, h1))) \<Longrightarrow> mirrors m' m"
  unfolding mirrors_def by (metis prod.collapse fst_conv snd_conv)

lemma mirrors_call [mirrors_intros]: "mirrors (beforeEach (apfst env) (recordCall cl m)) (beforeEach env m)"
  by (simp add: mirrors_def beforeEach_def recordCall_eq)

lemma mirrors_ret [mirrors_intros]: "mirrors (ret x) (ret x)" "mirrors (fail e) (fail e)" "mirrors (Pair r) (Pair r)"
  by (simp_all add: mirrors_def)

lemma mirrors_bind [mirrors_intros]:
  assumes "mirrors m' m" and "\<And>x. mirrors (f' x) (f x)"
  shows "mirrors (bindE m' f') (bindE m f)"
proof (rule mirrorsI)
  fix w r w1 h assume run: "bindE m f w = (r, w1)"
  obtain q w2 where m: "m w = (q, w2)" by fastforce
  obtain h2 where m': "m' (w, h) = (q, (w2, h2))" using mirrorsD [OF assms(1) m] by blast
  show "\<exists>h1. bindE m' f' (w, h) = (r, (w1, h1))"
    using run m m' mirrorsD [OF assms(2)] by (cases q) (auto simp: bindE_def)
qed

lemma mirrors_try [mirrors_intros]:
  assumes "mirrors m' m" and "\<And>e. mirrors (g' e) (g e)" and "\<And>x. mirrors (f' x) (f x)"
  shows "mirrors (tryE m' g' f') (tryE m g f)"
proof (rule mirrorsI)
  fix w r w1 h assume run: "tryE m g f w = (r, w1)"
  obtain q w2 where m: "m w = (q, w2)" by fastforce
  obtain h2 where m': "m' (w, h) = (q, (w2, h2))" using mirrorsD [OF assms(1) m] by blast
  show "\<exists>h1. tryE m' g' f' (w, h) = (r, (w1, h1))"
    using run m m' mirrorsD [OF assms(2)] mirrorsD [OF assms(3)] by (cases q) (auto simp: tryE_def)
qed

lemma mirrors_wrap [mirrors_intros]: "mirrors m' m \<Longrightarrow> mirrors (wrapE g m') (wrapE g m)"
  unfolding wrapE_def by (intro mirrors_try mirrors_ret)

lemma mirrors_if [mirrors_intros]:
  "mirrors m1' m1 \<Longrightarrow> mirrors m2' m2 \<Longrightarrow> mirrors (if b then m1' else m2') (if b then m1 else m2)"
  by simp

lemma mirrors_option [mirrors_intros]:
  "mirrors m' m \<Longrightarrow> (\<And>x. mirrors (f' x) (f x)) \<Longrightarrow>
     mirrors (case q of None \<Rightarrow> m' | Some x \<Rightarrow> f' x) (case q of None \<Rightarrow> m | Some x \<Rightarrow> f x)"
  by (cases q) simp_all

lemma mirrors_upgrade_ops [mirrors_intros]:
  fixes env :: "'w \<Rightarrow> 'w" and c :: "'w client" and cl :: "'w \<Rightarrow> cluster"
  defines "c' \<equiv> interfered (apfst env) (recorded cl c)" and "c0 \<equiv> interfered env c"
  shows "mirrors (upgradeImpl_GetTargetedNodes c' d) (upgradeImpl_GetTargetedNodes c0 d)"
    and "mirrors (upgradeImpl_UncordonUpgradedNode c' p) (upgradeImpl_UncordonUpgradedNode c0 p)"
    and "mirrors (upgradeImpl_CordonNodeForUpgrade lib c' d p) (upgradeImpl_CordonNodeForUpgrade lib c0 d p)"
    and "mirrors (upgradeImpl_KickoffUpgrade lib c' d p) (upgradeImpl_KickoffUpgrade lib c0 d p)"
    and "mirrors (upgradeImpl_RemoveUpgradeLabels lib c' d) (upgradeImpl_RemoveUpgradeLabels lib c0 d)"
proof -
  have loop: "mirrors (removeLabelLoop c' k ns) (removeLabelLoop c0 k ns)" for k ns
    by (induction ns) (auto simp: c'_def c0_def Let_def intro!: mirrors_intros)
  show "mirrors (upgradeImpl_RemoveUpgradeLabels lib c' d) (upgradeImpl_RemoveUpgradeLabels lib c0 d)"
    unfolding upgradeImpl_RemoveUpgradeLabels_def Let_def
    by (intro mirrors_intros loop) (simp add: c'_def c0_def mirrors_call)
qed (auto simp: c'_def c0_def upgradeImpl_GetTargetedNodes_def upgradeImpl_UncordonUpgradedNode_def
  upgradeImpl_CordonNodeForUpgrade_def upgradeImpl_KickoffUpgrade_def Let_def KickoffUpgrade_Some
  intro!: mirrors_intros split: option.split)

lemma mirrors_handlers:
  fixes env :: "'w \<Rightarrow> 'w" and c :: "'w client" and cl :: "'w \<Rightarrow> cluster" and lib :: library
    and f :: string and b :: bool
  defines "H' \<equiv> operatorHelper lib (interfered (apfst env) (recorded cl c)) f b"
    and "H \<equiv> operatorHelper lib (interfered env c) f b"
  shows "mirrors (dcrh_setFinalizer lib H' d) (dcrh_setFinalizer lib H d)"
    and "mirrors (dcrh_finalizeDeviceConfig lib H' d) (dcrh_finalizeDeviceConfig lib H d)"
    and "mirrors (dcrh_handleBuildConfigMap H' d) (dcrh_handleBuildConfigMap H d)"
    and "mirrors (dcrh_handleKMMModule H' d) (dcrh_handleKMMModule H d)"
    and "mirrors (dcrh_handleModuleVersionUpgrade H' d) (dcrh_handleModuleVersionUpgrade H d)"
    and "mirrors (dcrh_handleCustomScheduler lib H' d) (dcrh_handleCustomScheduler lib H d)"
    and "mirrors (dcrh_handleNodeMetrics H' d) (dcrh_handleNodeMetrics H d)"
proof -
  note simps = H'_def H_def Let_def newHelper_simps NewUpgradeAPI_simps interfered_simps recorded_simps
  show "mirrors (dcrh_setFinalizer lib H' d) (dcrh_setFinalizer lib H d)"
    unfolding dcrh_setFinalizer_def simps by (intro mirrors_intros)
  show "mirrors (dcrh_finalizeDeviceConfig lib H' d) (dcrh_finalizeDeviceConfig lib H d)"
    unfolding dcrh_finalizeDeviceConfig_def simps by (intro mirrors_intros)
  show "mirrors (dcrh_handleBuildConfigMap H' d) (dcrh_handleBuildConfigMap H d)"
    unfolding dcrh_handleBuildConfigMap_def simps by (intro mirrors_intros)
  show "mirrors (dcrh_handleKMMModule H' d) (dcrh_handleKMMModule H d)"
    unfolding dcrh_handleKMMModule_def simps by (intro mirrors_intros)
  show "mirrors (dcrh_handleModuleVersionUpgrade H' d) (dcrh_handleModuleVersionUpgrade H d)"
    unfolding dcrh_handleModuleVersionUpgrade_def simps by (intro mirrors_intros)
  show "mirrors (dcrh_handleCustomScheduler lib H' d) (dcrh_handleCustomScheduler lib H d)"
    unfolding dcrh_handleCustomScheduler_def simps by (intro mirrors_intros)
  show "mirrors (dcrh_handleNodeMetrics H' d) (dcrh_handleNodeMetrics H d)"
    unfolding dcrh_handleNodeMetrics_def simps by (intro mirrors_intros)
qed

lemma Reconcile_recorded:
  assumes "Reconcile (operatorReconciler lib (interfered env c) f b) d w = (r, w')"
  obtains h where "Reconcile (operatorReconciler lib (interfered (apfst env) (recorded cl c)) f b) d (w, []) = (r, (w', h))"
proof -
  have "mirrors (Reconcile (operatorReconciler lib (interfered (apfst env) (recorded cl c)) f b) d)
      (Reconcile (operatorReconciler lib (interfered env c) f b) d)"
    unfolding Reconcile_def NewReconciler_simps by (intro mirrors_intros mirrors_handlers)
  from mirrorsD [OF this assms] that show thesis by blast
qed

end
