(* ===== verification/Guarantees.thy ===== *)
theory Guarantees
  imports Fleet Recording Finalize Liveness
begin

text \<open>
  What a reconciliation guarantees while others act between its calls: the objects of another
  DeviceConfig are left alone, a node is emptied before its version changes, the finalizer is
  set before the first write to anything else and given back after everything is gone. Each
  guarantee names what it relies on (the environment does not undo the step it rests on).
  Those about what is written need no current reads (\<open>lawfulWrites\<close>).
\<close>

section \<open>The objects of another DeviceConfig\<close>

text \<open>What belongs to a DeviceConfig in the cluster.\<close>

definition ownView :: "library \<Rightarrow> DeviceConfig \<Rightarrow> cluster \<Rightarrow>
   DeviceConfig option \<times> Module option \<times> DaemonSet option \<times> Deployment option \<times> Deployment option \<times>
   ConfigMap option \<times> (nsname \<Rightarrow> string option option)" where
  "ownView lib d c = (cl_DeviceConfigs c (ownKey d), cl_Modules c (ownKey d), cl_DaemonSets c (metricsKey d),
     cl_Deployments c (NN (dc_Namespace d) (dc_Name d @ ''-custom-scheduler'')),
     cl_Deployments c (NN (dc_Namespace d) (dc_Name d @ ''-custom-scheduler-extension'')),
     cl_ConfigMaps c (NN (dc_Namespace d) (''dockerfile-'' @ dc_Name d)),
     (\<lambda>k. map_option (\<lambda>n. mapGet (node_Labels n) (versionLabel lib d)) (cl_Nodes c k)))"

lemma scheduler_names: "xs @ ''-custom-scheduler'' \<noteq> ys @ ''-custom-scheduler-extension''"
  by (rule notI, drule arg_cong [where f = last]) simp

lemma named_view:
  assumes "named_write ns nm c c'" and "NN ns nm \<noteq> ownKey d"
  shows "ownView lib d c' = ownView lib d c"
  using assms by cases (auto simp: ownView_def scheduler_names scheduler_names [symmetric])

lemma call_view:
  assumes "call_write lib (dc_Namespace d1) (dc_Name d1) c c'" and "ownKey d1 \<noteq> ownKey d2"
    and "versionLabel lib d1 \<noteq> versionLabel lib d2"
  shows "ownView lib d2 c' = ownView lib d2 c"
  using assms(1)
proof cases
  case call_object
  then show ?thesis
  proof cases
    case object_named
    then show ?thesis using named_view assms(2) by blast
  next
    case (object_node srv ls ts new)
    have l: "mapGet (node_Labels new) (versionLabel lib d2) = mapGet (node_Labels srv) (versionLabel lib d2)"
      using object_node(2) assms(3) rewrote_labels [OF object_node(3)] by metis
    have "map_option (\<lambda>n. mapGet (node_Labels n) (versionLabel lib d2)) (cl_Nodes c' k) =
        map_option (\<lambda>n. mapGet (node_Labels n) (versionLabel lib d2)) (cl_Nodes c k)" for k
      using object_node(1,3) l by (auto simp: rewrote_def stored_def dest: nodeIs_key)
    then show ?thesis using object_node(3) by (simp add: ownView_def rewrote_def)
  qed
next
  case call_finalizers
  then show ?thesis
  proof cases
    case (finalizers_stored d fs)
    with assms(2) show ?thesis by (auto simp: ownView_def storeDC_def)
  qed
qed

section \<open>A node is emptied first\<close>

text \<open>A node that may be asked for another version: absent, new to the rollout, or tainted.\<close>

definition movedOff :: "library \<Rightarrow> DeviceConfig \<Rightarrow> nsname \<Rightarrow> cluster \<Rightarrow> bool" where
  "movedOff lib d k c \<longleftrightarrow> (\<forall>n. cl_Nodes c k = Some n \<longrightarrow>
     isNewNodeForUpgrade lib n d \<or> hasUpgradeTaint (node_Taints n))"

text \<open>A run of drained calls so far, at whose end the nodes in \<open>K\<close> are moved off.\<close>

definition draining :: "library \<Rightarrow> ('w \<Rightarrow> cluster) \<Rightarrow> ('w \<Rightarrow> call_log) \<Rightarrow> DeviceConfig \<Rightarrow> nsname set \<Rightarrow> 'w \<Rightarrow> bool" where
  "draining lib cl log d K = soFar cl log (drained lib d) (\<lambda>c. \<forall>k \<in> K. movedOff lib d k c)"

definition keepsMovedOff :: "library \<Rightarrow> ('w \<Rightarrow> cluster) \<Rightarrow> ('w \<Rightarrow> 'w) \<Rightarrow> DeviceConfig \<Rightarrow> bool" where
  "keepsMovedOff lib cl env d \<longleftrightarrow> (\<forall>k w. movedOff lib d k (cl w) \<longrightarrow> movedOff lib d k (cl (env w)))"

text \<open>The client, the environment and the log that the following is about.\<close>

definition drainable :: "library \<Rightarrow> 'w client \<Rightarrow> ('w \<Rightarrow> cluster) \<Rightarrow> ('w \<Rightarrow> 'w) \<Rightarrow> ('w \<Rightarrow> call_log) \<Rightarrow> DeviceConfig \<Rightarrow> bool" where
  "drainable lib c cl env log d \<longleftrightarrow> lawfulClient lib c cl \<and> keepsMovedOff lib cl env d \<and> keepsLog c cl env log"

lemma drainableD:
  assumes "drainable lib c cl env log d"
  shows "lawfulClient lib c cl" and "lawfulWrites c cl" and "keepsLog c cl env log"
    and "stableUnder (\<lambda>c. \<forall>k \<in> K. movedOff lib d k c) cl env"
  using assms by (auto simp: drainable_def keepsMovedOff_def stableUnder_def lawfulClient_writes)

lemma draining_env: "drainable lib c cl env log d \<Longrightarrow> draining lib cl log d K w \<Longrightarrow> draining lib cl log d K (env w)"
  unfolding draining_def by (rule soFar_env [OF drainableD(3,4)])

lemma draining_none: "draining lib cl log d K w \<Longrightarrow> draining lib cl log d {} w"
  by (simp add: draining_def soFar_def)

lemma drained_refl [simp]: "drained lib d x x"
  by (simp add: drained_def)

text \<open>A patch that leaves the labels alone moves no other node back.\<close>

definition retaints :: "library \<Rightarrow> DeviceConfig \<Rightarrow> nsname \<Rightarrow> cluster \<Rightarrow> cluster \<Rightarrow> bool" where
  "retaints lib d k c c' \<longleftrightarrow> drained lib d c c' \<and> (\<forall>j. j \<noteq> k \<longrightarrow> cl_Nodes c' j = cl_Nodes c j)"

lemma patch_retaints:
  assumes "lawfulClient lib c cl" and "node_Labels obj = node_Labels base"
  shows "atMost cl (retaints lib d (keyOf (node_Meta obj))) (apiPatch (Nodes c) obj base)"
proof (rule atMostI)
  fix w r w' assume "apiPatch (Nodes c) obj base w = (r, w')"
  with assms(1) show "cl w' = cl w \<or> retaints lib d (keyOf (node_Meta obj)) (cl w) (cl w')"
  proof (cases rule: patch_written)
    case (written srv ts new)
    have at: "cl_Nodes (cl w') k = (if k = keyOf (node_Meta obj) then Some new else cl_Nodes (cl w) k)" for k
      using written(2,3) by (simp add: rewrote_def) (metis nodeIs_key)
    have "mapGet (node_Labels new) k = mapGet (node_Labels srv) k" for k
      using rewrote_labels [OF written(2)] assms(2) by (simp add: mergedLabel_def)
    with at written(1,3) show ?thesis by (auto simp: retaints_def drained_def stored_def)
  qed simp
qed

lemma draining_upholds:
  assumes "drainable lib c cl env log d" and "k \<notin> K"
  shows "upholds c cl env (retaints lib d k) (draining lib cl log d K)"
  unfolding draining_def
proof (rule soFar_upholds [OF drainableD(2-4) [OF assms(1)] drained_refl])
  fix x y assume x: "\<forall>j \<in> K. movedOff lib d j x" and "retaints lib d k x y"
  then have "drained lib d x y" and "cl_Nodes y j = cl_Nodes x j" if "j \<in> K" for j
    using that assms(2) by (auto simp: retaints_def)
  with x \<open>retaints lib d k x y\<close> show "drained lib d x y \<and> (\<forall>j \<in> K. movedOff lib d j y)"
    by (simp add: movedOff_def retaints_def)
qed

lemma uncordon_drains:
  assumes "drainable lib c cl env log d" and "\<And>m. q = Some m \<Longrightarrow> keyOf (node_Meta m) \<notin> K"
  shows "keeps (draining lib cl log d K) (upgradeImpl_UncordonUpgradedNode (interfered env c) q)"
proof (cases q)
  case None
  then show ?thesis by (simp add: upgradeImpl_UncordonUpgradedNode_def)
next
  case (Some m)
  let ?obj = "m\<lparr>node_Taints := removeUpgradeTaint [] (node_Taints m)\<rparr>"
  have "keyOf (node_Meta ?obj) \<notin> K" using assms(2) [OF Some] by simp
  from upholds_call [OF draining_upholds [OF assms(1) this] patch_retaints [OF drainableD(1) [OF assms(1)]]] show ?thesis
    unfolding upgradeImpl_UncordonUpgradedNode_def Let_def interfered_simps Some option.case by (intro keeps_bind) simp_all
qed

text \<open>A successful cordon leaves the node it returns moved off.\<close>

lemma cordon_patch:
  assumes "lawfulClient lib c cl" and "\<not> hasUpgradeTaint (node_Taints n)"
    and "apiPatch (Nodes c) (n\<lparr>node_Taints := node_Taints n @ [upgradeTaint]\<rparr>) n w = (Inr m, w')"
  shows "movedOff lib d (keyOf (node_Meta m)) (cl w')"
proof -
  let ?obj = "n\<lparr>node_Taints := node_Taints n @ [upgradeTaint]\<rparr>"
  from triple_Inr [OF lawful_patch_node [OF assms(1)] refl assms(3)] obtain srv where
    "nodeMerged n ?obj srv m" and w': "cl w' = setNode m (cl w)" by auto
  then have "node_Taints m = node_Taints n @ [upgradeTaint]"
    using nodeIs_taints unfolding nodeMerged_nodeIs by (fastforce simp: mergedList_def)
  with w' show ?thesis by (simp add: movedOff_def hasUpgradeTaint_iff)
qed

lemma cordon_drains:
  assumes "drainable lib c cl env log d"
    and "\<And>n. p = Some n \<Longrightarrow> isNewNodeForUpgrade lib n d \<or> hasUpgradeTaint (node_Taints n) \<Longrightarrow> keyOf (node_Meta n) \<in> K"
  shows "triple (draining lib cl log d K) (upgradeImpl_CordonNodeForUpgrade lib (interfered env c) d p)
    (\<lambda>q. draining lib cl log d ((\<lambda>n. keyOf (node_Meta n)) ` set_option q)) (\<lambda>_. draining lib cl log d {})"
proof (cases p)
  case None
  then show ?thesis by (auto simp: upgradeImpl_CordonNodeForUpgrade_def intro!: triple_ret draining_none)
next
  case (Some n)
  let ?obj = "n\<lparr>node_Taints := node_Taints n @ [upgradeTaint]\<rparr>" and ?D = "draining lib cl log d"
  note law = drainableD(1) [OF assms(1)]
  have "keyOf (node_Meta ?obj) \<notin> {}" by simp
  from upholds_call [OF draining_upholds [OF assms(1) this] patch_retaints [OF law]]
  have run: "keeps (?D {}) (beforeEach env (apiPatch (Nodes c) ?obj n))" by simp
  have "triple (?D {}) (beforeEach env (apiPatch (Nodes c) ?obj n)) (\<lambda>m. ?D {keyOf (node_Meta m)}) (\<lambda>_. ?D {})"
    if "\<not> hasUpgradeTaint (node_Taints n)"
  proof (rule tripleI)
    fix w m w' assume "?D {} w" and "beforeEach env (apiPatch (Nodes c) ?obj n) w = (Inr m, w')"
    with triple_Inr [OF run [unfolded keeps_triple]] cordon_patch [OF law that, of "env w" m w' d]
    show "?D {keyOf (node_Meta m)} w'" by (simp add: draining_def soFar_def beforeEach_def)
  qed (use triple_Inl [OF run [unfolded keeps_triple]] in blast)
  then have patch: "triple (?D K) (beforeEach env (apiPatch (Nodes c) ?obj n)) (\<lambda>m. ?D {keyOf (node_Meta m)}) (\<lambda>_. ?D {})"
    if "\<not> hasUpgradeTaint (node_Taints n)"
    using that by (blast intro: triple_conseq draining_none)
  have skip: "triple (?D K) (ret (Some n)) (\<lambda>q. ?D ((\<lambda>n. keyOf (node_Meta n)) ` set_option q)) (\<lambda>_. ?D {})"
    if "isNewNodeForUpgrade lib n d \<or> hasUpgradeTaint (node_Taints n)"
    using assms(2) [OF Some that] by (intro triple_ret) (simp add: draining_def soFar_def)
  show ?thesis
    unfolding upgradeImpl_CordonNodeForUpgrade_def Let_def interfered_simps Some option.case
    by (intro triple_if triple_bind [OF patch] triple_ret skip) simp_all
qed

text \<open>The patch that asks for the version is a drained call if its node is moved off.\<close>

lemma kickoff_drained:
  assumes "lawfulClient lib c cl" and "movedOff lib d (keyOf (node_Meta n)) (cl w)"
    and "apiPatch (Nodes c) (nodeSetLabels ls n) n w = (r, w')"
  shows "drained lib d (cl w) (cl w')"
  using assms(1,3)
proof (cases rule: patch_written)
  case (written srv ts new)
  have k: "keyOf (node_Meta srv) = keyOf (node_Meta n)" and ts: "ts = node_Taints srv"
    using written(3,4) by (simp_all add: nodeSetLabels_def keyOf_def mergedList_def)
  have "isNewNodeForUpgrade lib srv d \<or> hasUpgradeTaint (node_Taints srv)"
    using assms(2) written(1) by (simp add: movedOff_def stored_def k)
  moreover have "cl_Nodes (cl w') j = (if j = keyOf (node_Meta n) then Some new else cl_Nodes (cl w) j)" for j
    using written(2) k by (simp add: rewrote_def) (metis nodeIs_key)
  ultimately show ?thesis
    using written(1) rewrote_taints [OF written(2)] ts k by (auto simp: drained_def stored_def)
qed simp

lemma kickoff_drains:
  assumes "drainable lib c cl env log d"
  shows "triple (draining lib cl log d ((\<lambda>n. keyOf (node_Meta n)) ` set_option q))
    (upgradeImpl_KickoffUpgrade lib (interfered env c) d q) (\<lambda>_. draining lib cl log d {}) (\<lambda>_. draining lib cl log d {})"
proof (cases q)
  case None
  then show ?thesis by (auto simp: upgradeImpl_KickoffUpgrade_def intro!: triple_ret)
next
  case (Some n)
  let ?D = "draining lib cl log d"
  have "?D {} w'" if "?D {keyOf (node_Meta n)} w" and run: "apiPatch (Nodes c) (nodeSetLabels ls n) n w = (r, w')" for ls w r w'
    unfolding draining_def
    by (rule soFar_call [where m = "apiPatch (Nodes c) (nodeSetLabels ls n) n", OF drainableD(3) [OF assms] _ run that(1) [unfolded draining_def]])
       (use kickoff_drained [OF drainableD(1) [OF assms] _ run] in simp_all)
  then have patch: "triple (?D {keyOf (node_Meta n)}) (beforeEach env (apiPatch (Nodes c) (nodeSetLabels ls n) n))
      (\<lambda>_. ?D {}) (\<lambda>_. ?D {})" for ls
    by (intro triple_env [where P = "?D {keyOf (node_Meta n)}"] tripleI draining_env [OF assms]) blast+
  show ?thesis unfolding Some KickoffUpgrade_Some interfered_simps option.set image_insert image_empty
    by (rule triple_bind [OF patch]) (simp add: triple_ret)
qed

text \<open>The node to be uncordoned is not the one that was picked.\<close>

definition pickedOff :: "library \<Rightarrow> DeviceConfig \<Rightarrow> Node option \<Rightarrow> nsname set" where
  "pickedOff lib d p = {keyOf (node_Meta n) | n. p = Some n \<and> (isNewNodeForUpgrade lib n d \<or> hasUpgradeTaint (node_Taints n))}"

lemma pick_other:
  assumes "distinct (map (\<lambda>n. keyOf (node_Meta n)) ns)"
    and "upgradeImpl_GetUpgradedNode lib d ns = Some m" and "k \<in> pickedOff lib d (upgradeImpl_GetNodeForUpgrade lib d ns)"
  shows "keyOf (node_Meta m) \<noteq> k"
proof -
  from assms(3) obtain n where n: "upgradeImpl_GetNodeForUpgrade lib d ns = Some n" and k: "k = keyOf (node_Meta n)"
    by (auto simp: pickedOff_def)
  have "m \<in> set ns" "getNodeUpgradeState lib m d = nodeUpgraded"
    using assms(2) by (auto simp: GetUpgradedNode_find dest: find_SomeD)
  moreover have "n \<in> set ns" "getNodeUpgradeState lib n d = nodeBeforeUpgrade"
    using ui.pick [unfolded NewUpgradeAPI_simps, OF n] by auto
  ultimately show ?thesis using assms(1) unfolding k distinct_map inj_on_def by fastforce
qed

lemma targeted_drains:
  assumes "drainable lib c cl env log d"
  shows "triple (draining lib cl log d {}) (upgradeImpl_GetTargetedNodes (interfered env c) d)
    (\<lambda>ns w. distinct (map (\<lambda>n. keyOf (node_Meta n)) ns) \<and>
       draining lib cl log d (pickedOff lib d (upgradeImpl_GetNodeForUpgrade lib d ns)) w)
    (\<lambda>_. draining lib cl log d {})"
  unfolding upgradeImpl_GetTargetedNodes_def interfered_simps
proof (rule triple_wrap, rule triple_env [where P = "draining lib cl log d {}", OF tripleI draining_env [OF assms]])
  note law = drainableD(1) [OF assms]
  fix w ns w' assume j: "draining lib cl log d {} w" and l: "apiList (Nodes c) (Selector (dc_Spec d)) w = (Inr ns, w')"
  note list = lawful_list_nodes [OF law l]
  let ?p = "upgradeImpl_GetNodeForUpgrade lib d ns"
  have "movedOff lib d k (cl w')" if "k \<in> pickedOff lib d ?p" for k
  proof -
    from that obtain n where n: "?p = Some n" "k = keyOf (node_Meta n)"
      "isNewNodeForUpgrade lib n d \<or> hasUpgradeTaint (node_Taints n)" by (auto simp: pickedOff_def)
    then have "n \<in> set ns" using ui.pick [unfolded NewUpgradeAPI_simps, OF n(1)] by simp
    with list n(2,3) show ?thesis by (simp add: movedOff_def stored_def)
  qed
  moreover have "draining lib cl log d {} w'" unfolding draining_def
    by (rule soFar_call [where m = "apiList (Nodes c) (Selector (dc_Spec d))", OF drainableD(3) [OF assms] _ l j [unfolded draining_def]])
       (use list(1) in simp_all)
  ultimately show "distinct (map (\<lambda>n. keyOf (node_Meta n)) ns) \<and> draining lib cl log d (pickedOff lib d ?p) w'"
    using list by (simp add: draining_def soFar_def)
next
  fix w e w' assume j: "draining lib cl log d {} w" and l: "apiList (Nodes c) (Selector (dc_Spec d)) w = (Inl e, w')"
  show "draining lib cl log d {} w'" unfolding draining_def
    by (rule soFar_call [where m = "apiList (Nodes c) (Selector (dc_Spec d))", OF drainableD(3) [OF assms] _ l j [unfolded draining_def]])
       (use lawful_list_nodes(1) [OF drainableD(1) [OF assms] l] in simp_all)
qed

lemma upgrade_drains:
  assumes "drainable lib c cl env log d"
  shows "keeps (draining lib cl log d {}) (dcrh_handleModuleVersionUpgrade (operatorHelper lib (interfered env c) f b) d)"
proof -
  let ?J = "draining lib cl log d" and ?c = "interfered env c" and ?pick = "upgradeImpl_GetNodeForUpgrade lib d"
  have kick: "triple (?J ((\<lambda>n. keyOf (node_Meta n)) ` set_option q))
      (bindE (upgradeImpl_KickoffUpgrade lib ?c d q) (\<lambda>_. ret ())) (\<lambda>_. ?J {}) (\<lambda>_. ?J {})" for q
    by (rule triple_bind [OF kickoff_drains [OF assms]]) (simp add: triple_ret)
  have cordon: "triple (?J (pickedOff lib d p)) (wrapE h (upgradeImpl_CordonNodeForUpgrade lib ?c d p))
      (\<lambda>q. ?J ((\<lambda>n. keyOf (node_Meta n)) ` set_option q)) (\<lambda>_. ?J {})" for h p
    by (rule triple_wrap, rule cordon_drains [OF assms]) (auto simp: pickedOff_def)
  have uncordon: "triple (?J (pickedOff lib d (?pick ns)))
      (wrapE g (upgradeImpl_UncordonUpgradedNode ?c (upgradeImpl_GetUpgradedNode lib d ns)))
      (\<lambda>_. ?J (pickedOff lib d (?pick ns))) (\<lambda>_. ?J {})" if "distinct (map (\<lambda>n. keyOf (node_Meta n)) ns)" for g ns
  proof (rule triple_wrap, rule triple_conseq)
    have "keyOf (node_Meta m) \<notin> pickedOff lib d (?pick ns)" if "upgradeImpl_GetUpgradedNode lib d ns = Some m" for m
      using pick_other [OF \<open>distinct _\<close> that] by blast
    from uncordon_drains [OF assms this, unfolded keeps_triple]
    show "triple (?J (pickedOff lib d (?pick ns))) (upgradeImpl_UncordonUpgradedNode ?c (upgradeImpl_GetUpgradedNode lib d ns))
        (\<lambda>_. ?J (pickedOff lib d (?pick ns))) (\<lambda>_. ?J (pickedOff lib d (?pick ns)))" .
  qed (assumption | erule draining_none)+
  show ?thesis
    unfolding keeps_triple dcrh_handleModuleVersionUpgrade_def Let_def newHelper_simps NewUpgradeAPI_simps
    by (rule triple_if, simp add: triple_ret)
       (rule triple_bind [OF triple_wrap [OF targeted_drains [OF assms]]], rule triple_pure,
        rule triple_bind [OF uncordon triple_bind [OF cordon kick]])
qed

section \<open>The whole reconciliation moves workloads off first\<close>

lemma drained_key:
  assumes "keyOf (dc_Meta d') = keyOf (dc_Meta d)"
  shows "draining lib cl log d' = draining lib cl log d" and "drainable lib c cl env log d' = drainable lib c cl env log d"
proof -
  have new: "isNewNodeForUpgrade lib n d' = isNewNodeForUpgrade lib n d" "versionLabel lib d' = versionLabel lib d" for n
    using assms by (simp_all add: isNewNodeForUpgrade_def keyOf_def)
  then have eq: "drained lib d' = drained lib d" "movedOff lib d' = movedOff lib d"
    by (simp_all add: fun_eq_iff drained_def movedOff_def)
  show "draining lib cl log d' = draining lib cl log d" "drainable lib c cl env log d' = drainable lib c cl env log d"
    by (rule ext) (simp_all only: draining_def drainable_def keepsMovedOff_def eq)
qed

lemma sameNodes_drained: "cl_Nodes c' = cl_Nodes c \<Longrightarrow> drained lib d c c'"
  by (simp add: drained_def)

lemma draining_other:
  assumes "drainable lib c cl env log d" and "\<And>x y. R x y \<Longrightarrow> cl_Nodes y = cl_Nodes x"
  shows "upholds c cl env R (draining lib cl log d {})"
  unfolding draining_def
  by (rule soFar_upholds [OF drainableD(2-4) [OF assms(1)] drained_refl]) (simp add: sameNodes_drained assms(2))

lemma named_write_Nodes: "named_write ns nm x y \<Longrightarrow> cl_Nodes y = cl_Nodes x"
  by (auto elim: named_writeE)

lemma finalizers_write_Nodes: "finalizers_write ns nm x y \<Longrightarrow> cl_Nodes y = cl_Nodes x"
  by (auto elim!: finalizers_write.cases simp: storeDC_def)

interpretation moves: reconciler_handlers "operatorReconciler lib (interfered env c) f b"
  "\<lambda>d'. drainable lib c cl env log d \<longrightarrow> keyOf (dc_Meta d') = keyOf (dc_Meta d)"
  "\<lambda>w. drainable lib c cl env log d \<longrightarrow> draining lib cl log d {} w"
  for lib c f b cl env log d
proof (cases "drainable lib c cl env log d")
  case True
  have up: "keeps (draining lib cl log d {}) (dcrh_handleModuleVersionUpgrade (operatorHelper lib (interfered env c) f b) d')"
    if "keyOf (dc_Meta d') = keyOf (dc_Meta d)" for d'
    using upgrade_drains [of lib c cl env log d' f b] True by (simp only: drained_key [OF that])
  note others = upholds_handlers [OF draining_other [OF True named_write_Nodes]]
  show "reconciler_handlers (operatorReconciler lib (interfered env c) f b)
     (\<lambda>d'. drainable lib c cl env log d \<longrightarrow> keyOf (dc_Meta d') = keyOf (dc_Meta d))
     (\<lambda>w. drainable lib c cl env log d \<longrightarrow> draining lib cl log d {} w)"
    by unfold_locales (simp_all add: True up others)
next
  case False
  then show "reconciler_handlers (operatorReconciler lib (interfered env c) f b)
     (\<lambda>d'. drainable lib c cl env log d \<longrightarrow> keyOf (dc_Meta d') = keyOf (dc_Meta d))
     (\<lambda>w. drainable lib c cl env log d \<longrightarrow> draining lib cl log d {} w)"
    by unfold_locales (simp_all add: keeps_def)
qed

lemma Reconcile_drains:
  assumes "drainable lib c cl env log d" and "om_DeletionTimestamp (dc_Meta d) = None"
    and "Reconcile (operatorReconciler lib (interfered env c) f b) d w = (r, w')" and "log w = []"
  shows "everyCall (drained lib d) (log w')"
proof -
  let ?h = "operatorReconciler lib (interfered env c) f b" and ?J = "draining lib cl log d {}"
  have after: "triple (\<lambda>v. ?J v \<and> keyOf (dc_Meta d') = keyOf (dc_Meta d)) (afterFinalizer ?h d') (\<lambda>_. ?J) (\<lambda>_. ?J)" for d'
    using moves.afterFinalizer_triple [of lib c cl env log d d' f b] assms(1) by simp
  have "triple ?J (setFinalizer ?h d) (\<lambda>d' v. ?J v \<and> keyOf (dc_Meta d') = keyOf (dc_Meta d)) (\<lambda>_. ?J)"
    using upholds_setFinalizer [OF draining_other [OF assms(1) finalizers_write_Nodes]] by simp
  from triple_bind [OF triple_wrap [OF this] after] have "triple ?J (Reconcile ?h d) (\<lambda>_. ?J) (\<lambda>_. ?J)"
    unfolding Reconcile_alive [OF assms(2)] .
  then have "keeps ?J (Reconcile ?h d)" by (simp add: keeps_triple)
  moreover have "?J w" by (simp add: draining_def soFar_def assms(4))
  ultimately have "?J w'" using assms(3) unfolding keeps_def by (metis snd_conv)
  then show ?thesis by (simp add: draining_def soFar_def)
qed

section \<open>The finalizer is set first\<close>

text \<open>A write of the operator that leaves the finalizer on the DeviceConfig.\<close>

definition heldWrite :: "library \<Rightarrow> DeviceConfig \<Rightarrow> cluster \<Rightarrow> cluster \<Rightarrow> bool" where
  "heldWrite lib d x y \<longleftrightarrow> call_write lib (dc_Namespace d) (dc_Name d) x y \<and> holdsFinalizer d y"

definition keepsFinalizer :: "('w \<Rightarrow> cluster) \<Rightarrow> ('w \<Rightarrow> 'w) \<Rightarrow> DeviceConfig \<Rightarrow> bool" where
  "keepsFinalizer cl env d \<longleftrightarrow> (\<forall>w. holdsFinalizer d (cl w) \<longrightarrow> holdsFinalizer d (cl (env w)))"

definition heldRun :: "library \<Rightarrow> ('w \<Rightarrow> cluster) \<Rightarrow> ('w \<Rightarrow> 'w) \<Rightarrow> DeviceConfig \<Rightarrow> cluster \<Rightarrow> cluster \<Rightarrow> bool" where
  "heldRun lib cl env d c0 c \<longleftrightarrow> runsAs cl env (heldWrite lib d) c0 c \<and> holdsFinalizer d c"

lemma heldRun_carries:
  assumes "lawfulWrites c cl" and "keepsFinalizer cl env d"
  shows "carries c cl env (object_write lib (dc_Namespace d) (dc_Name d)) (heldRun lib cl env d c0)"
proof -
  have "heldRun lib cl env d c0 y" if x: "heldRun lib cl env d c0 x" and w: "object_write lib (dc_Namespace d) (dc_Name d) x y" for x y
  proof -
    have "holdsFinalizer d y" using x object_write_DeviceConfigs [OF w] by (simp add: heldRun_def holdsFinalizer_def)
    with x call_object [OF w] show ?thesis by (auto simp: heldRun_def heldWrite_def intro: runsAs_step)
  qed
  moreover have "stableUnder (heldRun lib cl env d c0) cl env"
    using assms(2) by (auto simp: stableUnder_def heldRun_def keepsFinalizer_def runsAs_env)
  ultimately show ?thesis using assms(1) unfolding carries_def by blast
qed

lemma finalizer_patched:
  assumes "lawfulWrites c cl" and "lawfulFinalizers lib" and "deviceConfigFinalizer \<notin> set (dc_Finalizers d)"
    and "apiPatch (DeviceConfigs c)
      (setFinalizers (addFinalizer lib (dc_Finalizers d) deviceConfigFinalizer) d) d w = (r, w')"
  shows "(cl w' = cl w \<and> isl r) \<or> heldWrite lib d (cl w) (cl w')"
proof -
  let ?fs = "addFinalizer lib (dc_Finalizers d) deviceConfigFinalizer"
  have new: "deviceConfigFinalizer \<in> set ?fs" using assms(2) by (simp add: lawfulFinalizers_def)
  then have ne: "?fs \<noteq> dc_Finalizers d" "?fs \<noteq> []" using assms(3) by auto
  have key: "keyOf (dc_Meta (setFinalizers ?fs d)) = ownKey d" by (simp add: keyOf_def)
  from lawfulWritesD(6) [OF assms(1), unfolded lawfulPatchDC_def Let_def, THEN spec, of "setFinalizers ?fs d",
      THEN spec, of d, THEN spec, of w, unfolded key] assms(4) ne
  have "(cl w' = cl w \<and> isl r) \<or> (\<exists>srv. cl_DeviceConfigs (cl w) (ownKey d) = Some srv \<and>
      cl w' = storeDC (setFinalizers ?fs srv) (cl w))"
    by (cases r) (auto simp: dcMerged_finalizers mergedList_def)
  then show ?thesis
  proof (elim disj_forward exE conjE)
    fix srv assume srv: "cl_DeviceConfigs (cl w) (ownKey d) = Some srv" and w': "cl w' = storeDC (setFinalizers ?fs srv) (cl w)"
    have k: "keyOf (dc_Meta srv) = ownKey d" by (rule wellKeyed_key(4) [OF lawfulWritesD(1) [OF assms(1)] srv])
    from call_finalizers [OF finalizers_stored [OF srv k]] k new ne(2) show "heldWrite lib d (cl w) (cl w')"
      unfolding w' heldWrite_def by (simp add: holdsFinalizer_def storeDC_at keyOf_def [of "dc_Meta d"])
  qed simp
qed

lemma setFinalizer_held:
  assumes "lawfulWrites c cl" and "lawfulFinalizers lib" and "keepsFinalizer cl env d"
    and "deviceConfigFinalizer \<in> set (dc_Finalizers d) \<longrightarrow> holdsFinalizer d (cl w)"
    and "dcrh_setFinalizer lib (operatorHelper lib (interfered env c) f b) d w = (r, w')"
  shows "runsAs cl env (heldWrite lib d) (cl w) (cl w')"
    and "r = Inr d' \<Longrightarrow> heldRun lib cl env d (cl w) (cl w') \<and> keyOf (dc_Meta d') = keyOf (dc_Meta d)"
proof -
  have cf: "containsFinalizer lib fs x \<longleftrightarrow> x \<in> set fs" for fs x using assms(2) by (simp add: lawfulFinalizers_def)
  have "runsAs cl env (heldWrite lib d) (cl w) (cl w') \<and>
    (r = Inr d' \<longrightarrow> heldRun lib cl env d (cl w) (cl w') \<and> keyOf (dc_Meta d') = keyOf (dc_Meta d))"
  proof (cases "deviceConfigFinalizer \<in> set (dc_Finalizers d)")
    case True
    with assms(4,5) show ?thesis by (auto simp: dcrh_setFinalizer_def cf heldRun_def)
  next
    case False
    let ?obj = "setFinalizers (addFinalizer lib (dc_Finalizers d) deviceConfigFinalizer) d"
    have run: "apiPatch (DeviceConfigs c) ?obj d (env w) = (r, w')"
      using assms(5) False by (simp add: dcrh_setFinalizer_def cf Let_def beforeEach_def)
    have env: "runsAs cl env (heldWrite lib d) (cl w) (cl (env w))" by (simp add: runsAs_env)
    from finalizer_patched [OF assms(1,2) False run] show ?thesis
    proof
      assume held: "heldWrite lib d (cl (env w)) (cl w')"
      then have "holdsFinalizer d (cl w')" by (simp add: heldWrite_def)
      with runsAs_step [OF env held] patched_key [OF assms(1), of ?obj d "env w" d' w'] run show ?thesis
        by (auto simp: heldRun_def)
    qed (use env in auto)
  qed
  then show "runsAs cl env (heldWrite lib d) (cl w) (cl w')"
    and "r = Inr d' \<Longrightarrow> heldRun lib cl env d (cl w) (cl w') \<and> keyOf (dc_Meta d') = keyOf (dc_Meta d)" by blast+
qed

lemma Reconcile_held:
  assumes "lawfulWrites c cl" and "lawfulFinalizers lib" and "keepsFinalizer cl env d"
    and "deviceConfigFinalizer \<in> set (dc_Finalizers d) \<longrightarrow> holdsFinalizer d (cl w)"
    and "om_DeletionTimestamp (dc_Meta d) = None"
    and "Reconcile (operatorReconciler lib (interfered env c) f b) d w = (r, w')"
  shows "runsAs cl env (heldWrite lib d) (cl w) (cl w')"
proof -
  let ?h = "operatorReconciler lib (interfered env c) f b"
  obtain r1 w1 where s: "dcrh_setFinalizer lib (operatorHelper lib (interfered env c) f b) d w = (r1, w1)" by fastforce
  note set = setFinalizer_held [OF assms(1-4) s]
  show ?thesis
  proof (cases r1)
    case (Inl e)
    then have "w' = w1" using assms(6) s by (simp add: Reconcile_alive [OF assms(5)] bindE_def wrapE_def tryE_def)
    with set(1) show ?thesis by simp
  next
    case (Inr d')
    then have run: "afterFinalizer ?h d' w1 = (r, w')"
      using assms(6) s by (simp add: Reconcile_alive [OF assms(5)] bindE_def wrapE_def tryE_def)
    from set(2) [OF Inr] have held: "heldRun lib cl env d (cl w) (cl w1)" and key: "keyOf (dc_Meta d') = ownKey d"
      by (simp_all add: keyOf_def)
    from called_objects.afterFinalizer_keeps [of c cl env lib "dc_Namespace d" "dc_Name d" "heldRun lib cl env d (cl w)" d' f b]
      heldRun_carries [OF assms(1,3), where ?c0.0 = "cl w"] key
    have "keeps (\<lambda>v. heldRun lib cl env d (cl w) (cl v)) (afterFinalizer ?h d')" by simp
    with held run have "heldRun lib cl env d (cl w) (cl w')" unfolding keeps_def by (metis snd_conv)
    then show ?thesis by (simp add: heldRun_def)
  qed
qed

section \<open>The finalizer is given back last\<close>

text \<open>The nodes that carry the label of the version, and what has to be gone.\<close>

definition versionNodes :: "library \<Rightarrow> DeviceConfig \<Rightarrow> cluster \<Rightarrow> nsname set" where
  "versionNodes lib d c =
     {k. \<exists>n. cl_Nodes c k = Some n \<and> mapGet (node_Labels n) (versionLabel lib d) = Some (wanted d)}"

definition metricsGone :: "DeviceConfig \<Rightarrow> cluster \<Rightarrow> bool" where
  "metricsGone d c \<longleftrightarrow> cl_DaemonSets c (metricsKey d) = None"

definition moduleGone :: "DeviceConfig \<Rightarrow> cluster \<Rightarrow> bool" where
  "moduleGone d c \<longleftrightarrow> cl_Modules c (ownKey d) = None"

text \<open>The environment does not bring back what is gone.\<close>

definition keepsGone :: "library \<Rightarrow> ('w \<Rightarrow> cluster) \<Rightarrow> ('w \<Rightarrow> 'w) \<Rightarrow> DeviceConfig \<Rightarrow> bool" where
  "keepsGone lib cl env d \<longleftrightarrow> (\<forall>w. (metricsGone d (cl w) \<longrightarrow> metricsGone d (cl (env w))) \<and>
     (moduleGone d (cl w) \<longrightarrow> moduleGone d (cl (env w))) \<and>
     versionNodes lib d (cl (env w)) \<subseteq> versionNodes lib d (cl w))"

text \<open>
  How far the finalization is: the finalizer is held, the objects are gone (\<open>b1\<close> the metrics
  DaemonSet, \<open>b2\<close> the Module), and only the nodes in \<open>K\<close> carry the label.
\<close>

definition stage :: "library \<Rightarrow> DeviceConfig \<Rightarrow> bool \<Rightarrow> bool \<Rightarrow> nsname set \<Rightarrow> cluster \<Rightarrow> bool" where
  "stage lib d b1 b2 K c \<longleftrightarrow> holdsFinalizer d c \<and> (b1 \<longrightarrow> metricsGone d c) \<and> (b2 \<longrightarrow> moduleGone d c) \<and>
     versionNodes lib d c \<subseteq> K"

definition releasedLast :: "library \<Rightarrow> DeviceConfig \<Rightarrow> cluster \<Rightarrow> bool" where
  "releasedLast lib d c \<longleftrightarrow> holdsFinalizer d c \<or> (metricsGone d c \<and> moduleGone d c \<and> versionNodes lib d c = {})"

lemma stage_released: "stage lib d b1 b2 K c \<Longrightarrow> releasedLast lib d c"
  by (simp add: stage_def releasedLast_def)

lemma stage_stable:
  assumes "keepsFinalizer cl env d" and "keepsGone lib cl env d"
  shows "stableUnder (stage lib d b1 b2 K) cl env"
  using assms unfolding stableUnder_def stage_def keepsFinalizer_def keepsGone_def by blast

text \<open>Reads leave the stage as it is, and learn from a not-found error.\<close>

lemma staged_get:
  assumes "lawfulGet lib op cl sel" and "stableUnder (stage lib d b1 b2 K) cl env"
    and "\<And>w. stage lib d b1 b2 K (cl w) \<Longrightarrow> sel (cl w) k = None \<Longrightarrow> stage lib d b1' b2' K (cl w)"
    and "\<And>w. keyed meta (sel (cl w))"
  shows "triple (\<lambda>w. stage lib d b1 b2 K (cl w)) (beforeEach env (op k))
    (\<lambda>x w. stage lib d b1 b2 K (cl w) \<and> keyOf (meta x) = k)
    (\<lambda>e w. stage lib d b1 b2 K (cl w) \<and> (isNotFound lib e \<longrightarrow> stage lib d b1' b2' K (cl w)))"
proof (rule triple_before [OF tripleI assms(2)])
  fix w x w' assume s: "stage lib d b1 b2 K (cl w)" and run: "op k w = (Inr x, w')"
  from lawful_get [OF assms(1) run] keyedD [OF assms(4)] s
  show "stage lib d b1 b2 K (cl w') \<and> keyOf (meta x) = k" by force
next
  fix w e w' assume s: "stage lib d b1 b2 K (cl w)" and run: "op k w = (Inl e, w')"
  from lawful_get [OF assms(1) run] assms(3) [OF s] s
  show "stage lib d b1 b2 K (cl w') \<and> (isNotFound lib e \<longrightarrow> stage lib d b1' b2' K (cl w'))" by auto
qed

text \<open>A delete does not touch the DeviceConfig.\<close>

lemma holds_delete:
  assumes "lawfulDelete lib op meta cl sel put" and "keepsFinalizer cl env d"
    and "\<And>c m. cl_DeviceConfigs (put m c) = cl_DeviceConfigs c"
  shows "keeps (\<lambda>w. holdsFinalizer d (cl w)) (beforeEach env (op x))"
proof (rule keeps_before [where I = "holdsFinalizer d", OF keeps_delete [where I = "holdsFinalizer d", OF assms(1)]])
  show "stableUnder (holdsFinalizer d) cl env" using assms(2) by (simp add: stableUnder_def keepsFinalizer_def)
qed (simp add: holdsFinalizer_def assms(3))

text \<open>The loop over the listed nodes: a successful patch takes its node off the list.\<close>

lemma unlabel_keeps:
  assumes "lawfulClient lib c cl" and "mapGet (node_Labels n) (versionLabel lib d) \<noteq> None"
    and "apiPatch (Nodes c) (nodeSetLabels (mapDelete (node_Labels n) (versionLabel lib d)) n) n w = (r, w')"
    and "stage lib d b1 b2 K (cl w)"
  shows "stage lib d b1 b2 K (cl w')"
  using assms(1,3)
proof (cases rule: patch_written)
  case (written srv ts new)
  have "mapGet (node_Labels new) (versionLabel lib d) = None"
    using assms(2) by (auto simp: rewrote_labels [OF written(2)] mergedLabel_def)
  then have "versionNodes lib d (cl w') \<subseteq> versionNodes lib d (cl w)"
    using written(2) by (auto simp: versionNodes_def rewrote_def split: if_splits)
  with assms(4) written(2) show ?thesis
    by (auto simp: stage_def rewrote_def holdsFinalizer_def metricsGone_def moduleGone_def)
qed (use assms(4) in simp)

lemma unlabel_success:
  assumes "lawfulClient lib c cl" and "mapGet (node_Labels n) (versionLabel lib d) \<noteq> None"
    and "apiPatch (Nodes c) (nodeSetLabels (mapDelete (node_Labels n) (versionLabel lib d)) n) n w = (Inr m, w')"
  shows "keyOf (node_Meta n) \<notin> versionNodes lib d (cl w')"
proof -
  let ?obj = "nodeSetLabels (mapDelete (node_Labels n) (versionLabel lib d)) n"
  have key: "keyOf (node_Meta ?obj) = keyOf (node_Meta n)" by (simp add: nodeSetLabels_def keyOf_def)
  from triple_Inr [OF lawful_patch_node [OF assms(1)] refl assms(3), unfolded key] obtain srv where
    srv: "cl_Nodes (cl w) (keyOf (node_Meta n)) = Some srv" and new: "nodeMerged n ?obj srv m"
    and w': "cl w' = setNode m (cl w)" by auto
  have "keyOf (node_Meta m) = keyOf (node_Meta n)"
    using nodeIs_key [OF new [unfolded nodeMerged_nodeIs]] wellKeyed_key(1) [OF lawfulClientD(1) [OF assms(1)] srv] by simp
  moreover have "mapGet (node_Labels m) (versionLabel lib d) = None"
    using nodeIs_labels [OF new [unfolded nodeMerged_nodeIs]] assms(2) by (auto simp: mergedLabel_def)
  ultimately show ?thesis by (simp add: w' versionNodes_def)
qed

text \<open>A step of the loop over the listed nodes: a successful patch takes its node off the list.\<close>

lemma staged_patch:
  assumes "lawfulClient lib c cl" and "stableUnder (stage lib d b1 b2 K) cl env"
    and "mapGet (node_Labels n) (versionLabel lib d) \<noteq> None"
  shows "triple (\<lambda>w. stage lib d b1 b2 K (cl w))
    (beforeEach env (apiPatch (Nodes c) (nodeSetLabels (mapDelete (node_Labels n) (versionLabel lib d)) n) n))
    (\<lambda>_ w. stage lib d b1 b2 (K - {keyOf (node_Meta n)}) (cl w)) (\<lambda>_ w. releasedLast lib d (cl w))"
proof (rule triple_before [OF tripleI assms(2)])
  fix w m w' assume s: "stage lib d b1 b2 K (cl w)"
    and run: "apiPatch (Nodes c) (nodeSetLabels (mapDelete (node_Labels n) (versionLabel lib d)) n) n w = (Inr m, w')"
  from unlabel_keeps [OF assms(1,3) run s] unlabel_success [OF assms(1,3) run]
  show "stage lib d b1 b2 (K - {keyOf (node_Meta n)}) (cl w')" by (auto simp: stage_def)
next
  fix w e w' assume s: "stage lib d b1 b2 K (cl w)"
    and run: "apiPatch (Nodes c) (nodeSetLabels (mapDelete (node_Labels n) (versionLabel lib d)) n) n w = (Inl e, w')"
  from unlabel_keeps [OF assms(1,3) run s] show "releasedLast lib d (cl w')" by (rule stage_released)
qed

lemma staged_loop:
  assumes "lawfulClient lib c cl" and "\<And>K. stableUnder (stage lib d b1 b2 K) cl env"
    and "\<And>n. n \<in> set ns \<Longrightarrow> mapGet (node_Labels n) (versionLabel lib d) \<noteq> None"
    and "K \<subseteq> (\<lambda>n. keyOf (node_Meta n)) ` set ns"
  shows "triple (\<lambda>w. stage lib d b1 b2 K (cl w)) (removeLabelLoop (interfered env c) (versionLabel lib d) ns)
    (\<lambda>_ w. stage lib d b1 b2 {} (cl w)) (\<lambda>_ w. releasedLast lib d (cl w))"
  using assms(3,4)
proof (induction ns arbitrary: K)
  case Nil
  then show ?case unfolding removeLabelLoop.simps by (intro triple_ret) simp
next
  case (Cons n ns)
  have rest: "K - {keyOf (node_Meta n)} \<subseteq> (\<lambda>n. keyOf (node_Meta n)) ` set ns" using Cons.prems(2) by auto
  show ?case unfolding removeLabelLoop.simps Let_def interfered_simps
    by (rule triple_bind [OF triple_wrap [OF staged_patch [OF assms(1,2)]] Cons.IH [OF _ rest]]) (simp_all add: Cons.prems(1))
qed

lemma staged_unlabel:
  assumes "lawfulClient lib c cl" and "\<And>K. stableUnder (stage lib d b1 b2 K) cl env"
  shows "triple (\<lambda>w. stage lib d b1 b2 UNIV (cl w)) (upgradeImpl_RemoveUpgradeLabels lib (interfered env c) d)
    (\<lambda>_ w. stage lib d b1 b2 {} (cl w)) (\<lambda>_ w. releasedLast lib d (cl w))"
proof -
  let ?k = "versionLabel lib d" and ?keys = "\<lambda>ns. (\<lambda>n. keyOf (node_Meta n)) ` set ns"
  have list: "triple (\<lambda>w. stage lib d b1 b2 UNIV (cl w)) (beforeEach env (apiList (Nodes c) (Some [?k \<mapsto> wanted d])))
      (\<lambda>ns w. (\<forall>n \<in> set ns. mapGet (node_Labels n) ?k \<noteq> None) \<and> stage lib d b1 b2 (?keys ns) (cl w))
      (\<lambda>_ w. releasedLast lib d (cl w))"
  proof (rule triple_before [OF tripleI assms(2)])
    fix w ns w' assume s: "stage lib d b1 b2 UNIV (cl w)" and run: "apiList (Nodes c) (Some [?k \<mapsto> wanted d]) w = (Inr ns, w')"
    note list = lawful_list_nodes [OF assms(1) run]
    have set: "set ns = {n. stored (cl w) n \<and> mapGet (node_Labels n) ?k = Some (wanted d)}"
      using list(2) by (simp add: selects_def)
    have "versionNodes lib d (cl w) \<subseteq> ?keys ns"
    proof
      fix k assume "k \<in> versionNodes lib d (cl w)"
      then obtain n where n: "cl_Nodes (cl w) k = Some n" "mapGet (node_Labels n) ?k = Some (wanted d)"
        by (auto simp: versionNodes_def)
      from wellKeyed_key(1) [OF lawfulClientD(1) [OF assms(1)] n(1)] n have "n \<in> set ns" "k = keyOf (node_Meta n)"
        by (simp_all add: set stored_def)
      then show "k \<in> ?keys ns" by blast
    qed
    with s list(1) set show "(\<forall>n \<in> set ns. mapGet (node_Labels n) ?k \<noteq> None) \<and> stage lib d b1 b2 (?keys ns) (cl w')"
      by (auto simp: stage_def)
  next
    fix w e w' assume "stage lib d b1 b2 UNIV (cl w)" and run: "apiList (Nodes c) (Some [?k \<mapsto> wanted d]) w = (Inl e, w')"
    with lawful_list_nodes(1) [OF assms(1) run] show "releasedLast lib d (cl w')" by (simp add: stage_released)
  qed
  show ?thesis unfolding upgradeImpl_RemoveUpgradeLabels_def Let_def interfered_simps
    by (rule triple_bind [OF triple_wrap [OF list]], rule triple_pure, rule staged_loop [OF assms]) simp_all
qed

lemma staged_release:
  assumes "lawfulClient lib c cl" and "stableUnder (stage lib d True True {}) cl env"
  shows "triple (\<lambda>w. stage lib d True True {} (cl w)) (beforeEach env (apiPatch (DeviceConfigs c) (setFinalizers fs d) d))
    (\<lambda>_ w. releasedLast lib d (cl w)) (\<lambda>_ w. releasedLast lib d (cl w))"
proof -
  have "keeps (\<lambda>w. metricsGone d (cl w) \<and> moduleGone d (cl w) \<and> versionNodes lib d (cl w) = {})
      (apiPatch (DeviceConfigs c) (setFinalizers fs d) d)"
    by (rule keeps_patchDC [where I = "\<lambda>x. metricsGone d x \<and> moduleGone d x \<and> versionNodes lib d x = {}", OF assms(1)])
       (simp add: metricsGone_def moduleGone_def versionNodes_def storeDC_def)
  then have "triple (\<lambda>w. stage lib d True True {} (cl w)) (apiPatch (DeviceConfigs c) (setFinalizers fs d) d)
      (\<lambda>_ w. releasedLast lib d (cl w)) (\<lambda>_ w. releasedLast lib d (cl w))"
    unfolding keeps_triple by (rule triple_conseq) (auto simp: stage_def releasedLast_def)
  from triple_before [OF this assms(2)] show ?thesis .
qed

lemma finalize_last:
  assumes "lawfulClient lib c cl" and "keepsFinalizer cl env d" and "keepsGone lib cl env d"
  shows "triple (\<lambda>w. holdsFinalizer d (cl w)) (dcrh_finalizeDeviceConfig lib (operatorHelper lib (interfered env c) f b) d)
    (\<lambda>_ w. releasedLast lib d (cl w)) (\<lambda>_ w. releasedLast lib d (cl w))"
proof -
  let ?S = "\<lambda>b1 b2 K w. stage lib d b1 b2 K (cl w)" and ?Q = "\<lambda>w. releasedLast lib d (cl w)"
  note law = lawfulClientD [OF assms(1)] and stable = stage_stable [OF assms(2,3)]
  have keyed: "keyed ds_Meta (cl_DaemonSets (cl w))" "keyed mod_Meta (cl_Modules (cl w))" for w
    using law(1) by (simp_all add: wellKeyed_def)
  have getDS: "triple (?S False False UNIV) (beforeEach env (apiGet (DaemonSets c) (metricsKey d)))
      (\<lambda>x w. ?S False False UNIV w \<and> keyOf (ds_Meta x) = metricsKey d)
      (\<lambda>e w. ?S False False UNIV w \<and> (isNotFound lib e \<longrightarrow> ?S True False UNIV w))"
    by (rule staged_get [OF law(4) stable _ keyed(1)]) (simp add: stage_def metricsGone_def)
  have getMod: "triple (?S True False UNIV) (beforeEach env (apiGet (Modules c) (ownKey d)))
      (\<lambda>x w. ?S True False UNIV w \<and> keyOf (mod_Meta x) = ownKey d)
      (\<lambda>e w. ?S True False UNIV w \<and> (isNotFound lib e \<longrightarrow> ?S True True UNIV w))"
    by (rule staged_get [OF law(5) stable _ keyed(2)]) (simp add: stage_def moduleGone_def)
  have "triple (\<lambda>w. holdsFinalizer d (cl w)) (beforeEach env (apiDelete (DaemonSets c) x)) (\<lambda>_. ?Q) (\<lambda>_. ?Q)"
    "triple (\<lambda>w. holdsFinalizer d (cl w)) (beforeEach env (apiDelete (Modules c) y)) (\<lambda>_. ?Q) (\<lambda>_. ?Q)" for x y
    by (rule triple_conseq [OF holds_delete [OF law(9) assms(2), unfolded keeps_triple]]
        triple_conseq [OF holds_delete [OF law(10) assms(2), unfolded keeps_triple]]; simp add: releasedLast_def)+
  then have del: "triple (?S b1 b2 K) (beforeEach env (apiDelete (DaemonSets c) x)) (\<lambda>_. ?Q) (\<lambda>_. ?Q)"
    "triple (?S b1 b2 K) (beforeEach env (apiDelete (Modules c) y)) (\<lambda>_. ?Q) (\<lambda>_. ?Q)" for x y b1 b2 K
    by (blast intro: triple_conseq stage_def [THEN iffD1, THEN conjunct1])+
  have last: "triple (?S True True UNIV) (bindE (wrapE g (upgradeImpl_RemoveUpgradeLabels lib (interfered env c) d))
      (\<lambda>_. beforeEach env (apiPatch (DeviceConfigs c) (setFinalizers fs d) d))) (\<lambda>_. ?Q) (\<lambda>_. ?Q)" for g fs
    by (rule triple_bind [OF triple_wrap [OF staged_unlabel [OF assms(1) stable]] staged_release [OF assms(1) stable]])
  have start: "?S False False UNIV w \<longleftrightarrow> holdsFinalizer d (cl w)" for w by (simp add: stage_def)
  have known: "triple (\<lambda>w. ?S b1 b2 UNIV w \<and> (isNotFound lib e \<longrightarrow> ?S b1' b2' UNIV w))
      (if \<not> isNotFound lib e then fail e' else m) (\<lambda>_. ?Q) (\<lambda>_. ?Q)"
    if "triple (?S b1' b2' UNIV) m (\<lambda>_. ?Q) (\<lambda>_. ?Q)" for b1 b2 b1' b2' e e' and m :: "('a, DeviceConfig) io"
    by (rule triple_if, rule triple_fail, blast intro: stage_released, rule triple_conseq [OF that]) auto
  have ret: "triple ?Q (ret d) (\<lambda>_. ?Q) (\<lambda>_. ?Q)" "triple ?Q (fail e) (\<lambda>_. ?Q) (\<lambda>_. ?Q)" for e
    by (rule triple_ret triple_fail; assumption)+
  have drop: "triple (?S b1 b2 K) m (\<lambda>_. ?Q) (\<lambda>_. ?Q) \<Longrightarrow> triple (\<lambda>w. ?S b1 b2 K w \<and> g) m (\<lambda>_. ?Q) (\<lambda>_. ?Q)"
    for b1 b2 K g and m :: "('a, DeviceConfig) io" by (erule triple_conseq) simp_all
  show ?thesis
    unfolding dcrh_finalizeDeviceConfig_def Let_def newHelper_simps NewUpgradeAPI_simps interfered_simps start [symmetric]
    by (rule triple_try [OF getDS], rule known, rule triple_try [OF getMod], rule known, rule last)
       (rule drop, (rule triple_try [OF del(2)] triple_bind [OF del(1)]; (rule triple_if)?; rule ret))+
qed

lemmas lawfulWrites_mem = lawfulClient_writes [OF lawfulClient_mem]

section \<open>Properties\<close>

text \<open>
  C4: the finalizer goes last, also when others act between the calls. Let the environment
  not take the finalizer off the DeviceConfig, not make the metrics DaemonSet or the Module
  again once they are gone, and put the version label with the wanted version on no node. If
  the DeviceConfig held the finalizer before a finalization and does not hold it, or does not
  exist, afterwards, then, whatever the outcome, the metrics DaemonSet and the Module are gone
  and no node carries the version label with the wanted version. (Nodes that carry it with
  another version keep it: finalization looks for the wanted version only.)
\<close>

theorem finalizer_released_last_interleaved:
  assumes "lawfulClient lib c cl" and "keepsFinalizer cl env d" and "keepsGone lib cl env d"
    and "dcrh_finalizeDeviceConfig lib (operatorHelper lib (interfered env c) f b) d w = (r, w')"
    and "holdsFinalizer d (cl w)" and "\<not> holdsFinalizer d (cl w')"
  shows "cl_DaemonSets (cl w') (NN (dc_Namespace d) (dc_Name d @ ''-node-metrics'')) = None \<and>
    cl_Modules (cl w') (NN (dc_Namespace d) (dc_Name d)) = None \<and>
    (\<forall>k n. cl_Nodes (cl w') k = Some n \<longrightarrow>
       mapGet (node_Labels n) (versionLabel lib d) \<noteq> Some (wanted d))"
proof -
  note t = finalize_last [OF assms(1-3), of f b]
  have "releasedLast lib d (cl w')"
    by (cases r) (use assms(4,5) triple_Inl [OF t] triple_Inr [OF t] in blast)+
  with assms(6) show ?thesis by (auto simp: releasedLast_def metricsGone_def moduleGone_def versionNodes_def)
qed

lemma finalizer_released_last_interleaved_witness:
  "dcrh_finalizeDeviceConfig memLib exHelper (exDying [deviceConfigFinalizer, ''other''])
       (exWorld [exStarted ''a''] [exDying [deviceConfigFinalizer, ''other'']]) =
     (Inr (exDying [''other'']), exWorld [exFresh ''a''] [exDying [''other'']]) \<and>
   cl_Modules (memCluster (exWorld [exFresh ''a''] [exDying [''other'']])) (NN ''ns'' ''neuron'') = None"
proof -
  let ?d = "exDying [deviceConfigFinalizer, ''other'']"
  have run: "dcrh_finalizeDeviceConfig memLib (operatorHelper memLib (interfered (\<lambda>w. w) memClient) ''FROM'' False) ?d
      (exWorld [exStarted ''a''] [?d]) = (Inr (exDying [''other'']), exWorld [exFresh ''a''] [exDying [''other'']])"
    unfolding interfered_id by (rule ex_finalize) simp_all
  have "keepsFinalizer memCluster (\<lambda>w. w) ?d" "keepsGone memLib memCluster (\<lambda>w. w) ?d"
    by (simp_all add: keepsFinalizer_def keepsGone_def)
  from finalizer_released_last_interleaved [OF lawfulClient_mem this run] run show ?thesis
    by (simp add: holdsFinalizer_def interfered_id deviceConfigFinalizer_def)
qed

text \<open>
  C5: workloads are moved off first, also when others act between the calls. Let the
  environment neither take the upgrade taint off a node that has a version label nor put such
  a label on a node without the taint. Then, of the API calls that a reconciliation of a
  DeviceConfig that is not being deleted makes, whatever its outcome, each single one (its
  cluster before and after the call) gives another version label only to a node that is new
  to the rollout or carries the NoExecute taint at that moment. The calls are those that the
  same run records, which has the same result and leaves the same world.
\<close>

theorem upgrade_drains_first_interleaved:
  assumes "lawfulClient lib c cl" and "keepsMovedOff lib cl env d" and "om_DeletionTimestamp (dc_Meta d) = None"
    and "Reconcile (operatorReconciler lib (interfered env c) f b) d w = (r, w')"
  shows "\<exists>h. Reconcile (operatorReconciler lib (interfered (apfst env) (recorded cl c)) f b) d (w, []) = (r, (w', h)) \<and>
    (\<forall>(x, y) \<in> set h. drained lib d x y)"
proof (rule Reconcile_recorded [OF assms(4)])
  fix h assume run: "Reconcile (operatorReconciler lib (interfered (apfst env) (recorded cl c)) f b) d (w, []) = (r, (w', h))"
  have "drainable lib (recorded cl c) (recordedCluster cl) (apfst env) snd d"
    using assms(2) by (simp add: drainable_def recorded_lawful [OF assms(1)] keepsLog_recorded keepsMovedOff_def)
  from Reconcile_drains [OF this assms(3) run] run show ?thesis by (auto simp: everyCall_def)
qed

lemma exToggle_Nodes: "cl_Nodes (memCluster (exToggle w)) k = Some n \<Longrightarrow>
    n = exFresh ''c'' \<or> cl_Nodes (memCluster w) k = Some n"
  by (auto simp: exToggle_def toggled_def lookup_putObj lookup_removeKey split: option.splits if_splits)

lemma upgrade_drains_first_interleaved_witness:
  "\<exists>w' h. Reconcile (operatorReconciler memLib (interfered (apfst exToggle) (recorded memCluster memClient)) ''FROM'' False)
       (exDC ''2'') (exWorld [exFresh ''a'', exFresh ''b''] [exDC ''2''], []) = (Inr zeroResult, (w', h)) \<and>
     m_Nodes w' = [exStarted ''b'', exFresh ''a''] \<and> (\<forall>(x, y) \<in> set h. drained memLib (exDC ''2'') x y)"
proof -
  obtain w' where run: "Reconcile (operatorReconciler memLib (interfered exToggle memClient) ''FROM'' False)
      (exDC ''2'') (exWorld [exFresh ''a'', exFresh ''b''] [exDC ''2'']) = (Inr zeroResult, w')"
    and nodes: "m_Nodes w' = [exStarted ''b'', exFresh ''a'']" using among_Reconcile by blast
  have fresh: "isNewNodeForUpgrade memLib (exFresh ''c'') (exDC ''2'')" by (simp add: isNewNodeForUpgrade_def)
  then have "keepsMovedOff memLib memCluster exToggle (exDC ''2'')"
    unfolding keepsMovedOff_def movedOff_def using exToggle_Nodes by blast
  from upgrade_drains_first_interleaved [OF lawfulClient_mem this _ run] nodes show ?thesis by auto
qed

text \<open>
  C13: the guarantee of a reconciliation, call by call. Whatever the environment does before
  each call, whatever its reads return (they may come from a cache that lags behind) and
  whatever the outcome, a reconciliation is a run in which each step that the
  operator makes changes at most one object: one that bears the name of the DeviceConfig, a
  stored node, of whose labels only the version label can change, or the DeviceConfig, of
  which only the finalizers can change.
\<close>

theorem reconcile_guarantee:
  assumes "lawfulWrites c cl" and "Reconcile (operatorReconciler lib (interfered env c) f b) d w = (r, w')"
  shows "runsAs cl env (call_write lib (dc_Namespace d) (dc_Name d)) (cl w) (cl w')"
  by (rule Reconcile_runs [OF assms])

lemma reconcile_guarantee_witness:
  "\<exists>w'. runsAs memCluster exToggle (call_write memLib ''ns'' ''neuron'')
       (memCluster (exWorld [exFresh ''a'', exFresh ''b''] [exDC ''2''])) (memCluster w') \<and>
     m_Nodes w' = [exStarted ''b'', exFresh ''a'']"
  using among_Reconcile reconcile_guarantee [OF lawfulWrites_mem, of memLib exToggle "''FROM''" False "exDC ''2''"] by auto

text \<open>
  C14: the finalizer comes first, also when others act between the calls and when reads are
  answered from a cache that lags behind. Let the environment not take the finalizer off the
  DeviceConfig, and let the stored DeviceConfig have it when the copy that is reconciled has
  it. Then a reconciliation of a DeviceConfig that is not being deleted, whatever its outcome,
  is a run in which the finalizer is on the stored DeviceConfig after each write that the
  operator makes.
\<close>

theorem finalizer_before_objects_interleaved:
  assumes "lawfulWrites c cl" and "lawfulFinalizers lib" and "keepsFinalizer cl env d"
    and "deviceConfigFinalizer \<in> set (dc_Finalizers d) \<longrightarrow> holdsFinalizer d (cl w)"
    and "om_DeletionTimestamp (dc_Meta d) = None"
    and "Reconcile (operatorReconciler lib (interfered env c) f b) d w = (r, w')"
  shows "runsAs cl env (\<lambda>x y. call_write lib (dc_Namespace d) (dc_Name d) x y \<and> holdsFinalizer d y) (cl w) (cl w')"
  using Reconcile_held [OF assms] unfolding heldWrite_def [abs_def] .

lemma finalizer_before_objects_interleaved_witness:
  "\<exists>w'. runsAs memCluster exToggle (heldWrite memLib (exDC ''2''))
       (memCluster (exWorld [exFresh ''a'', exFresh ''b''] [exDC ''2''])) (memCluster w') \<and>
     m_Nodes w' = [exStarted ''b'', exFresh ''a'']"
proof -
  obtain w' where run: "Reconcile (operatorReconciler memLib (interfered exToggle memClient) ''FROM'' False)
      (exDC ''2'') (exWorld [exFresh ''a'', exFresh ''b''] [exDC ''2'']) = (Inr zeroResult, w')"
    and nodes: "m_Nodes w' = [exStarted ''b'', exFresh ''a'']" using among_Reconcile by blast
  have "keepsFinalizer memCluster exToggle (exDC ''2'')" by (simp add: keepsFinalizer_def holdsFinalizer_def exToggle_def)
  from finalizer_before_objects_interleaved [OF lawfulWrites_mem lawfulFinalizers_mem this _ _ run] nodes
  show ?thesis unfolding heldWrite_def [abs_def] by auto
qed

text \<open>
  C34: DeviceConfigs are isolated. For two DeviceConfigs of different names or namespaces and
  different version labels, and an environment that leaves the objects of the second alone, a
  reconciliation of the first, whatever its outcome, with the environment acting before
  every call and reads that may lag behind, leaves the second and all its objects as they
  were, and its version labels on all nodes.
\<close>

theorem deviceconfigs_isolated:
  assumes "lawfulWrites c cl" and "ownKey d1 \<noteq> ownKey d2" and "versionLabel lib d1 \<noteq> versionLabel lib d2"
    and "\<And>v. ownView lib d2 (cl (env v)) = ownView lib d2 (cl v)"
    and "Reconcile (operatorReconciler lib (interfered env c) f b) d1 w = (r, w')"
  shows "ownView lib d2 (cl w') = ownView lib d2 (cl w)"
proof (rule Reconcile_carries [where I = "\<lambda>x. ownView lib d2 x = ownView lib d2 (cl w)", OF _ _ assms(5)])
  show "carries c cl env (call_write lib (dc_Namespace d1) (dc_Name d1)) (\<lambda>x. ownView lib d2 x = ownView lib d2 (cl w))"
    using call_view [OF _ assms(2,3)] assms(1,4) by (simp add: carries_def stableUnder_def)
qed (rule refl)

lemma deviceconfigs_isolated_witness:
  "\<exists>w'. Reconcile (operatorReconciler memLib memClient ''FROM'' False) (exDC ''2'')
       (exWorld [exFresh ''a'', exFresh ''b''] [exDC ''2'']) = (Inr zeroResult, w') \<and>
     m_Nodes w' = [exStarted ''b'', exFresh ''a''] \<and>
     ownView memLib exOther (memCluster w') = ownView memLib exOther (memCluster (exWorld [exFresh ''a'', exFresh ''b''] [exDC ''2'']))"
proof -
  let ?w = "exWorld [exFresh ''a'', exFresh ''b''] [exDC ''2'']"
  obtain w' where run: "Reconcile (operatorReconciler memLib (interfered (\<lambda>w. w) memClient) ''FROM'' False) (exDC ''2'') ?w =
      (Inr zeroResult, w')" and nodes: "m_Nodes w' = [exStarted ''b'', exFresh ''a'']"
    unfolding interfered_id using ex_Reconcile [OF ex_upgrade] by blast
  have "versionLabel memLib (exDC ''2'') \<noteq> versionLabel memLib exOther" using exOther_labels by simp
  from deviceconfigs_isolated [OF lawfulWrites_mem _ this _ run] run nodes show ?thesis by (simp add: interfered_id)
qed

end
