(* ===== verification/Disruption.thy ===== *)
theory Disruption
  imports Guarantees Budget
begin

text \<open>
  What a reconciliation does to the nodes while others act between its calls: at most two
  nodes are written to and at most one is moved to another version, however old the list of
  nodes is that the choice was made from; and no node is asked for a version that the Module
  does not load at that moment.
\<close>

section \<open>A chain of handlers\<close>

text \<open>
  The handlers after setFinalizer, with an assertion after each of the first three; the last
  two keep the third one, which implies what holds when a handler fails.
\<close>

lemma afterFinalizer_chain:
  assumes "triple P0 (handleBuildConfigMap h d) (\<lambda>_. P1) (\<lambda>_. Q)" and "triple P1 (handleKMMModule h d) (\<lambda>_. P2) (\<lambda>_. Q)"
    and "triple P2 (handleModuleVersionUpgrade h d) (\<lambda>_. Q) (\<lambda>_. Q)"
    and "keeps Q (handleCustomScheduler h d)" and "keeps Q (handleNodeMetrics h d)"
  shows "triple P0 (afterFinalizer h d) (\<lambda>_. Q) (\<lambda>_. Q)"
proof -
  have sched: "triple Q (if b then wrapE g (handleCustomScheduler h d) else ret ()) (\<lambda>_. Q) (\<lambda>_. Q)" for b g
    using assms(4) unfolding keeps_triple by (intro triple_if triple_wrap triple_ret)
  have last: "triple Q (bindE (wrapE g (handleNodeMetrics h d)) (\<lambda>_. ret zeroResult)) (\<lambda>_. Q) (\<lambda>_. Q)" for g
    using assms(5) unfolding keeps_triple by (intro triple_bind [OF triple_wrap triple_ret])
  show ?thesis unfolding afterFinalizer_def
    by (rule triple_bind [OF triple_wrap [OF assms(1)]], rule triple_bind [OF triple_wrap [OF assms(2)]],
        rule triple_bind [OF triple_wrap [OF assms(3)]], rule triple_bind [OF sched last])
qed

section \<open>The budget under interference\<close>

abbreviation budgetStep :: "library \<Rightarrow> DeviceConfig \<Rightarrow> nsname \<Rightarrow> nsname \<Rightarrow> cluster \<Rightarrow> cluster \<Rightarrow> bool" where
  "budgetStep lib d j k x y \<equiv> nodesWithin {j, k} {k} lib d (cl_Nodes x) (cl_Nodes y)"

text \<open>A run in which nodes are not written to yet, and one that spends the budget on \<open>j\<close> and \<open>k\<close>.\<close>

definition unspent :: "('w \<Rightarrow> cluster) \<Rightarrow> ('w \<Rightarrow> 'w) \<Rightarrow> cluster \<Rightarrow> cluster \<Rightarrow> bool" where
  "unspent cl env c0 c \<longleftrightarrow> runsAs cl env (\<lambda>x y. cl_Nodes y = cl_Nodes x) c0 c"

definition spent :: "library \<Rightarrow> ('w \<Rightarrow> cluster) \<Rightarrow> ('w \<Rightarrow> 'w) \<Rightarrow> DeviceConfig \<Rightarrow> nsname \<Rightarrow> nsname \<Rightarrow> cluster \<Rightarrow> cluster \<Rightarrow> bool" where
  "spent lib cl env d j k c0 c \<longleftrightarrow> runsAs cl env (budgetStep lib d j k) c0 c"

lemma unspent_spent: "unspent cl env c0 c \<Longrightarrow> spent lib cl env d j k c0 c"
  unfolding unspent_def spent_def by (erule runsAs_mono) simp

lemma spent_step: "spent lib cl env d j k c0 x \<Longrightarrow> budgetStep lib d j k x y \<Longrightarrow> spent lib cl env d j k c0 y"
  unfolding spent_def by (rule runsAs_step)

lemma spent_carries:
  assumes "lawfulWrites c cl" and "\<And>x y. R x y \<Longrightarrow> budgetStep lib d j k x y"
  shows "carries c cl env R (spent lib cl env d j k c0)"
  using assms(1) spent_step [OF _ assms(2)] by (auto simp: carries_def spent_def [abs_def] runsAs_stable)

lemma unspent_carries:
  assumes "lawfulWrites c cl" and "\<And>x y. R x y \<Longrightarrow> cl_Nodes y = cl_Nodes x"
  shows "carries c cl env R (unspent cl env c0)"
  unfolding carries_def unspent_def [abs_def] using assms runsAs_stable
  by (auto intro: runsAs_step [where G = "\<lambda>x y. cl_Nodes y = cl_Nodes x"])

text \<open>A patch writes to its node, and to its version label only if the patch changes this label.\<close>

lemma patch_within:
  assumes "lawfulWrites c cl"
  shows "atMost cl (\<lambda>x y. nodesWithin {keyOf (node_Meta obj)} {keyOf (node_Meta obj)} lib d (cl_Nodes x) (cl_Nodes y))
      (apiPatch (Nodes c) obj base)"
    and "node_Labels obj = node_Labels base \<Longrightarrow>
      atMost cl (\<lambda>x y. nodesWithin {keyOf (node_Meta obj)} {} lib d (cl_Nodes x) (cl_Nodes y)) (apiPatch (Nodes c) obj base)"
proof -
  show "atMost cl (\<lambda>x y. nodesWithin {keyOf (node_Meta obj)} {keyOf (node_Meta obj)} lib d (cl_Nodes x) (cl_Nodes y))
      (apiPatch (Nodes c) obj base)"
  proof (rule atMostI)
    fix w r w' assume "apiPatch (Nodes c) obj base w = (r, w')"
    with assms(1) show "cl w' = cl w \<or>
        nodesWithin {keyOf (node_Meta obj)} {keyOf (node_Meta obj)} lib d (cl_Nodes (cl w)) (cl_Nodes (cl w'))"
      by (cases rule: patch_merged) (auto dest: rewrote_within)
  qed
  assume same: "node_Labels obj = node_Labels base"
  show "atMost cl (\<lambda>x y. nodesWithin {keyOf (node_Meta obj)} {} lib d (cl_Nodes x) (cl_Nodes y)) (apiPatch (Nodes c) obj base)"
  proof (rule atMostI)
    fix w r w' assume "apiPatch (Nodes c) obj base w = (r, w')"
    with assms(1) show "cl w' = cl w \<or> nodesWithin {keyOf (node_Meta obj)} {} lib d (cl_Nodes (cl w)) (cl_Nodes (cl w'))"
    proof (cases rule: patch_merged)
      case (written srv ts new)
      have "mergedLabel (node_Labels base) (node_Labels obj) (node_Labels srv) = mapGet (node_Labels srv)"
        using same by (simp add: fun_eq_iff mergedLabel_def)
      with retaint_within [OF _ written(1), of ts "cl w'" new] written(2,3) show ?thesis by simp
    qed simp
  qed
qed

lemma patched_node_key:
  assumes "lawfulWrites c cl" and "apiPatch (Nodes c) obj base w = (Inr new, w')"
  shows "keyOf (node_Meta new) = keyOf (node_Meta obj)"
proof -
  from lawfulWritesD(5) [OF assms(1), unfolded lawfulPatchNode_def Let_def, THEN spec, of obj, THEN spec, of base,
      THEN spec, of w] assms(2) obtain srv where srv: "cl_Nodes (cl w) (keyOf (node_Meta obj)) = Some srv"
    and new: "nodeMerged base obj srv new" by auto
  from nodeIs_key [OF new [unfolded nodeMerged_nodeIs]] wellKeyed_key(1) [OF lawfulWritesD(1) [OF assms(1)] srv]
  show ?thesis by simp
qed

section \<open>The handler within its budget\<close>

lemma spent_taints:
  assumes "lawfulWrites c cl" and "keyOf (node_Meta n) \<in> {j, k}"
  shows "keeps (\<lambda>w. spent lib cl env d j k c0 (cl w)) (beforeEach env (apiPatch (Nodes c) (n\<lparr>node_Taints := ts\<rparr>) n))"
proof (rule keeps_call [OF spent_carries [OF assms(1)] patch_within(2) [OF assms(1)]])
  fix x y :: cluster assume "nodesWithin {keyOf (node_Meta (n\<lparr>node_Taints := ts\<rparr>))} {} lib d (cl_Nodes x) (cl_Nodes y)"
  then show "budgetStep lib d j k x y" by (rule nodesWithin_mono) (use assms(2) in auto)
qed simp

lemma spent_uncordon:
  assumes "lawfulWrites c cl" and "\<And>m. q = Some m \<Longrightarrow> keyOf (node_Meta m) = j"
  shows "keeps (\<lambda>w. spent lib cl env d j k c0 (cl w)) (upgradeImpl_UncordonUpgradedNode (interfered env c) q)"
  unfolding upgradeImpl_UncordonUpgradedNode_def Let_def interfered_simps
  by (cases q) (use assms(2) in \<open>auto intro!: keeps_bind spent_taints [OF assms(1)]\<close>)

lemma spent_cordon:
  assumes "lawfulWrites c cl" and "\<And>n. p = Some n \<Longrightarrow> keyOf (node_Meta n) = k"
  shows "triple (\<lambda>w. spent lib cl env d j k c0 (cl w)) (upgradeImpl_CordonNodeForUpgrade lib (interfered env c) d' p)
    (\<lambda>q w. (\<forall>n. q = Some n \<longrightarrow> keyOf (node_Meta n) = k) \<and> spent lib cl env d j k c0 (cl w))
    (\<lambda>e w. spent lib cl env d j k c0 (cl w))"
proof (cases p)
  case None
  then show ?thesis by (simp add: upgradeImpl_CordonNodeForUpgrade_def triple_def)
next
  case (Some n)
  have k: "keyOf (node_Meta n) = k" using assms(2) [OF Some] .
  let ?m = "beforeEach env (apiPatch (Nodes c) (n\<lparr>node_Taints := node_Taints n @ [upgradeTaint]\<rparr>) n)"
  have keep: "triple (\<lambda>w. spent lib cl env d j k c0 (cl w)) ?m (\<lambda>_ w. spent lib cl env d j k c0 (cl w))
      (\<lambda>_ w. spent lib cl env d j k c0 (cl w))"
    unfolding keeps_triple [symmetric] by (rule spent_taints [OF assms(1)]) (simp add: k)
  have "triple (\<lambda>w. spent lib cl env d j k c0 (cl w)) ?m
      (\<lambda>m w. keyOf (node_Meta m) = k \<and> spent lib cl env d j k c0 (cl w)) (\<lambda>_ w. spent lib cl env d j k c0 (cl w))"
  proof (rule tripleI)
    fix w m w' assume "spent lib cl env d j k c0 (cl w)" and run: "?m w = (Inr m, w')"
    with triple_Inr [OF keep] patched_node_key [OF assms(1), of "n\<lparr>node_Taints := node_Taints n @ [upgradeTaint]\<rparr>" n "env w" m w'] k
    show "keyOf (node_Meta m) = k \<and> spent lib cl env d j k c0 (cl w')" by (simp add: beforeEach_def)
  qed (rule triple_Inl [OF keep])
  then show ?thesis
    unfolding upgradeImpl_CordonNodeForUpgrade_def Let_def interfered_simps Some option.case
    by (intro triple_if triple_bind [where R = "\<lambda>m w. keyOf (node_Meta m) = k \<and> spent lib cl env d j k c0 (cl w)"] triple_ret)
       (simp_all add: k)
qed

lemma spent_kickoff:
  assumes "lawfulWrites c cl" and "\<forall>n. q = Some n \<longrightarrow> keyOf (node_Meta n) = k"
  shows "keeps (\<lambda>w. spent lib cl env d j k c0 (cl w)) (upgradeImpl_KickoffUpgrade lib (interfered env c) d' q)"
proof (cases q)
  case None
  then show ?thesis by (simp add: upgradeImpl_KickoffUpgrade_def)
next
  case (Some n)
  have "keeps (\<lambda>w. spent lib cl env d j k c0 (cl w)) (beforeEach env (apiPatch (Nodes c) (nodeSetLabels ls n) n))" for ls
  proof (rule keeps_call [OF spent_carries [OF assms(1)] patch_within(1) [OF assms(1)]])
    fix x y :: cluster assume "nodesWithin {keyOf (node_Meta (nodeSetLabels ls n))} {keyOf (node_Meta (nodeSetLabels ls n))} lib d (cl_Nodes x) (cl_Nodes y)"
    then show "budgetStep lib d j k x y" by (rule nodesWithin_mono) (use assms(2) Some in \<open>simp_all add: nodeSetLabels_def keyOf_def\<close>)
  qed
  then show ?thesis unfolding Some KickoffUpgrade_Some interfered_simps by (intro keeps_bind) simp_all
qed

definition spentSome :: "library \<Rightarrow> ('w \<Rightarrow> cluster) \<Rightarrow> ('w \<Rightarrow> 'w) \<Rightarrow> DeviceConfig \<Rightarrow> cluster \<Rightarrow> cluster \<Rightarrow> bool" where
  "spentSome lib cl env d c0 c \<longleftrightarrow> (\<exists>j k. spent lib cl env d j k c0 c)"

lemma spentSomeI: "spent lib cl env d j k c0 c \<Longrightarrow> spentSome lib cl env d c0 c"
  by (auto simp: spentSome_def)

lemma upgrade_spends:
  assumes "lawfulWrites c cl"
  shows "triple (\<lambda>w. unspent cl env c0 (cl w)) (dcrh_handleModuleVersionUpgrade (operatorHelper lib (interfered env c) f b) d')
    (\<lambda>_ w. spentSome lib cl env d c0 (cl w)) (\<lambda>_ w. spentSome lib cl env d c0 (cl w))"
proof -
  let ?U = "\<lambda>w. unspent cl env c0 (cl w)" and ?Q = "\<lambda>w. spentSome lib cl env d c0 (cl w)" and ?c = "interfered env c"
  let ?B = "\<lambda>j k w. spent lib cl env d j k c0 (cl w)"
  have some: "unspent cl env c0 x \<Longrightarrow> spentSome lib cl env d c0 x" for x by (rule spentSomeI [OF unspent_spent])
  have "keeps ?U (upgradeImpl_GetTargetedNodes ?c d')"
    unfolding upgradeImpl_GetTargetedNodes_def interfered_simps
    by (intro keeps_wrap carries_list [OF unspent_carries [OF assms, of "\<lambda>x y. False"]]) simp
  then have list: "triple ?U (upgradeImpl_GetTargetedNodes ?c d') (\<lambda>_. ?U) (\<lambda>_. ?Q)"
    unfolding keeps_triple by (rule triple_conseq) (auto intro: some)
  have kick: "triple (\<lambda>w. (\<forall>n. q = Some n \<longrightarrow> keyOf (node_Meta n) = k) \<and> ?B j k w)
      (bindE (upgradeImpl_KickoffUpgrade lib ?c d' q) (\<lambda>_. ret ())) (\<lambda>_. ?Q) (\<lambda>_. ?Q)" for j k q
  proof (rule triple_pure)
    assume "\<forall>n. q = Some n \<longrightarrow> keyOf (node_Meta n) = k"
    from spent_kickoff [OF assms this, unfolded keeps_triple]
    have "triple (?B j k) (upgradeImpl_KickoffUpgrade lib ?c d' q) (\<lambda>_. ?Q) (\<lambda>_. ?Q)"
      by (rule triple_conseq) (auto intro: spentSomeI)
    then show "triple (?B j k) (bindE (upgradeImpl_KickoffUpgrade lib ?c d' q) (\<lambda>_. ret ())) (\<lambda>_. ?Q) (\<lambda>_. ?Q)"
      by (rule triple_bind) (simp add: triple_ret)
  qed
  have rest: "triple ?U (bindE (wrapE g (upgradeImpl_UncordonUpgradedNode ?c q))
      (\<lambda>_. bindE (wrapE h (upgradeImpl_CordonNodeForUpgrade lib ?c d' p))
        (\<lambda>q'. bindE (upgradeImpl_KickoffUpgrade lib ?c d' q') (\<lambda>_. ret ())))) (\<lambda>_. ?Q) (\<lambda>_. ?Q)" for g h p q
  proof -
    obtain j k where j: "\<And>m. q = Some m \<Longrightarrow> keyOf (node_Meta m) = j" and k: "\<And>n. p = Some n \<Longrightarrow> keyOf (node_Meta n) = k"
      by (cases p; cases q) auto
    have un: "triple ?U (upgradeImpl_UncordonUpgradedNode ?c q) (\<lambda>_. ?B j k) (\<lambda>_. ?Q)"
      by (rule triple_conseq [OF spent_uncordon [where j = j and k = k, OF assms, unfolded keeps_triple]])
         (auto intro: j unspent_spent spentSomeI)
    have co: "triple (?B j k) (upgradeImpl_CordonNodeForUpgrade lib ?c d' p)
        (\<lambda>q w. (\<forall>n. q = Some n \<longrightarrow> keyOf (node_Meta n) = k) \<and> ?B j k w) (\<lambda>_. ?Q)"
      by (rule triple_conseq [OF spent_cordon [where j = j and k = k, OF assms]]) (auto intro: k spentSomeI)
    show ?thesis by (rule triple_bind [OF triple_wrap [OF un] triple_bind [OF triple_wrap [OF co] kick]])
  qed
  have none: "triple ?U (ret ()) (\<lambda>_. ?Q) (\<lambda>_. ?Q)" by (rule triple_ret) (rule some)
  show ?thesis
    unfolding dcrh_handleModuleVersionUpgrade_def Let_def newHelper_simps NewUpgradeAPI_simps
    by (rule triple_if, rule none, rule triple_bind [OF triple_wrap [OF list] rest])
qed

lemma spentSome_named:
  assumes "lawfulWrites c cl"
  shows "carries c cl env (named_write ns nm) (spentSome lib cl env d c0)"
proof -
  have "carries c cl env (named_write ns nm) (spent lib cl env d j k c0)" for j k
    by (rule spent_carries [OF assms]) (simp add: named_write_Nodes)
  then show ?thesis unfolding carries_def stableUnder_def spentSome_def using assms by blast
qed

lemma Reconcile_spends:
  assumes "lawfulWrites c cl" and "om_DeletionTimestamp (dc_Meta d) = None"
    and "Reconcile (operatorReconciler lib (interfered env c) f b) d w = (r, w')"
  shows "spentSome lib cl env d (cl w) (cl w')"
proof -
  let ?h = "operatorReconciler lib (interfered env c) f b" and ?U = "\<lambda>v. unspent cl env (cl w) (cl v)"
    and ?Q = "\<lambda>v. spentSome lib cl env d (cl w) (cl v)"
  have some: "?U v \<Longrightarrow> ?Q v" for v by (rule spentSomeI [OF unspent_spent])
  note early = carries_handlers [OF unspent_carries [OF assms(1) named_write_Nodes]]
    and late = carries_handlers [OF spentSome_named [OF assms(1)]]
  have early': "triple ?U m (\<lambda>_. ?U) (\<lambda>_. ?Q)" if "keeps ?U m" for m :: "('a, unit) io"
    using that unfolding keeps_triple by (rule triple_conseq) (auto intro: some)
  have after: "triple ?U (afterFinalizer ?h d') (\<lambda>_. ?Q) (\<lambda>_. ?Q)" for d'
    by (rule afterFinalizer_chain [where ?P1.0 = ?U and ?P2.0 = ?U])
       (simp_all add: early' early late upgrade_spends [OF assms(1)])
  have fin: "carries c cl env (finalizers_write (dc_Namespace d) (dc_Name d)) (unspent cl env (cl w))"
    by (rule unspent_carries [OF assms(1)]) (rule finalizers_write_Nodes)
  have "triple ?U (setFinalizer ?h d) (\<lambda>_. ?U) (\<lambda>_. ?Q)" unfolding NewReconciler_simps
    by (rule triple_conseq [OF carries_setFinalizer [OF fin]]) (auto intro: some)
  from triple_bind [OF triple_wrap [OF this] after] have t: "triple ?U (Reconcile ?h d) (\<lambda>_. ?Q) (\<lambda>_. ?Q)"
    unfolding Reconcile_alive [OF assms(2)] .
  have "?U w" by (simp add: unspent_def)
  with triple_Inr [OF t] triple_Inl [OF t] assms(3) show ?thesis by (cases r) blast+
qed

section \<open>The Module is told first\<close>

text \<open>The Module of the DeviceConfig loads version \<open>v\<close>, and its config map holds the dockerfile.\<close>

definition moduleLoads :: "DeviceConfig \<Rightarrow> string \<Rightarrow> cluster \<Rightarrow> bool" where
  "moduleLoads d v c \<longleftrightarrow> (\<exists>m l. cl_Modules c (ownKey d) = Some m \<and> ms_ModuleLoader (mod_Spec m) = Some l \<and> ml_Version l = v)"

definition dockerfileAt :: "DeviceConfig \<Rightarrow> string \<Rightarrow> cluster \<Rightarrow> bool" where
  "dockerfileAt d f c \<longleftrightarrow> configMapHas c (dc_Namespace d) (''dockerfile-'' @ dc_Name d) ''dockerfile'' f"

text \<open>
  A call that leaves the nodes alone, or that is made while the Module loads a version \<open>v\<close>
  and its config map holds the dockerfile, and gives nodes no other version than this one.
\<close>

definition toldFirst :: "library \<Rightarrow> string \<Rightarrow> DeviceConfig \<Rightarrow> cluster \<Rightarrow> cluster \<Rightarrow> bool" where
  "toldFirst lib f d x y \<longleftrightarrow> cl_Nodes y = cl_Nodes x \<or> (\<exists>v. moduleLoads d v x \<and> dockerfileAt d f x \<and>
     (\<forall>k. versionAt lib d (cl_Nodes y) k \<in> {versionAt lib d (cl_Nodes x) k, Some v}))"

definition keepsBuilt :: "('w \<Rightarrow> cluster) \<Rightarrow> ('w \<Rightarrow> 'w) \<Rightarrow> string \<Rightarrow> DeviceConfig \<Rightarrow> bool" where
  "keepsBuilt cl env f d \<longleftrightarrow> (\<forall>w. (dockerfileAt d f (cl w) \<longrightarrow> dockerfileAt d f (cl (env w))) \<and>
     (\<forall>v. moduleLoads d v (cl w) \<longrightarrow> moduleLoads d v (cl (env w))))"

text \<open>
  A run of such calls so far; \<open>b\<close>: the dockerfile is in the config map at its end, \<open>V\<close>: the
  version that the Module loads then, if this is known.
\<close>

definition told :: "string \<Rightarrow> DeviceConfig \<Rightarrow> bool \<Rightarrow> string option \<Rightarrow> cluster \<Rightarrow> bool" where
  "told f d b V c \<longleftrightarrow> (b \<longrightarrow> dockerfileAt d f c) \<and> (\<forall>v. V = Some v \<longrightarrow> moduleLoads d v c)"

definition toldRun :: "library \<Rightarrow> ('w \<Rightarrow> cluster) \<Rightarrow> ('w \<Rightarrow> call_log) \<Rightarrow> string \<Rightarrow> DeviceConfig \<Rightarrow>
   bool \<Rightarrow> string option \<Rightarrow> 'w \<Rightarrow> bool" where
  "toldRun lib cl log f d b V = soFar cl log (toldFirst lib f d) (told f d b V)"

text \<open>The client, the environment and the log that the following is about.\<close>

definition tellable :: "library \<Rightarrow> 'w client \<Rightarrow> ('w \<Rightarrow> cluster) \<Rightarrow> ('w \<Rightarrow> 'w) \<Rightarrow> ('w \<Rightarrow> call_log) \<Rightarrow>
   string \<Rightarrow> DeviceConfig \<Rightarrow> bool" where
  "tellable lib c cl env log f d \<longleftrightarrow>
     lawfulClient lib c cl \<and> lawfulOwner lib \<and> keepsBuilt cl env f d \<and> keepsLog c cl env log"

lemma tellableD:
  assumes "tellable lib c cl env log f d"
  shows "lawfulClient lib c cl" and "lawfulOwner lib" and "lawfulWrites c cl" and "keepsLog c cl env log"
    and "stableUnder (told f d b V) cl env"
  using assms by (auto simp: tellable_def keepsBuilt_def stableUnder_def told_def lawfulClient_writes)

lemma toldRun_env: "tellable lib c cl env log f d \<Longrightarrow> toldRun lib cl log f d b V w \<Longrightarrow> toldRun lib cl log f d b V (env w)"
  unfolding toldRun_def by (rule soFar_env [OF tellableD(4,5)])

lemma toldRun_weaken: "toldRun lib cl log f d b V w \<Longrightarrow> toldRun lib cl log f d False None w"
  by (simp add: toldRun_def soFar_def told_def)

lemma toldFirst_nodes: "cl_Nodes y = cl_Nodes x \<Longrightarrow> toldFirst lib f d x y"
  by (simp add: toldFirst_def)

text \<open>Writes to other objects than nodes, and what they leave of the Module and the config map.\<close>

lemma told_upholds:
  assumes "tellable lib c cl env log f d" and "\<And>x y. R x y \<Longrightarrow> cl_Nodes y = cl_Nodes x"
    and "\<And>x y. told f d b V x \<Longrightarrow> R x y \<Longrightarrow> told f d b V y"
  shows "upholds c cl env R (toldRun lib cl log f d b V)"
  unfolding toldRun_def
  by (rule soFar_upholds [OF tellableD(3-5) [OF assms(1)]]) (simp_all add: toldFirst_nodes assms(2,3))

lemma told_other:
  assumes "tellable lib c cl env log f d" and "\<And>x y. R x y \<Longrightarrow> cl_Nodes y = cl_Nodes x"
  shows "upholds c cl env R (toldRun lib cl log f d False None)"
  by (rule told_upholds [OF assms(1)]) (simp_all add: told_def assms(2))

text \<open>The handlers with one call: the call runs in the world that the environment left to it.\<close>

lemma single_before:
  "dcrh_handleBuildConfigMap (operatorHelper lib (interfered env c) f b) d =
     beforeEach env (dcrh_handleBuildConfigMap (operatorHelper lib c f b) d)"
  "dcrh_handleKMMModule (operatorHelper lib (interfered env c) f b) d =
     beforeEach env (dcrh_handleKMMModule (operatorHelper lib c f b) d)"
  by (simp_all add: fun_eq_iff interfered_single beforeEach_def)

lemma triple_True_before:
  "triple (\<lambda>_. True) m Q (\<lambda>_ _. True) \<Longrightarrow> triple (\<lambda>_. True) (beforeEach env m) Q (\<lambda>_ _. True)"
  by (rule triple_env)

lemma told_build:
  assumes "tellable lib c cl env log f d" and "keyOf (dc_Meta d') = keyOf (dc_Meta d)"
  shows "triple (toldRun lib cl log f d False None) (dcrh_handleBuildConfigMap (operatorHelper lib (interfered env c) f b) d')
    (\<lambda>_. toldRun lib cl log f d True None) (\<lambda>_. toldRun lib cl log f d False None)"
proof -
  have keep: "keeps (toldRun lib cl log f d False None) (dcrh_handleBuildConfigMap (operatorHelper lib (interfered env c) f b) d')"
    by (rule upholds_handlers(1) [OF told_other [OF assms(1) named_write_Nodes]])
  have "builtAt lib f d' c \<Longrightarrow> dockerfileAt d f c" for c
    using assms(2) by (auto simp: dockerfileAt_def keyOf_def dest!: builtAt_dockerfile)
  then show ?thesis
    by (intro triple_conseq [OF triple_keep [OF keep, unfolded single_before,
          OF triple_True_before [OF build_desired [OF tellableD(1,2) [OF assms(1)]]], folded single_before]])
       (auto simp: toldRun_def soFar_def told_def)
qed

lemma told_kmm:
  assumes "tellable lib c cl env log f d" and "keyOf (dc_Meta d') = keyOf (dc_Meta d)"
  shows "triple (toldRun lib cl log f d True None) (dcrh_handleKMMModule (operatorHelper lib (interfered env c) f b) d')
    (\<lambda>_. toldRun lib cl log f d True (Some (wanted d'))) (\<lambda>_. toldRun lib cl log f d False None)"
proof -
  let ?R = "\<lambda>x y. cl_Nodes y = cl_Nodes x \<and> cl_ConfigMaps y = cl_ConfigMaps x"
  have "upholds c cl env ?R (toldRun lib cl log f d True None)"
    by (rule told_upholds [OF assms(1)]) (auto simp: told_def dockerfileAt_def configMapHas_def)
  note call = upholds_call [OF this atMost_framed [OF lawfulWritesD(10) [OF tellableD(3) [OF assms(1)]]]]
  have keep: "keeps (toldRun lib cl log f d True None) (dcrh_handleKMMModule (operatorHelper lib (interfered env c) f b) d')"
    unfolding dcrh_handleKMMModule_def Let_def newHelper_simps interfered_simps
    by (intro keeps_bind keeps_ret call) simp_all
  have "moduleAt lib d' c \<Longrightarrow> moduleLoads d (wanted d') c" for c
    using assms(2) by (auto simp: moduleLoads_def keyOf_def elim!: moduleAt_loader)
  then show ?thesis
    by (intro triple_conseq [OF triple_keep [OF keep, unfolded single_before,
          OF triple_True_before [OF kmm_desired [OF tellableD(1,2) [OF assms(1)]]], folded single_before]])
       (auto simp: toldRun_def soFar_def told_def)
qed

text \<open>A patch of the upgrade gives its node the label \<open>a\<close> or leaves it the one it had.\<close>

definition givesOnly :: "library \<Rightarrow> DeviceConfig \<Rightarrow> string option \<Rightarrow> cluster \<Rightarrow> cluster \<Rightarrow> bool" where
  "givesOnly lib d a x y \<longleftrightarrow> sameButNodes x y \<and>
     (\<forall>k. versionAt lib d (cl_Nodes y) k \<in> {versionAt lib d (cl_Nodes x) k, a})"

lemma patch_gives:
  assumes "lawfulWrites c cl"
    and "mapGet (node_Labels obj) (versionLabel lib d) \<in> {mapGet (node_Labels base) (versionLabel lib d), a}"
  shows "atMost cl (givesOnly lib d a) (apiPatch (Nodes c) obj base)"
proof (rule atMostI)
  fix w r w' assume "apiPatch (Nodes c) obj base w = (r, w')"
  with assms(1) show "cl w' = cl w \<or> givesOnly lib d a (cl w) (cl w')"
  proof (cases rule: patch_merged)
    case (written srv ts new)
    have "mapGet (node_Labels new) (versionLabel lib d) \<in> {mapGet (node_Labels srv) (versionLabel lib d), a}"
      using assms(2) by (auto simp: rewrote_labels [OF written(2)] mergedLabel_def)
    moreover have "sameButNodes (cl w) (cl w')" using written(2) by (simp add: rewrote_def sameButNodes_def)
    ultimately show ?thesis using written(1) rewrote_Nodes [OF written(2)]
      by (auto simp: givesOnly_def versionAt_def stored_def)
  qed simp
qed

lemma told_gives:
  assumes "tellable lib c cl env log f d"
  shows "upholds c cl env (givesOnly lib d (Some v)) (toldRun lib cl log f d True (Some v))"
  unfolding toldRun_def
proof (rule soFar_upholds [OF tellableD(3-5) [OF assms]])
  fix x y assume x: "told f d True (Some v) x" and g: "givesOnly lib d (Some v) x y"
  then have "toldFirst lib f d x y" by (auto simp: toldFirst_def told_def givesOnly_def)
  moreover have "told f d True (Some v) y" using x g
    by (auto simp: told_def givesOnly_def sameButNodes_def dockerfileAt_def configMapHas_def moduleLoads_def)
  ultimately show "toldFirst lib f d x y \<and> told f d True (Some v) y" ..
qed (simp add: toldFirst_nodes)

lemma told_upgrade:
  assumes "tellable lib c cl env log f d" and "keyOf (dc_Meta d') = keyOf (dc_Meta d)"
  shows "keeps (toldRun lib cl log f d True (Some (wanted d')))
    (dcrh_handleModuleVersionUpgrade (operatorHelper lib (interfered env c) f b) d')"
proof -
  have k: "versionLabel lib d' = versionLabel lib d" using assms(2) by (simp add: keyOf_def)
  note up = told_gives [OF assms(1), of "wanted d'"] and gives = patch_gives [OF tellableD(3) [OF assms(1)]]
  show ?thesis
    by (rule keeps_upgrade_calls; (rule upholds_list [OF up] | rule upholds_call [OF up gives], simp_all add: k))
qed

lemma Reconcile_told:
  assumes "tellable lib c cl env log f d" and "om_DeletionTimestamp (dc_Meta d) = None"
    and "Reconcile (operatorReconciler lib (interfered env c) f b) d w = (r, w')" and "log w = []"
  shows "everyCall (toldFirst lib f d) (log w')"
proof -
  let ?h = "operatorReconciler lib (interfered env c) f b" and ?T = "toldRun lib cl log f d"
  note named = upholds_handlers [OF told_other [OF assms(1) named_write_Nodes]]
  have after: "triple (?T False None) (afterFinalizer ?h d') (\<lambda>_. ?T False None) (\<lambda>_. ?T False None)"
    if "keyOf (dc_Meta d') = keyOf (dc_Meta d)" for d'
  proof (rule afterFinalizer_chain [where ?P1.0 = "?T True None" and ?P2.0 = "?T True (Some (wanted d'))"])
    show "triple (?T True (Some (wanted d'))) (handleModuleVersionUpgrade ?h d') (\<lambda>_. ?T False None) (\<lambda>_. ?T False None)"
      using told_upgrade [OF assms(1) that, unfolded keeps_triple]
      unfolding NewReconciler_simps by (rule triple_conseq) (auto intro: toldRun_weaken)
  qed (simp_all add: told_build [OF assms(1) that] told_kmm [OF assms(1) that] named)
  have fin: "upholds c cl env (finalizers_write (dc_Namespace d) (dc_Name d)) (?T False None)"
    by (rule told_other [OF assms(1)]) (rule finalizers_write_Nodes)
  have "triple (?T False None) (setFinalizer ?h d) (\<lambda>d' v. keyOf (dc_Meta d') = keyOf (dc_Meta d) \<and> ?T False None v) (\<lambda>_. ?T False None)"
    unfolding NewReconciler_simps by (rule triple_conseq [OF upholds_setFinalizer [OF fin]]) simp_all
  from triple_bind [OF triple_wrap [OF this] triple_pure [OF after]]
  have t: "triple (?T False None) (Reconcile ?h d) (\<lambda>_. ?T False None) (\<lambda>_. ?T False None)"
    unfolding Reconcile_alive [OF assms(2)] .
  have "?T False None w" by (simp add: toldRun_def soFar_def told_def assms(4))
  with triple_Inr [OF t] triple_Inl [OF t] assms(3) have "?T False None w'" by (cases r) blast+
  then show ?thesis by (simp add: toldRun_def soFar_def)
qed

section \<open>Properties\<close>

text \<open>
  C9: the disruption budget of a call. Whatever the environment does before each call,
  whatever list of nodes the cache returns and whatever the outcome, there are two nodes such
  that each step which a reconciliation of a DeviceConfig that is not being deleted makes
  writes to no other node (one loses its taint, one is upgraded) and changes the version
  label of none but the second.
\<close>

theorem disruption_budget_interleaved:
  assumes "lawfulWrites c cl" and "om_DeletionTimestamp (dc_Meta d) = None"
    and "Reconcile (operatorReconciler lib (interfered env c) f b) d w = (r, w')"
  shows "\<exists>j k. runsAs cl env (\<lambda>x y. nodesWithin {j, k} {k} lib d (cl_Nodes x) (cl_Nodes y)) (cl w) (cl w')"
  using Reconcile_spends [OF assms] unfolding spentSome_def spent_def .

lemma disruption_budget_interleaved_witness:
  "\<exists>w' j k. runsAs memCluster exToggle (\<lambda>x y. nodesWithin {j, k} {k} memLib (exDC ''2'') (cl_Nodes x) (cl_Nodes y))
       (memCluster (exWorld [exFresh ''a'', exFresh ''b''] [exDC ''2''])) (memCluster w') \<and>
     m_Nodes w' = [exStarted ''b'', exFresh ''a'']"
proof -
  obtain w' where run: "Reconcile (operatorReconciler memLib (interfered exToggle memClient) ''FROM'' False)
      (exDC ''2'') (exWorld [exFresh ''a'', exFresh ''b''] [exDC ''2'']) = (Inr zeroResult, w')"
    and nodes: "m_Nodes w' = [exStarted ''b'', exFresh ''a'']" using among_Reconcile by blast
  from disruption_budget_interleaved [OF lawfulWrites_mem _ run] nodes show ?thesis by auto
qed

text \<open>
  C10: the Module comes before the nodes, also when others act between the calls. Let the
  environment leave the version that the Module loads and the dockerfile in its config map as
  the operator has set them. Then, of the API calls that a reconciliation of a DeviceConfig
  that is not being deleted makes, whatever its outcome, each single one (its cluster before
  and after the call) leaves the nodes alone, or is made while the Module loads a version,
  with the dockerfile in the config map that it is built from, and asks nodes for no other
  version than this one. The calls are those that the same run records, which has the same
  result and leaves the same world.
\<close>

theorem module_before_nodes_interleaved:
  assumes "lawfulClient lib c cl" and "lawfulOwner lib" and "keepsBuilt cl env f d"
    and "om_DeletionTimestamp (dc_Meta d) = None"
    and "Reconcile (operatorReconciler lib (interfered env c) f b) d w = (r, w')"
  shows "\<exists>h. Reconcile (operatorReconciler lib (interfered (apfst env) (recorded cl c)) f b) d (w, []) = (r, (w', h)) \<and>
    (\<forall>(x, y) \<in> set h. toldFirst lib f d x y)"
proof (rule Reconcile_recorded [OF assms(5)])
  fix h assume run: "Reconcile (operatorReconciler lib (interfered (apfst env) (recorded cl c)) f b) d (w, []) = (r, (w', h))"
  have "tellable lib (recorded cl c) (recordedCluster cl) (apfst env) snd f d"
    using assms(2,3) by (simp add: tellable_def recorded_lawful [OF assms(1)] keepsLog_recorded keepsBuilt_def)
  from Reconcile_told [OF this assms(4) run] run show ?thesis by (auto simp: everyCall_def)
qed

lemma module_before_nodes_interleaved_witness:
  "\<exists>w' h. Reconcile (operatorReconciler memLib (interfered (apfst exToggle) (recorded memCluster memClient)) ''FROM'' False)
       (exDC ''2'') (exWorld [exFresh ''a'', exFresh ''b''] [exDC ''2''], []) = (Inr zeroResult, (w', h)) \<and>
     m_Nodes w' = [exStarted ''b'', exFresh ''a''] \<and> (\<forall>(x, y) \<in> set h. toldFirst memLib ''FROM'' (exDC ''2'') x y)"
proof -
  obtain w' where run: "Reconcile (operatorReconciler memLib (interfered exToggle memClient) ''FROM'' False)
      (exDC ''2'') (exWorld [exFresh ''a'', exFresh ''b''] [exDC ''2'']) = (Inr zeroResult, w')"
    and nodes: "m_Nodes w' = [exStarted ''b'', exFresh ''a'']" using among_Reconcile by blast
  have "keepsBuilt memCluster exToggle ''FROM'' (exDC ''2'')"
    by (simp add: keepsBuilt_def dockerfileAt_def configMapHas_def moduleLoads_def exToggle_def)
  from module_before_nodes_interleaved [OF lawfulClient_mem lawfulOwner_mem this _ run] nodes show ?thesis by auto
qed

end
