(* ===== verification/Hazards.thy ===== *)
theory Hazards
  imports Disruption
begin

text \<open>
  What the interleaving of theory Interleaving does not protect: reads from a cache that lags
  behind, taints and finalizers that someone else writes between a read and a patch, and the
  one upgrade taint that all DeviceConfigs share.
\<close>

section \<open>Stale reads\<close>

text \<open>
  The client of \<open>main\<close> reads from a cache of the manager, which may lag behind. Here the world
  is the server in memory together with an older state of it: reads are answered from the
  older state, every other call goes to the server. Such a client is not lawful, but its
  writes are.
\<close>

definition onServer :: "(mem, 'a) io \<Rightarrow> (mem \<times> mem, 'a) io" where
  "onServer m w = (let (r, s) = m (fst w) in (r, (s, snd w)))"

definition fromCache :: "(mem, 'a) io \<Rightarrow> (mem \<times> mem, 'a) io" where
  "fromCache m w = (fst (m (snd w)), w)"

definition cachedApi :: "(mem, 'o) api \<Rightarrow> (mem \<times> mem, 'o) api" where
  "cachedApi a = \<lparr>apiGet = (\<lambda>k. fromCache (apiGet a k)), apiList = (\<lambda>s. fromCache (apiList a s)),
     apiCreateOrPatch = (\<lambda>x f. onServer (apiCreateOrPatch a x f)),
     apiCreateOrUpdate = (\<lambda>x f. onServer (apiCreateOrUpdate a x f)),
     apiPatch = (\<lambda>x y. onServer (apiPatch a x y)), apiDelete = (\<lambda>x. onServer (apiDelete a x))\<rparr>"

definition cachedClient :: "(mem \<times> mem) client" where
  "cachedClient = \<lparr>Nodes = cachedApi (Nodes memClient), Modules = cachedApi (Modules memClient),
     DaemonSets = cachedApi (DaemonSets memClient), Deployments = cachedApi (Deployments memClient),
     ConfigMaps = cachedApi (ConfigMaps memClient), DeviceConfigs = cachedApi (DeviceConfigs memClient)\<rparr>"

lemma cached_simps [simp]:
  "apiGet (cachedApi a) k = fromCache (apiGet a k)" "apiList (cachedApi a) s = fromCache (apiList a s)"
  "apiCreateOrPatch (cachedApi a) x f = onServer (apiCreateOrPatch a x f)"
  "apiPatch (cachedApi a) x y = onServer (apiPatch a x y)" "apiDelete (cachedApi a) x = onServer (apiDelete a x)"
  "Nodes cachedClient = cachedApi (Nodes memClient)" "Modules cachedClient = cachedApi (Modules memClient)"
  "DaemonSets cachedClient = cachedApi (DaemonSets memClient)"
  "Deployments cachedClient = cachedApi (Deployments memClient)"
  "ConfigMaps cachedClient = cachedApi (ConfigMaps memClient)"
  "DeviceConfigs cachedClient = cachedApi (DeviceConfigs memClient)"
  by (simp_all add: cachedApi_def cachedClient_def)

abbreviation serverCluster :: "mem \<times> mem \<Rightarrow> cluster" where
  "serverCluster w \<equiv> memCluster (fst w)"

lemma onServer_eq: "onServer m w = (fst (m (fst w)), (snd (m (fst w)), snd w))"
  by (simp add: onServer_def split: prod.split)

lemma cached_framed: "framedWrite m k memCluster sel put \<Longrightarrow> framedWrite (onServer m) k serverCluster sel put"
  by (simp add: framedWrite_def onServer_eq)

lemma cached_silent: "silentGet op meta memCluster \<Longrightarrow> silentGet (\<lambda>k. fromCache (op k)) meta serverCluster"
  by (simp add: silentGet_def fromCache_def)

lemma cached_patchNode:
  assumes "lawfulPatchNode a memCluster"
  shows "lawfulPatchNode (cachedApi a) serverCluster"
  unfolding lawfulPatchNode_def Let_def
proof (intro allI)
  fix obj base and w :: "mem \<times> mem"
  obtain r s where run: "apiPatch a obj base (fst w) = (r, s)" by fastforce
  from assms [unfolded lawfulPatchNode_def Let_def, THEN spec, of obj, THEN spec, of base, THEN spec, of "fst w"] run
  show "case apiPatch (cachedApi a) obj base w of
      (Inl e, w') \<Rightarrow> serverCluster w' = serverCluster w \<or> (\<exists>new srv. cl_Nodes (serverCluster w) (keyOf (node_Meta obj)) = Some srv \<and>
        nodeMerged base obj srv new \<and> serverCluster w' = (serverCluster w)\<lparr>cl_Nodes :=
          (cl_Nodes (serverCluster w))(keyOf (node_Meta obj) \<mapsto> new)\<rparr>)
    | (Inr new, w') \<Rightarrow> \<exists>srv. cl_Nodes (serverCluster w) (keyOf (node_Meta obj)) = Some srv \<and>
        nodeMerged base obj srv new \<and> serverCluster w' = (serverCluster w)\<lparr>cl_Nodes :=
          (cl_Nodes (serverCluster w))(keyOf (node_Meta obj) \<mapsto> new)\<rparr>"
    by (cases r) (simp_all add: onServer_eq)
qed

lemma cached_patchDC:
  assumes "lawfulPatchDC a memCluster"
  shows "lawfulPatchDC (cachedApi a) serverCluster"
  unfolding lawfulPatchDC_def Let_def
proof (intro allI)
  fix obj base and w :: "mem \<times> mem"
  obtain r s where run: "apiPatch a obj base (fst w) = (r, s)" by fastforce
  from assms [unfolded lawfulPatchDC_def Let_def, THEN spec, of obj, THEN spec, of base, THEN spec, of "fst w"] run
  show "case apiPatch (cachedApi a) obj base w of
      (Inl e, w') \<Rightarrow> serverCluster w' = serverCluster w \<or>
        (\<exists>new srv. cl_DeviceConfigs (serverCluster w) (keyOf (dc_Meta obj)) = Some srv \<and>
          new = dcMerged base obj srv \<and> serverCluster w' = storeDC new (serverCluster w))
    | (Inr new, w') \<Rightarrow> \<exists>srv. cl_DeviceConfigs (serverCluster w) (keyOf (dc_Meta obj)) = Some srv \<and>
        new = dcMerged base obj srv \<and> serverCluster w' = storeDC new (serverCluster w)"
    by (cases r) (simp_all add: onServer_eq)
qed

lemma lawfulWrites_cached: "lawfulWrites cachedClient serverCluster"
proof -
  note law = lawfulWritesD [OF lawfulWrites_mem]
  have get: "silentGet (apiGet (cachedApi (DaemonSets memClient))) ds_Meta serverCluster"
    "silentGet (apiGet (cachedApi (Modules memClient))) mod_Meta serverCluster"
    using cached_silent [OF law(3)] cached_silent [OF law(4)] by (simp_all add: cachedApi_def)
  have list: "serverCluster (snd (apiList (cachedApi (Nodes memClient)) s w)) = serverCluster w" for s w
    by (simp add: fromCache_def)
  have "wellKeyed (serverCluster w)" for w by (rule law(1))
  then show ?thesis unfolding lawfulWrites_def cached_simps(6-)
    using get list cached_patchNode [OF law(5)] cached_patchDC [OF law(6)] by (simp add: cached_framed law(7-))
qed

abbreviation exCached :: "(mem \<times> mem) deviceConfigReconcilerHelper" where
  "exCached \<equiv> operatorHelper memLib cachedClient ''FROM'' False"

text \<open>A call starts the node that is last in the cache, if the cache has two fresh ones.\<close>

lemma cached_upgrade:
  assumes "x \<noteq> y" and "lookup node_Meta (m_Nodes s) (NN [] y) = Some (exFresh y)"
    and "m_Nodes t = [exFresh x, exFresh y]"
  shows "dcrh_handleModuleVersionUpgrade exCached (exDC ''2'') (s, t) =
    (Inr (), (s\<lparr>m_Nodes := putObj node_Meta (exStarted y) (m_Nodes s)\<rparr>, t))"
proof -
  have b: "isNewNodeForUpgrade memLib (exFresh nm) (exDC v)"
    "getNodeUpgradeState memLib (exFresh nm) (exDC v) = nodeBeforeUpgrade" for nm v
    by (simp_all add: isNewNodeForUpgrade_def getNodeUpgradeState_def)
  have g: "mapGet (Some h) = h" for h by (simp add: fun_eq_iff)
  have l: "listing node_Meta (Some [''neuron'' \<mapsto> ''true'']) [exFresh x, exFresh y] = [exFresh x, exFresh y]"
    using assms(1) by (auto simp: listing_def exNode_def zeroMeta_def keyOf_def)
  show ?thesis
    by (simp add: dcrh_handleModuleVersionUpgrade_def bindE_def wrapE_def tryE_def Let_def b l assms(2,3)
        upgradeImpl_GetTargetedNodes_def upgradeImpl_GetNodeForUpgrade_def memClient_simps memList_def
        upgradeImpl_UncordonUpgradedNode_def upgradeImpl_CordonNodeForUpgrade_def upgradeImpl_KickoffUpgrade_def
        memPatchNode_def onServer_def fromCache_def)
       (simp add: exNode_def nodeSetLabels_def mergedLabel_def mergedList_def g)
qed

section \<open>What a list of nodes decides\<close>

text \<open>The version labels on the nodes of the cluster, as a function of the node.\<close>

abbreviation labelsAt :: "library \<Rightarrow> DeviceConfig \<Rightarrow> cluster \<Rightarrow> nsname \<Rightarrow> string option" where
  "labelsAt lib d x \<equiv> versionAt lib d (cl_Nodes x)"

lemma patch_labels:
  assumes "lawfulWrites c cl" and "node_Labels obj = node_Labels base" and "apiPatch (Nodes c) obj base w = (r, w')"
  shows "labelsAt lib d (cl w') = labelsAt lib d (cl w)"
  using patch_within(2) [OF assms(1,2), of lib d] assms(3) unfolding atMost_def nodesWithin_def
  by (auto simp: fun_eq_iff dest: spec [of _ w])

lemma uncordon_labels:
  assumes "lawfulWrites c cl" and "upgradeImpl_UncordonUpgradedNode c q w = (r, w')"
  shows "labelsAt lib d (cl w') = labelsAt lib d (cl w)"
proof (cases q)
  case (Some m)
  obtain r1 where "apiPatch (Nodes c) (m\<lparr>node_Taints := removeUpgradeTaint [] (node_Taints m)\<rparr>) m w = (r1, w')"
    using assms(2) by (auto simp: upgradeImpl_UncordonUpgradedNode_def Some bindE_def split: prod.splits sum.splits)
  then show ?thesis by (rule patch_labels [OF assms(1), rotated]) simp
qed (use assms(2) in \<open>simp add: upgradeImpl_UncordonUpgradedNode_def\<close>)

text \<open>The node that a cordon goes on with: the listed one, or the server's answer.\<close>

lemma cordon_labels:
  assumes "lawfulWrites c cl"
  shows "triple (\<lambda>w. labelsAt lib d (cl w) = L) (upgradeImpl_CordonNodeForUpgrade lib c d (Some n))
    (\<lambda>q w. labelsAt lib d (cl w) = L \<and> (\<exists>m. q = Some m \<and> keyOf (node_Meta m) = keyOf (node_Meta n) \<and>
      (m = n \<or> mapGet (node_Labels m) (versionLabel lib d) = L (keyOf (node_Meta n)))))
    (\<lambda>_ w. labelsAt lib d (cl w) = L)"
proof -
  let ?obj = "n\<lparr>node_Taints := node_Taints n @ [upgradeTaint]\<rparr>" and ?k = "keyOf (node_Meta n)"
  have patch: "triple (\<lambda>w. labelsAt lib d (cl w) = L) (apiPatch (Nodes c) ?obj n)
      (\<lambda>m w. labelsAt lib d (cl w) = L \<and> keyOf (node_Meta m) = ?k \<and> mapGet (node_Labels m) (versionLabel lib d) = L ?k)
      (\<lambda>_ w. labelsAt lib d (cl w) = L)"
  proof (rule tripleI)
    fix w m w' assume l: "labelsAt lib d (cl w) = L" and run: "apiPatch (Nodes c) ?obj n w = (Inr m, w')"
    from lawfulWritesD(5) [OF assms, unfolded lawfulPatchNode_def Let_def, THEN spec, of ?obj, THEN spec, of n,
        THEN spec, of w] run have at: "cl_Nodes (cl w') ?k = Some m" by auto
    have l': "labelsAt lib d (cl w') = L" using patch_labels [OF assms _ run, of lib d] l by simp
    from fun_cong [OF this, of ?k] at have "mapGet (node_Labels m) (versionLabel lib d) = L ?k" by (simp add: versionAt_def)
    moreover have "keyOf (node_Meta m) = ?k" using patched_node_key [OF assms run] by simp
    ultimately show "labelsAt lib d (cl w') = L \<and> keyOf (node_Meta m) = ?k \<and> mapGet (node_Labels m) (versionLabel lib d) = L ?k"
      using l' by simp
  next
    fix w e w' assume l: "labelsAt lib d (cl w) = L" and run: "apiPatch (Nodes c) ?obj n w = (Inl e, w')"
    show "labelsAt lib d (cl w') = L" using patch_labels [OF assms _ run, of lib d] l by simp
  qed
  show ?thesis unfolding upgradeImpl_CordonNodeForUpgrade_def Let_def option.case
    by (intro triple_if triple_bind [OF patch] triple_ret) auto
qed

text \<open>Starting the node that the cordon went on with leaves the wanted version on the server's node.\<close>

lemma kickoff_labels:
  assumes "lawfulWrites c cl"
    and "mapGet (node_Labels m) (versionLabel lib d) \<noteq> Some (wanted d) \<or>
      mapGet (node_Labels m) (versionLabel lib d) = L (keyOf (node_Meta m))"
  shows "triple (\<lambda>w. labelsAt lib d (cl w) = L) (upgradeImpl_KickoffUpgrade lib c d (Some m))
    (\<lambda>_ w. \<forall>k. labelsAt lib d (cl w) k = (if k = keyOf (node_Meta m) then Some (wanted d) else L k))
    (\<lambda>_ w. \<forall>k. k \<noteq> keyOf (node_Meta m) \<longrightarrow> labelsAt lib d (cl w) k = L k)"
proof -
  let ?obj = "nodeSetLabels (Some ((mapGet (node_Labels m))(versionLabel lib d \<mapsto> wanted d))) m"
  let ?k = "keyOf (node_Meta m)"
  have key: "keyOf (node_Meta ?obj) = ?k" by (simp add: nodeSetLabels_def keyOf_def)
  have other: "labelsAt lib d (cl w') k = labelsAt lib d (cl w) k"
    if "k \<noteq> ?k" "apiPatch (Nodes c) ?obj m w = (r, w')" for k w r w'
    using patch_within(1) [OF assms(1), of ?obj lib d m, unfolded key] that unfolding atMost_def nodesWithin_def
    by (auto dest!: spec [of _ w])
  have "triple (\<lambda>w. labelsAt lib d (cl w) = L) (apiPatch (Nodes c) ?obj m)
      (\<lambda>_ w. \<forall>k. labelsAt lib d (cl w) k = (if k = ?k then Some (wanted d) else L k))
      (\<lambda>_ w. \<forall>k. k \<noteq> ?k \<longrightarrow> labelsAt lib d (cl w) k = L k)"
  proof (rule tripleI)
    fix w new w' assume l: "labelsAt lib d (cl w) = L" and run: "apiPatch (Nodes c) ?obj m w = (Inr new, w')"
    from lawfulWritesD(5) [OF assms(1), unfolded lawfulPatchNode_def Let_def, THEN spec, of ?obj, THEN spec, of m,
        THEN spec, of w, unfolded key] run obtain srv where
      srv: "cl_Nodes (cl w) ?k = Some srv" and new: "nodeMerged m ?obj srv new" "cl_Nodes (cl w') ?k = Some new" by auto
    from fun_cong [OF l, of ?k] srv have "L ?k = mapGet (node_Labels srv) (versionLabel lib d)" by (simp add: versionAt_def)
    with nodeIs_labels [OF new(1) [unfolded nodeMerged_nodeIs]] assms(2)
    have "mapGet (node_Labels new) (versionLabel lib d) = Some (wanted d)" by (auto simp: mergedLabel_def)
    with new(2) other [OF _ run] l show "\<forall>k. labelsAt lib d (cl w') k = (if k = ?k then Some (wanted d) else L k)"
      by (simp add: versionAt_def)
  next
    fix w e w' assume l: "labelsAt lib d (cl w) = L" and run: "apiPatch (Nodes c) ?obj m w = (Inl e, w')"
    with other [OF _ run] show "\<forall>k. k \<noteq> ?k \<longrightarrow> labelsAt lib d (cl w') k = L k" by simp
  qed
  then show ?thesis unfolding KickoffUpgrade_Some by (rule triple_bind) (simp add: triple_ret)
qed

lemma picked_from_list: "upgradeImpl_GetNodeForUpgrade lib d ns =
    (if \<exists>n \<in> set ns. getNodeUpgradeState lib n d = nodeInUpgrade then None
     else find_last (\<lambda>n. getNodeUpgradeState lib n d = nodeBeforeUpgrade) ns)"
  by (simp add: upgradeImpl_GetNodeForUpgrade_def nodeForUpgradeLoop_eq split: option.split)

section \<open>Properties\<close>

text \<open>
  C29: the list of nodes decides, and nothing else does. Let the reads of the client return
  anything (a cache that lags behind), and let the upgrade handler read the list ns. If a
  node of ns is in upgrade, or none is before its upgrade, the handler changes no version
  label, whatever the outcome. Otherwise, whatever the nodes on the server are like by then,
  and however many of them are in upgrade, it changes the label of the last node of ns that is
  before its upgrade at most, and after a success this node of the server has the wanted
  version: neither patch asks the server whether the node, or any other, has changed.
\<close>

theorem node_list_decides:
  assumes "lawfulWrites c cl" and "wanted d \<noteq> []" and "apiList (Nodes c) (Selector (dc_Spec d)) w = (Inr ns, w1)"
    and "dcrh_handleModuleVersionUpgrade (operatorHelper lib c f b) d w = (r, w')"
  shows "case (if \<exists>n \<in> set ns. getNodeUpgradeState lib n d = nodeInUpgrade then None
      else find_last (\<lambda>n. getNodeUpgradeState lib n d = nodeBeforeUpgrade) ns) of
    None \<Rightarrow> \<forall>k. versionAt lib d (cl_Nodes (cl w')) k = versionAt lib d (cl_Nodes (cl w)) k
  | Some n \<Rightarrow> (\<forall>k. k \<noteq> keyOf (node_Meta n) \<longrightarrow>
        versionAt lib d (cl_Nodes (cl w')) k = versionAt lib d (cl_Nodes (cl w)) k) \<and>
      (r = Inr () \<longrightarrow> versionAt lib d (cl_Nodes (cl w')) (keyOf (node_Meta n)) = Some (wanted d))"
proof -
  define L where "L = labelsAt lib d (cl w)"
  define p where "p = upgradeImpl_GetNodeForUpgrade lib d ns"
  define Q where "Q = (\<lambda>ok v. \<forall>k. (p = None \<or> (\<exists>n. p = Some n \<and> keyOf (node_Meta n) \<noteq> k) \<longrightarrow> labelsAt lib d (cl v) k = L k) \<and>
    (ok \<and> (\<exists>n. p = Some n \<and> keyOf (node_Meta n) = k) \<longrightarrow> labelsAt lib d (cl v) k = Some (wanted d)))"
  let ?P = "\<lambda>v. labelsAt lib d (cl v) = L"
  have fail: "Q False v" if "?P v" for v using that by (simp add: Q_def)
  have picked: "p = (if \<exists>n \<in> set ns. getNodeUpgradeState lib n d = nodeInUpgrade then None
      else find_last (\<lambda>n. getNodeUpgradeState lib n d = nodeBeforeUpgrade) ns)"
    unfolding p_def by (rule picked_from_list)
  have list: "triple (\<lambda>v. v = w) (upgradeImpl_GetTargetedNodes c d) (\<lambda>ns' v. ns' = ns \<and> ?P v) (\<lambda>_. Q False)"
    unfolding upgradeImpl_GetTargetedNodes_def
    by (rule triple_wrap, rule tripleI) (use assms(3) lawfulWritesD(2) [OF assms(1), of "Selector (dc_Spec d)" w] L_def in auto)
  have uncordon: "triple ?P (upgradeImpl_UncordonUpgradedNode c q) (\<lambda>_. ?P) (\<lambda>_. Q False)" for q
    by (rule tripleI) (use uncordon_labels [OF assms(1)] fail in fastforce)+
  have rest: "triple ?P (bindE (wrapE g (upgradeImpl_CordonNodeForUpgrade lib c d p))
      (\<lambda>q. bindE (upgradeImpl_KickoffUpgrade lib c d q) (\<lambda>_. ret ()))) (\<lambda>_. Q True) (\<lambda>_. Q False)" for g
  proof (cases p)
    case None
    then show ?thesis
      by (simp add: upgradeImpl_CordonNodeForUpgrade_def upgradeImpl_KickoffUpgrade_def triple_def Q_def)
  next
    case (Some n)
    let ?k = "keyOf (node_Meta n)"
    have "getNodeUpgradeState lib n d = nodeBeforeUpgrade"
      using Some picked by (auto split: if_splits dest: find_last_SomeD)
    then have n: "mapGet (node_Labels n) (versionLabel lib d) \<noteq> Some (wanted d)" by (simp add: state_iff)
    have kick: "triple (\<lambda>v. (\<exists>m. q = Some m \<and> keyOf (node_Meta m) = ?k \<and>
          (m = n \<or> mapGet (node_Labels m) (versionLabel lib d) = L ?k)) \<and> ?P v)
        (bindE (upgradeImpl_KickoffUpgrade lib c d q) (\<lambda>_. ret ())) (\<lambda>_. Q True) (\<lambda>_. Q False)" for q
    proof (rule triple_pure, elim exE conjE)
      fix m assume q: "q = Some m" and k: "keyOf (node_Meta m) = ?k" and m: "m = n \<or> mapGet (node_Labels m) (versionLabel lib d) = L ?k"
      have "mapGet (node_Labels m) (versionLabel lib d) \<noteq> Some (wanted d) \<or>
          mapGet (node_Labels m) (versionLabel lib d) = L (keyOf (node_Meta m))" using m n k by auto
      from kickoff_labels [where L = L, OF assms(1) this] have "triple ?P (upgradeImpl_KickoffUpgrade lib c d q) (\<lambda>_. Q True) (\<lambda>_. Q False)"
        unfolding q by (rule triple_conseq) (simp_all add: Q_def Some k)
      then show "triple ?P (bindE (upgradeImpl_KickoffUpgrade lib c d q) (\<lambda>_. ret ())) (\<lambda>_. Q True) (\<lambda>_. Q False)"
        by (rule triple_bind) (simp add: triple_ret)
    qed
    have cordon: "triple ?P (upgradeImpl_CordonNodeForUpgrade lib c d p)
        (\<lambda>q v. (\<exists>m. q = Some m \<and> keyOf (node_Meta m) = ?k \<and> (m = n \<or> mapGet (node_Labels m) (versionLabel lib d) = L ?k)) \<and> ?P v)
        (\<lambda>_. Q False)"
      unfolding Some by (rule triple_conseq [OF cordon_labels [OF assms(1)]]) (auto simp: fail [unfolded Some])
    show ?thesis by (rule triple_bind [OF triple_wrap [OF cordon] kick])
  qed
  have "triple (\<lambda>v. v = w) (dcrh_handleModuleVersionUpgrade (operatorHelper lib c f b) d) (\<lambda>_. Q True) (\<lambda>_. Q False)"
    using assms(2) unfolding dcrh_handleModuleVersionUpgrade_def Let_def newHelper_simps NewUpgradeAPI_simps
    by (simp, intro triple_bind [OF triple_wrap [OF list] triple_pure])
       (simp, rule triple_bind [OF triple_wrap [OF uncordon] rest [unfolded p_def]])
  from triple_Inr [OF this refl] triple_Inl [OF this refl] assms(4) have "Q (r = Inr ()) w'" by (cases r) auto
  then show ?thesis unfolding picked [symmetric] Q_def L_def by (cases p) auto
qed

text \<open>
  Node a is in upgrade on the server, but the list that the cache answers is from before that:
  node b is started too.
\<close>

lemma node_list_decides_witness:
  "\<exists>s w'. dcrh_handleModuleVersionUpgrade exCached (exDC ''2'') (s, exWorld [exFresh ''a'', exFresh ''b''] [exDC ''2'']) = (Inr (), w') \<and>
     exStarted ''a'' \<in> inUpgrade memLib (exDC ''2'') (memCluster s) \<and>
     versionAt memLib (exDC ''2'') (cl_Nodes (serverCluster w')) (NN [] ''a'') = Some ''2'' \<and>
     versionAt memLib (exDC ''2'') (cl_Nodes (serverCluster w')) (NN [] ''b'') = Some ''2''"
proof -
  let ?s = "exWorld [exStarted ''a'', exFresh ''b''] [exDC ''2'']" and ?t = "exWorld [exFresh ''a'', exFresh ''b''] [exDC ''2'']"
  let ?ns = "[exFresh ''a'', exFresh ''b'']"
  obtain s' where run: "dcrh_handleModuleVersionUpgrade exCached (exDC ''2'') (?s, ?t) = (Inr (), (s', ?t))"
    using cached_upgrade [of "''a''" "''b''" ?s ?t] by simp
  have before: "getNodeUpgradeState memLib (exFresh nm) (exDC ''2'') = nodeBeforeUpgrade" for nm
    by (simp add: getNodeUpgradeState_def)
  have "listing node_Meta (Some [''neuron'' \<mapsto> ''true'']) ?ns = ?ns"
    by (auto simp: listing_def exNode_def zeroMeta_def keyOf_def)
  then have list: "apiList (Nodes cachedClient) (Selector (dc_Spec (exDC ''2''))) (?s, ?t) = (Inr ?ns, (?s, ?t))"
    by (simp add: fromCache_def memClient_simps memList_def)
  have up: "exStarted ''a'' \<in> inUpgrade memLib (exDC ''2'') (memCluster ?s)" by (simp add: mem_inUpgrade stored_def)
  have a: "versionAt memLib (exDC ''2'') (cl_Nodes (serverCluster (?s, ?t))) (NN [] ''a'') = Some ''2''"
    by (simp add: versionAt_def)
  have pick: "(if \<exists>n \<in> set ?ns. getNodeUpgradeState memLib n (exDC ''2'') = nodeInUpgrade then None
      else find_last (\<lambda>n. getNodeUpgradeState memLib n (exDC ''2'') = nodeBeforeUpgrade) ?ns) = Some (exFresh ''b'')"
    by (simp add: before)
  have "wanted (exDC ''2'') \<noteq> []" and key: "keyOf (node_Meta (exFresh ''b'')) = NN [] ''b''" by simp_all
  from node_list_decides [OF lawfulWrites_cached this(1) list run, unfolded pick option.case key]
  have "versionAt memLib (exDC ''2'') (cl_Nodes (serverCluster (s', ?t))) (NN [] ''a'') = Some ''2''"
    "versionAt memLib (exDC ''2'') (cl_Nodes (serverCluster (s', ?t))) (NN [] ''b'') = Some ''2''" using a by simp_all
  with run up show ?thesis by blast
qed

text \<open>
  Nor does the finalizer wait for a Module that the cache has not seen yet: it is given back
  while the Module is stored.
\<close>

lemma stale_reads_release_early:
  assumes "m_Nodes t = []" and "m_DaemonSets t = []" and "m_Modules t = []"
    and "m_DeviceConfigs s = [exDying [deviceConfigFinalizer, ''other'']]" and "lookup mod_Meta (m_Modules s) (NN ''ns'' ''neuron'') = Some m"
  shows "\<exists>s'. dcrh_finalizeDeviceConfig memLib exCached (exDying [deviceConfigFinalizer, ''other'']) (s, t) =
      (Inr (exDying [''other'']), (s', t)) \<and>
    m_DeviceConfigs s' = [exDying [''other'']] \<and> lookup mod_Meta (m_Modules s') (NN ''ns'' ''neuron'') = Some m"
proof -
  have nf: "isNotFound memLib notFoundErr"
    "removeFinalizer memLib [deviceConfigFinalizer, ''other''] deviceConfigFinalizer = [''other'']"
    by (auto simp: memLib_def deviceConfigFinalizer_def)
  have labels: "upgradeImpl_RemoveUpgradeLabels memLib cachedClient (exDying fs) (s, t) = (Inr (), (s, t))" for fs
    by (simp add: upgradeImpl_RemoveUpgradeLabels_def Let_def bindE_def wrapE_def tryE_def memClient_simps
        memList_def listing_def fromCache_def assms(1))
  have "memPatchDC (exDying [''other'']) (exDying [deviceConfigFinalizer, ''other'']) s =
      (Inr (exDying [''other'']), s\<lparr>m_DeviceConfigs := [exDying [''other'']]\<rparr>)"
    by (simp add: memPatchDC_def Let_def dcMerged_finalizers putObj_def removeKey_def mergedList_def assms(4))
  with labels nf assms(5) show ?thesis
    by (simp add: dcrh_finalizeDeviceConfig_def Let_def bindE_def wrapE_def tryE_def memClient_simps memGet_def
        fromCache_def onServer_def assms(2,3))
qed

text \<open>
  C30: a taint that another controller adds after the node was listed is lost. The patch of a
  cordon or an uncordon carries the whole list of taints as it was listed, and the server
  replaces its own by it.
\<close>

theorem concurrent_taint_lost:
  assumes "lawfulClient lib c cl" and "cl_Nodes (cl w) (keyOf (node_Meta n)) = Some srv"
    and "t \<in> set (node_Taints srv)" and "t \<notin> set (node_Taints n)" and "\<not> isUpgradeTaint t"
    and "m = (if hasUpgradeTaint (node_Taints n) then upgradeImpl_UncordonUpgradedNode c (Some n)
       else upgradeImpl_CordonNodeForUpgrade lib c d (Some n))"
    and "\<not> isNewNodeForUpgrade lib n d" and "m w = (Inr q, w')"
  shows "\<exists>n'. q = Some n' \<and> stored (cl w') n' \<and> keyOf (node_Meta n') = keyOf (node_Meta n) \<and>
    t \<notin> set (node_Taints n')"
proof -
  define ts where "ts = (if hasUpgradeTaint (node_Taints n) then filter (\<lambda>t. \<not> isUpgradeTaint t) (node_Taints n)
    else node_Taints n @ [upgradeTaint])"
  have ne: "ts \<noteq> node_Taints n"
    by (auto simp: ts_def hasUpgradeTaint_iff) (metis (mono_tags, lifting) filter_id_conv)
  have t: "t \<notin> set ts" using assms(4,5) by (auto simp: ts_def)
  have "m w = bindE (apiPatch (Nodes c) (n\<lparr>node_Taints := ts\<rparr>) n) (\<lambda>n'. ret (Some n')) w"
    using assms(7) by (simp add: assms(6) ts_def upgradeImpl_UncordonUpgradedNode_def
        upgradeImpl_CordonNodeForUpgrade_def removeUpgradeTaint_eq)
  with assms(8) obtain n' where q: "q = Some n'"
    and p: "apiPatch (Nodes c) (n\<lparr>node_Taints := ts\<rparr>) n w = (Inr n', w')"
    by (auto simp: io_simps)
  from lawfulClientD(3) [OF assms(1), unfolded lawfulPatchNode_def Let_def, THEN spec, of "n\<lparr>node_Taints := ts\<rparr>",
      THEN spec, of n, THEN spec, of w] p assms(2)
  have new: "nodeMerged n (n\<lparr>node_Taints := ts\<rparr>) srv n'"
    and at: "cl_Nodes (cl w') (keyOf (node_Meta n)) = Some n'" by auto
  have key: "keyOf (node_Meta n') = keyOf (node_Meta n)"
    by (rule wellKeyed_key(1) [OF lawfulClientD(1) [OF assms(1)] at])
  have "node_Taints n' = ts" using nodeIs_taints [OF new [unfolded nodeMerged_nodeIs]] ne by (simp add: mergedList_def)
  with q at key t show ?thesis by (simp add: stored_def)
qed

text \<open>
  Node a was cordoned; after the operator has listed it, the node controller finds it not
  ready and adds its own taint.
\<close>

lemma concurrent_taint_lost_witness:
  "let n = exNode ''a'' [exVersionLabel \<mapsto> ''2'', exReadyLabel \<mapsto> ''2''] [upgradeTaint];
       t = \<lparr>taint_Key = ''node.kubernetes.io/not-ready'', taint_Value = [], taint_Effect = TaintEffectNoExecute\<rparr>;
       w = exWorld [n\<lparr>node_Taints := [upgradeTaint, t]\<rparr>] [];
       w' = snd (upgradeImpl_UncordonUpgradedNode memClient (Some n) w)
   in \<exists>n'. stored (memCluster w') n' \<and> node_Name n' = ''a'' \<and> t \<notin> set (node_Taints n')"
proof -
  let ?n = "exNode ''a'' [exVersionLabel \<mapsto> ''2'', exReadyLabel \<mapsto> ''2''] [upgradeTaint]"
  let ?t = "\<lparr>taint_Key = ''node.kubernetes.io/not-ready'', taint_Value = [], taint_Effect = TaintEffectNoExecute\<rparr>"
  let ?w = "exWorld [?n\<lparr>node_Taints := [upgradeTaint, ?t]\<rparr>] []"
  let ?m = "upgradeImpl_UncordonUpgradedNode memClient (Some ?n)"
  have key: "keyOf (node_Meta ?n) = NN [] ''a''" by simp
  have "isl (fst (?m ?w)) = False"
    by (simp add: bindE_def upgradeImpl_UncordonUpgradedNode_def memClient_simps memPatchNode_def Let_def)
  then obtain q w' where run: "?m ?w = (Inr q, w')" by (cases "?m ?w"; cases "fst (?m ?w)") auto
  have "\<exists>n'. q = Some n' \<and> stored (memCluster w') n' \<and> keyOf (node_Meta n') = keyOf (node_Meta ?n) \<and>
      ?t \<notin> set (node_Taints n')"
    by (rule concurrent_taint_lost [where n = ?n and w = ?w and m = ?m and lib = memLib and d = "exDC ''2''"
          and srv = "?n\<lparr>node_Taints := [upgradeTaint, ?t]\<rparr>", OF lawfulClient_mem _ _ _ _ _ _ run])
       (simp_all add: isNewNodeForUpgrade_def upgradeTaint_def UpgradeTaintTolerationKey_def isUpgradeTaint_def)
  with run show ?thesis unfolding Let_def key by (auto simp: keyOf_def)
qed

text \<open>
  C32: the upgrade taint is shared. When two DeviceConfigs target the same node, the handler of
  the one takes the taint off a node that is ready for it, also while the node is in upgrade
  for the other.
\<close>

theorem shared_taint_uncordons:
  assumes "lawfulClient lib c cl" and "stored (cl w) n" and "n \<in> inUpgrade lib d2 (cl w)"
    and "upgradeImpl_GetUpgradedNode lib d1 ns = Some n"
    and "upgradeImpl_UncordonUpgradedNode c (upgradeImpl_GetUpgradedNode lib d1 ns) w = (Inr q, w')"
  shows "\<exists>n'. q = Some n' \<and> n' \<in> inUpgrade lib d2 (cl w') \<and> \<not> hasUpgradeTaint (node_Taints n')"
proof -
  from upgradeImpl_uncordon [OF assms(1,2), of "Inr q" w'] assms(4,5) obtain n' where q: "q = Some n'"
    and n': "rewrote n (mapGet (node_Labels n)) (filter (\<lambda>t. \<not> isUpgradeTaint t) (node_Taints n)) (cl w) (cl w') n'"
    by (auto simp: wrote_def)
  have "n' \<in> inUpgrade lib d2 (cl w')"
    using retaint_inUpgrade [OF n' assms(2), of n' lib d2] rewrote_key [OF n'] assms(3) by simp
  moreover have "\<not> hasUpgradeTaint (node_Taints n')" by (simp add: rewrote_taints [OF n'] hasUpgradeTaint_iff)
  ultimately show ?thesis using q by blast
qed

text \<open>A node that is ready with version 2 of one DeviceConfig and waits for version 3 of another.\<close>

lemma shared_taint_uncordons_witness:
  "let d2 = exOther;
       n = exNode ''a'' [''neuron'' \<mapsto> ''true'', exVersionLabel \<mapsto> ''2'', exReadyLabel \<mapsto> ''2'',
             versionLabel memLib d2 \<mapsto> ''3''] [upgradeTaint];
       (r, w') = upgradeImpl_UncordonUpgradedNode memClient
         (upgradeImpl_GetUpgradedNode memLib (exDC ''2'') [n]) (exWorld [n] [exDC ''2'', d2])
   in \<exists>n'. r = Inr (Some n') \<and> n' \<in> inUpgrade memLib d2 (memCluster w') \<and> \<not> hasUpgradeTaint (node_Taints n')"
proof -
  let ?d2 = exOther
  let ?n = "exNode ''a'' [''neuron'' \<mapsto> ''true'', exVersionLabel \<mapsto> ''2'', exReadyLabel \<mapsto> ''2'',
    versionLabel memLib ?d2 \<mapsto> ''3''] [upgradeTaint]"
  let ?w = "exWorld [?n] [exDC ''2'', ?d2]"
  let ?m = "upgradeImpl_UncordonUpgradedNode memClient (upgradeImpl_GetUpgradedNode memLib (exDC ''2'') [?n])"
  have other: "versionLabel memLib ?d2 \<noteq> exVersionLabel" "versionLabel memLib ?d2 \<noteq> exReadyLabel"
    "readyLabel memLib ?d2 \<noteq> versionLabel memLib ?d2" "readyLabel memLib ?d2 \<noteq> exVersionLabel"
    "readyLabel memLib ?d2 \<noteq> exReadyLabel" "versionLabel memLib ?d2 \<noteq> ''neuron''" "readyLabel memLib ?d2 \<noteq> ''neuron''"
    by (simp_all add: memLib_def)
  have st: "stored (memCluster ?w) ?n" by (simp add: stored_def)
  have pick: "upgradeImpl_GetUpgradedNode memLib (exDC ''2'') [?n] = Some ?n"
    using other by (simp add: state_iff isNodeTainted_def upgradeTaint_def)
  have up: "?n \<in> inUpgrade memLib ?d2 (memCluster ?w)"
    using other st by (simp add: mem_inUpgrade)
  have "isl (fst (?m ?w)) = False" unfolding pick
    by (simp add: bindE_def upgradeImpl_UncordonUpgradedNode_def memClient_simps memPatchNode_def Let_def)
  then obtain q w' where run: "?m ?w = (Inr q, w')" by (cases "?m ?w"; cases "fst (?m ?w)") auto
  from shared_taint_uncordons [OF lawfulClient_mem st up pick run]
  have "\<exists>n'. Inr q = (Inr (Some n') :: goerr + Node option) \<and> n' \<in> inUpgrade memLib ?d2 (memCluster w') \<and>
      \<not> hasUpgradeTaint (node_Taints n')" by blast
  then show ?thesis unfolding Let_def run prod.case .
qed

text \<open>
  C31: a finalizer that another controller adds to the DeviceConfig after it was read is
  lost. The patch by which the operator sets its own finalizer carries the whole list as it
  was read, and the server replaces its own by it.
\<close>

theorem concurrent_finalizer_lost:
  assumes "lawfulClient lib c cl" and "lawfulFinalizers lib"
    and "cl_DeviceConfigs (cl w) (keyOf (dc_Meta d)) = Some srv"
    and "g \<in> set (dc_Finalizers srv)" and "g \<notin> set (dc_Finalizers d)" and "g \<noteq> deviceConfigFinalizer"
    and "deviceConfigFinalizer \<notin> set (dc_Finalizers d)"
    and "dcrh_setFinalizer lib (operatorHelper lib c f b) d w = (Inr d', w')"
  shows "cl_DeviceConfigs (cl w') (keyOf (dc_Meta d)) = Some d' \<and> g \<notin> set (dc_Finalizers d')"
proof -
  let ?fs = "addFinalizer lib (dc_Finalizers d) deviceConfigFinalizer"
  have fs: "set ?fs = insert deviceConfigFinalizer (set (dc_Finalizers d))" using assms(2) by (simp add: lawfulFinalizers_def)
  then have ne: "?fs \<noteq> dc_Finalizers d" "?fs \<noteq> []" using assms(7) by auto
  have "\<not> containsFinalizer lib (dc_Finalizers d) deviceConfigFinalizer"
    using assms(2,7) by (simp add: lawfulFinalizers_def)
  then have "apiPatch (DeviceConfigs c) (setFinalizers ?fs d) d w = (Inr d', w')"
    using assms(8) by (simp add: dcrh_setFinalizer_def Let_def)
  with patchDC_exact [OF assms(1), where obj = "setFinalizers ?fs d" and base = d and w = w] assms(3) ne
  have new: "d' = setFinalizers ?fs srv" and w': "cl w' = storeDC d' (cl w)" by (auto simp: mergedList_def)
  have "keyOf (dc_Meta srv) = keyOf (dc_Meta d)" by (rule wellKeyed_key(4) [OF lawfulClientD(1) [OF assms(1)] assms(3)])
  with fs ne(2) assms(5,6) show ?thesis by (simp add: w' storeDC_at) (simp add: new)
qed

lemma concurrent_finalizer_lost_witness:
  "let srv = setFinalizers [''other''] (exDC ''2'');
       (r, w') = dcrh_setFinalizer memLib exHelper (exDC ''2'') (exWorld [] [srv])
   in \<exists>d'. r = Inr d' \<and> cl_DeviceConfigs (memCluster w') (NN ''ns'' ''neuron'') = Some d' \<and>
      ''other'' \<notin> set (dc_Finalizers d')"
proof -
  let ?srv = "setFinalizers [''other''] (exDC ''2'')" and ?new = "setFinalizers [deviceConfigFinalizer] (exDC ''2'')"
  have run: "dcrh_setFinalizer memLib exHelper (exDC ''2'') (exWorld [] [?srv]) = (Inr ?new, exWorld [] [?new])"
    by (simp add: dcrh_setFinalizer_def memClient_simps memPatchDC_def Let_def memLib_def
        dcMerged_finalizers mergedList_def putObj_def removeKey_def exWorld_def)
  from concurrent_finalizer_lost [OF lawfulClient_mem lawfulFinalizers_mem _ _ _ _ _ run, of ?srv "''other''"]
  show ?thesis by (simp add: run deviceConfigFinalizer_def)
qed

end
