(* ===== verification/Versions.thy ===== *)
theory Versions
  imports Disruption
begin

text \<open>
  A rollout during which the wanted version changes. The reconciler looks at nodes in upgrade
  for the version that it wants now, so a node that was asked for an earlier version does not
  stop it. How many nodes can be on the way to some version is bounded by the number of
  versions that the DeviceConfig has had.
\<close>

section \<open>The versions that occur\<close>

definition labelsIn :: "library \<Rightarrow> DeviceConfig \<Rightarrow> string set \<Rightarrow> cluster \<Rightarrow> bool" where
  "labelsIn lib d V c \<longleftrightarrow> (\<forall>k. versionAt lib d (cl_Nodes c) k \<in> insert None (Some ` V))"

definition wantedIn :: "DeviceConfig \<Rightarrow> string set \<Rightarrow> cluster \<Rightarrow> bool" where
  "wantedIn d V c \<longleftrightarrow> (\<forall>d'. cl_DeviceConfigs c (ownKey d) = Some d' \<longrightarrow> wanted d' \<in> V)"

definition knownVersions :: "library \<Rightarrow> DeviceConfig \<Rightarrow> string set \<Rightarrow> cluster \<Rightarrow> bool" where
  "knownVersions lib d V c \<longleftrightarrow> labelsIn lib d V c \<and> wantedIn d V c"

lemma labelsIn_stored:
  "labelsIn lib d V c \<Longrightarrow> stored c n \<Longrightarrow> mapGet (node_Labels n) (versionLabel lib d) \<in> insert None (Some ` V)"
  unfolding labelsIn_def by (drule spec [of _ "keyOf (node_Meta n)"]) (simp add: versionAt_def stored_def)

lemma labelsIn_rewrote:
  assumes "rewrote n ls ts c c' n'" and "labelsIn lib d V c" and "ls (versionLabel lib d) \<in> insert None (Some ` V)"
  shows "labelsIn lib d V c'"
  unfolding labelsIn_def
proof
  fix k
  have "versionAt lib d (cl_Nodes c') k = (if k = keyOf (node_Meta n) then ls (versionLabel lib d) else versionAt lib d (cl_Nodes c) k)"
    by (simp add: versionAt_def rewrote_Nodes [OF assms(1)] rewrote_labels [OF assms(1)])
  with assms(2,3) show "versionAt lib d (cl_Nodes c') k \<in> insert None (Some ` V)" by (simp add: labelsIn_def)
qed

lemma env_step_labelsIn:
  assumes "lawfulLabels lib"
  shows "env_step lib d x y \<Longrightarrow> labelsIn lib d V x \<Longrightarrow> labelsIn lib d V y"
proof (induction rule: env_step.induct)
  case (env_ready c n v c' n')
  have "versionLabel lib d \<noteq> readyLabel lib d" using assms by (simp add: lawfulLabels_def)
  with labelsIn_rewrote [OF env_ready(3,5)] labelsIn_stored [OF env_ready(5,1)] show ?case by simp
next
  case (env_edit c n ls ts c' n')
  with labelsIn_rewrote [OF env_edit(2,6)] labelsIn_stored [OF env_edit(6,1)] show ?case by simp
next
  case (env_unlabel c n c' n')
  with labelsIn_rewrote [OF env_unlabel(2,3)] show ?case by simp
qed (auto simp: labelsIn_def versionAt_def setNode_def)

lemma rely_labelsIn:
  assumes "lawfulLabels lib" and "rely lib d cl env" and "labelsIn lib d V (cl w)"
  shows "labelsIn lib d V (cl (env w))"
proof -
  have "(env_step lib d)\<^sup>*\<^sup>* x y \<Longrightarrow> labelsIn lib d V x \<Longrightarrow> labelsIn lib d V y" for x y
    by (induction rule: rtranclp_induct) (use env_step_labelsIn [OF assms(1)] in blast)+
  with assms(2,3) show ?thesis unfolding rely_def by blast
qed

section \<open>The reconciler asks for known versions only\<close>

lemma known_named: "named_write ns nm x y \<Longrightarrow> knownVersions lib d V x \<Longrightarrow> knownVersions lib d V y"
  by (erule named_writeE) (simp_all add: knownVersions_def labelsIn_def wantedIn_def)

lemma known_finalizers: "finalizers_write ns nm x y \<Longrightarrow> knownVersions lib d V x \<Longrightarrow> knownVersions lib d V y"
  by (erule finalizers_write.cases) (auto simp: knownVersions_def labelsIn_def wantedIn_def storeDC_def setFinalizers_def split: if_splits)

lemma known_gives: "givesOnly lib d a x y \<Longrightarrow> a \<in> insert None (Some ` V) \<Longrightarrow> knownVersions lib d V x \<Longrightarrow> knownVersions lib d V y"
  unfolding knownVersions_def labelsIn_def wantedIn_def givesOnly_def sameButNodes_def by (metis insertE singletonD)

definition knowing :: "library \<Rightarrow> 'w client \<Rightarrow> ('w \<Rightarrow> cluster) \<Rightarrow> ('w \<Rightarrow> 'w) \<Rightarrow> DeviceConfig \<Rightarrow> string set \<Rightarrow> bool" where
  "knowing lib c cl env d V \<longleftrightarrow> lawfulWrites c cl \<and> stableUnder (knownVersions lib d V) cl env"

lemma knowing_carries:
  assumes "knowing lib c cl env d V" and "\<And>x y. R x y \<Longrightarrow> knownVersions lib d V x \<Longrightarrow> knownVersions lib d V y"
  shows "carries c cl env R (knownVersions lib d V)"
  using assms unfolding knowing_def carries_def by blast

lemma known_upgrade:
  assumes "knowing lib c cl env d V" and "keyOf (dc_Meta d') = keyOf (dc_Meta d)" and "wanted d' \<in> V"
  shows "keeps (\<lambda>w. knownVersions lib d V (cl w)) (dcrh_handleModuleVersionUpgrade (operatorHelper lib (interfered env c) f b) d')"
proof -
  have k: "versionLabel lib d' = versionLabel lib d" using assms(2) by (simp add: keyOf_def)
  have "carries c cl env (givesOnly lib d (Some (wanted d'))) (knownVersions lib d V)"
    by (rule knowing_carries [OF assms(1)], erule known_gives) (use assms(3) in simp_all)
  note up = carries_list [OF this] keeps_call [OF this patch_gives [OF carriesD(1) [OF this]]]
  show ?thesis by (rule keeps_upgrade_calls; (rule up(1) | rule up(2), simp add: k))
qed

lemma known_unlabel:
  assumes "knowing lib c cl env d V" and "keyOf (dc_Meta d') = keyOf (dc_Meta d)"
  shows "keeps (\<lambda>w. knownVersions lib d V (cl w)) (upgradeImpl_RemoveUpgradeLabels lib (interfered env c) d')"
proof -
  have k: "versionLabel lib d' = versionLabel lib d" using assms(2) by (simp add: keyOf_def)
  have carry: "carries c cl env (givesOnly lib d None) (knownVersions lib d V)"
    by (rule knowing_carries [OF assms(1)], erule known_gives) simp_all
  have "keeps (\<lambda>w. knownVersions lib d V (cl w)) (removeLabelLoop (interfered env c) (versionLabel lib d) nodes)" for nodes
  proof (induction nodes)
    case (Cons n nodes)
    show ?case unfolding removeLabelLoop.simps Let_def interfered_simps
      by (intro keeps_bind keeps_wrap keeps_call [OF carry patch_gives [OF carriesD(1) [OF carry]]] Cons) simp
  qed (simp only: removeLabelLoop.simps keeps_ret)
  then show ?thesis unfolding upgradeImpl_RemoveUpgradeLabels_def Let_def interfered_simps k
    by (intro keeps_bind keeps_wrap carries_list [OF carry])
qed

lemma known_setFinalizer:
  assumes "knowing lib c cl env d V" and "keyOf (dc_Meta d') = keyOf (dc_Meta d)" and "wanted d' \<in> V"
  shows "triple (\<lambda>w. knownVersions lib d V (cl w)) (dcrh_setFinalizer lib (operatorHelper lib (interfered env c) f b) d')
    (\<lambda>d'' w. knownVersions lib d V (cl w) \<and> keyOf (dc_Meta d'') = keyOf (dc_Meta d) \<and> wanted d'' \<in> V)
    (\<lambda>_ w. knownVersions lib d V (cl w))"
proof -
  let ?I = "\<lambda>w. knownVersions lib d V (cl w)"
  have law: "lawfulWrites c cl" and st: "stableUnder (knownVersions lib d V) cl env" using assms(1) by (simp_all add: knowing_def)
  have "carries c cl env (finalizers_write (dc_Namespace d') (dc_Name d')) (knownVersions lib d V)"
    by (rule knowing_carries [OF assms(1)]) (rule known_finalizers)
  note keep = carries_finalizers [OF this, unfolded keeps_triple]
  have "triple ?I (beforeEach env (apiPatch (DeviceConfigs c) (setFinalizers fs d') d'))
      (\<lambda>d'' w. ?I w \<and> keyOf (dc_Meta d'') = keyOf (dc_Meta d) \<and> wanted d'' \<in> V) (\<lambda>_. ?I)" for fs
  proof (rule tripleI)
    fix w d'' w' assume i: "?I w" and run: "beforeEach env (apiPatch (DeviceConfigs c) (setFinalizers fs d') d') w = (Inr d'', w')"
    have key: "keyOf (dc_Meta (setFinalizers fs d')) = ownKey d" using assms(2) by (simp add: setFinalizers_def keyOf_def)
    from lawfulWritesD(6) [OF law, unfolded lawfulPatchDC_def Let_def, THEN spec, of "setFinalizers fs d'",
        THEN spec, of d', THEN spec, of "env w", unfolded key] run obtain srv where
      srv: "cl_DeviceConfigs (cl (env w)) (ownKey d) = Some srv" "d'' = dcMerged d' (setFinalizers fs d') srv"
      by (auto simp: beforeEach_def)
    have "?I (env w)" using st i by (simp add: stableUnder_def)
    with srv have "wanted d'' \<in> V" by (simp add: knownVersions_def wantedIn_def dcMerged_def)
    moreover have "keyOf (dc_Meta d'') = keyOf (dc_Meta d)"
      using patched_key [OF law] run key by (simp add: beforeEach_def keyOf_def)
    ultimately show "?I w' \<and> keyOf (dc_Meta d'') = keyOf (dc_Meta d) \<and> wanted d'' \<in> V"
      using triple_Inr [OF keep i run] by simp
  qed (rule triple_Inl [OF keep])
  then show ?thesis
    unfolding dcrh_setFinalizer_def Let_def newHelper_simps interfered_simps
    by (intro triple_if triple_ret) (use assms(2,3) in simp_all)
qed

interpretation knows: reconciler_helper "operatorReconciler lib (interfered env c) f b"
  "\<lambda>d'. knowing lib c cl env d V \<longrightarrow> keyOf (dc_Meta d') = keyOf (dc_Meta d) \<and> wanted d' \<in> V"
  "\<lambda>w. knowing lib c cl env d V \<longrightarrow> knownVersions lib d V (cl w)"
  for lib c f b cl env d V
proof (cases "knowing lib c cl env d V")
  case True
  note named = carries_handlers [OF knowing_carries [OF True known_named]]
  have fin: "keeps (\<lambda>w. knownVersions lib d V (cl w)) (dcrh_finalizeDeviceConfig lib (operatorHelper lib (interfered env c) f b) d')"
    if "keyOf (dc_Meta d') = keyOf (dc_Meta d)" for d'
  proof (rule keeps_finalize_interfered)
    show "lawfulWrites c cl" "stableUnder (knownVersions lib d V) cl env" using True by (simp_all add: knowing_def)
    show "keeps (\<lambda>w. knownVersions lib d V (cl w)) (beforeEach env (apiPatch (DeviceConfigs c) (setFinalizers fs d') d'))" for fs
      by (rule carries_finalizers [OF knowing_carries [OF True known_finalizers]])
  qed (use known_unlabel [OF True that] in \<open>simp_all add: knownVersions_def labelsIn_def wantedIn_def\<close>)
  show "reconciler_helper (operatorReconciler lib (interfered env c) f b)
     (\<lambda>d'. knowing lib c cl env d V \<longrightarrow> keyOf (dc_Meta d') = keyOf (dc_Meta d) \<and> wanted d' \<in> V)
     (\<lambda>w. knowing lib c cl env d V \<longrightarrow> knownVersions lib d V (cl w))"
    by unfold_locales (simp_all add: True known_upgrade [OF True] known_setFinalizer [OF True] named fin)
next
  case False
  then show "reconciler_helper (operatorReconciler lib (interfered env c) f b)
     (\<lambda>d'. knowing lib c cl env d V \<longrightarrow> keyOf (dc_Meta d') = keyOf (dc_Meta d) \<and> wanted d' \<in> V)
     (\<lambda>w. knowing lib c cl env d V \<longrightarrow> knownVersions lib d V (cl w))"
    by unfold_locales (simp_all add: keeps_def triple_def)
qed

section \<open>Nodes on the way to a version\<close>

definition inFlight :: "library \<Rightarrow> DeviceConfig \<Rightarrow> cluster \<Rightarrow> Node set" where
  "inFlight lib d c = {n \<in> targetedNodes d c. mapGet (node_Labels n) (versionLabel lib d) \<noteq> None \<and>
     mapGet (node_Labels n) (readyLabel lib d) \<noteq> mapGet (node_Labels n) (versionLabel lib d)}"

lemma inFlight_inUpgrade:
  "n \<in> inFlight lib d c \<Longrightarrow> mapGet (node_Labels n) (versionLabel lib d) = Some v \<Longrightarrow> n \<in> inUpgrade lib (withVersion v d) c"
  by (auto simp: inFlight_def mem_inUpgrade targetedNodes_def)

lemma inFlight_bounded:
  assumes "serialAll lib d c" and "labelsIn lib d V c" and "finite V"
  shows "finite (inFlight lib d c) \<and> card (inFlight lib d c) \<le> card V"
proof -
  let ?v = "\<lambda>n. the (mapGet (node_Labels n) (versionLabel lib d))"
  have inj: "inj_on ?v (inFlight lib d c)"
  proof (rule inj_onI)
    fix n m assume n: "n \<in> inFlight lib d c" and m: "m \<in> inFlight lib d c" and eq: "?v n = ?v m"
    from n m obtain u v where "mapGet (node_Labels n) (versionLabel lib d) = Some u"
      "mapGet (node_Labels m) (versionLabel lib d) = Some v" by (auto simp: inFlight_def)
    with eq inFlight_inUpgrade [OF n] inFlight_inUpgrade [OF m] assms(1) show "n = m"
      by (auto simp: serialAll_def serial_def)
  qed
  have sub: "?v ` inFlight lib d c \<subseteq> V"
  proof
    fix v assume "v \<in> ?v ` inFlight lib d c"
    then obtain n where n: "stored c n" "mapGet (node_Labels n) (versionLabel lib d) = Some v"
      by (auto simp: inFlight_def targetedNodes_def)
    with assms(2) show "v \<in> V"
      by (auto simp: labelsIn_def versionAt_def stored_def dest!: spec [of _ "keyOf (node_Meta n)"])
  qed
  from card_inj_on_le [OF inj sub assms(3)] inj_on_finite [OF inj sub assms(3)] show ?thesis by blast
qed

text \<open>
  Reconciliations of copies of the DeviceConfig that want a version in \<open>V\<close>, each with any
  outcome and under interference, and steps of the environment, which may change the wanted
  version of the stored DeviceConfig to another one in \<open>V\<close>, at any time.
\<close>

inductive versionStep ::
  "library \<Rightarrow> 'w client \<Rightarrow> ('w \<Rightarrow> cluster) \<Rightarrow> string \<Rightarrow> bool \<Rightarrow> DeviceConfig \<Rightarrow> string set \<Rightarrow> 'w \<Rightarrow> 'w \<Rightarrow> bool"
  for lib :: library and c :: "'w client" and cl :: "'w \<Rightarrow> cluster" and f :: string and b :: bool
    and d0 :: DeviceConfig and V :: "string set" where
  version_reconcile: "sameTarget d0 d \<Longrightarrow> wanted d \<in> V \<Longrightarrow> rely lib d0 cl env \<Longrightarrow> stableUnder (wantedIn d0 V) cl env \<Longrightarrow>
    Reconcile (operatorReconciler lib (interfered env c) f b) d w = (r, w') \<Longrightarrow> versionStep lib c cl f b d0 V w w'"
| version_environment: "env_step lib d0 (cl w) (cl w') \<Longrightarrow> wantedIn d0 V (cl w') \<Longrightarrow> versionStep lib c cl f b d0 V w w'"

lemma versionStep_interleaving: "versionStep lib c cl f b d0 V w w' \<Longrightarrow> interleaving lib c cl f b d0 w w'"
  by (induction rule: versionStep.induct) (rule reconcile_among environment_between; assumption)+

lemma versionStep_known:
  assumes "lawfulWrites c cl" and "lawfulLabels lib"
  shows "versionStep lib c cl f b d0 V w w' \<Longrightarrow> knownVersions lib d0 V (cl w) \<Longrightarrow> knownVersions lib d0 V (cl w')"
proof (induction rule: versionStep.induct)
  case (version_reconcile d env w r w')
  have "knowing lib c cl env d0 V"
    using assms(1) rely_labelsIn [OF assms(2) version_reconcile(3)] version_reconcile(4)
    unfolding knowing_def stableUnder_def knownVersions_def by blast
  with knows.Reconcile_keeps [of lib c cl env d0 V d f b] version_reconcile(1,2)
  have "keeps (\<lambda>w. knownVersions lib d0 V (cl w)) (Reconcile (operatorReconciler lib (interfered env c) f b) d)"
    by (simp add: sameTarget_def)
  with version_reconcile(5,6) show ?case unfolding keeps_def by (metis snd_conv)
next
  case (version_environment w w')
  with env_step_labelsIn [OF assms(2)] show ?case unfolding knownVersions_def by blast
qed

section \<open>Properties\<close>

text \<open>
  C1: nodes on the way to a version, while the wanted version changes. Start from a cluster
  where no node has a version label. Let reconciliations of any copies of the DeviceConfig
  for these nodes that want a version in the finite set V follow, ending with or without an
  error at any call, in any interleaving with the environment, which may act before each
  single API call, may change the wanted version within V at any time, and may do to nodes
  what the rely allows (it withdraws no readiness for the version a node has, and brings
  no node with a version label into the selection). Then at any time at most as many targeted
  nodes have a version label without being ready with that version as there are versions in
  V: with one version never more than one node, after a change of the version possibly one
  for each.
\<close>

theorem nodes_in_flight_bounded:
  assumes "lawfulClient lib c cl" and "lawfulLabels lib" and "finite V"
    and "unlabelledCluster lib d0 (cl w)" and "targetKept d0 (cl w)" and "wantedIn d0 V (cl w)"
    and "(versionStep lib c cl f b d0 V)\<^sup>*\<^sup>* w w'"
  shows "finite (inFlight lib d0 (cl w')) \<and> card (inFlight lib d0 (cl w')) \<le> card V"
proof -
  have "(interleaving lib c cl f b d0)\<^sup>*\<^sup>* w w'"
    using assms(7) by (rule rtranclp_mono [THEN predicate2D, rotated]) (blast intro: versionStep_interleaving)
  moreover have "upgradeInv lib d0 (cl w)" using unlabelled_serialAll [OF assms(4)] assms(5) by (simp add: upgradeInv_def)
  ultimately have "serialAll lib d0 (cl w')" using interleavings_inv [OF assms(1,2)] by (simp add: upgradeInv_def)
  moreover have "knownVersions lib d0 V (cl w')" using assms(7)
  proof (induction rule: rtranclp_induct)
    case base
    have "labelsIn lib d0 V (cl w)"
      using assms(4) wellKeyed_key(1) [OF lawfulClientD(1) [OF assms(1)]]
      by (auto simp: labelsIn_def versionAt_def unlabelledCluster_def stored_def split: option.splits)
    with assms(6) show ?case by (simp add: knownVersions_def)
  qed (use versionStep_known [OF lawfulClient_writes [OF assms(1)] assms(2)] in blast)
  ultimately show ?thesis using inFlight_bounded assms(3) unfolding knownVersions_def by blast
qed

text \<open>Two fresh nodes are reconciled for version 2 while a third one joins and leaves.\<close>

lemma nodes_in_flight_bounded_witness:
  "\<exists>w'. (versionStep memLib memClient memCluster ''FROM'' False (exDC ''2'') {''2''})\<^sup>*\<^sup>*
       (exWorld [exFresh ''a'', exFresh ''b''] [exDC ''2'']) w' \<and>
     exStarted ''b'' \<in> inFlight memLib (exDC ''2'') (memCluster w') \<and> card (inFlight memLib (exDC ''2'') (memCluster w')) \<le> 1"
proof -
  let ?w = "exWorld [exFresh ''a'', exFresh ''b''] [exDC ''2'']" and ?V = "{''2''}"
  obtain w' where run: "Reconcile (operatorReconciler memLib (interfered exToggle memClient) ''FROM'' False)
      (exDC ''2'') ?w = (Inr zeroResult, w')" and nodes: "m_Nodes w' = [exStarted ''b'', exFresh ''a'']"
    using among_Reconcile by blast
  have "stableUnder (wantedIn (exDC ''2'') ?V) memCluster exToggle" by (simp add: stableUnder_def wantedIn_def exToggle_def)
  then have sys: "(versionStep memLib memClient memCluster ''FROM'' False (exDC ''2'') ?V)\<^sup>*\<^sup>* ?w w'"
    by (intro r_into_rtranclp version_reconcile [OF sameTarget_refl _ exToggle_rely _ run]) simp_all
  have fresh: "unlabelledCluster memLib (exDC ''2'') (memCluster ?w)"
    by (auto simp: unlabelledCluster_def dest!: stored_mem)
  have kept: "targetKept (exDC ''2'') (memCluster ?w)" "wantedIn (exDC ''2'') ?V (memCluster ?w)"
    by (simp_all add: targetKept_def wantedIn_def)
  have "exStarted ''b'' \<in> inFlight memLib (exDC ''2'') (memCluster w')"
    by (simp add: inFlight_def targetedNodes_def stored_def nodes)
  with nodes_in_flight_bounded [OF lawfulClient_mem lawfulLabels_mem _ fresh kept sys] sys show ?thesis by auto
qed

end
