(* ===== verification/Spec2Isabelle.thy ===== *)
theory Spec2Isabelle
  imports Resilience Failures Startup DeepCopy Hazards Versions
begin

text \<open>
  Verification of the operator for AI chips on AWS (Go, src/).

  \<^bold>\<open>The program.\<close> The operator is one process, started by cmd/main.go. At start-up it reads its
  configuration file (internal/config), asks the cluster whether it serves the DRA API, joins
  two CA bundles into one config map (internal/configmap) and starts a controller-runtime
  manager with one controller. That controller (internal/controllers) reconciles
  DeviceConfig resources (api/v1beta1): it keeps, for each of them, a config map with the
  dockerfile of the driver (internal/configmap), a Module of the Kernel Module Management
  operator KMM (internal/kmmmodule), the Deployments of a second scheduler and of its
  extension (internal/customscheduler), a DaemonSet that exports metrics
  (internal/nodemetrics), and it upgrades the driver on the nodes one node at a time
  (internal/upgrade). Events of nodes wake the controller through a predicate and a map from
  nodes to DeviceConfigs (internal/filter). The parts share no memory; they meet in the
  cluster: the upgrade writes a version label and a taint to nodes, KMM answers with a ready
  label, the Module names the config map, the device plugin mounts the joined CA bundle.

  \<^bold>\<open>The model.\<close> A \<open>cluster\<close> maps names to the stored objects, one map per kind. An operation
  that talks to the API server is a function of the world \<open>'w\<close> to a result and a new world
  (\<open>('w, 'a) io\<close>, theory Prelude); an error is a value (\<open>goerr\<close>), \<open>fmt.Errorf\<close> keeps the format,
  its arguments and the wrapped error, and a panic (a write to a nil map, a nil pointer) is the
  error \<open>Panic\<close>, which no wrapping changes. Structs are records, interfaces records of
  functions, pointers that may be nil options, maps that may be nil \<open>gomap\<close>. Loops over slices
  are structural recursions, so every function of the model is total.

  Parameters, since their code is not in the repository: the Kubernetes client (record
  \<open>client\<close>), the helper functions of controller-runtime, apimachinery and the KMM label package
  (record \<open>library\<close>), the label selectors and the predicates of the node filter, the order in
  which Go ranges over a map, and in theory Startup the files, the YAML decoder, the
  environment and the manager. What the code relies on is a predicate each (\<open>lawfulClient\<close>,
  \<open>lawfulOwner\<close>, \<open>lawfulFinalizers\<close>, \<open>lawfulLabels\<close>, \<open>lawfulSelectors\<close>, \<open>lawfulOrder\<close>,
  \<open>lawfulPredicates\<close>, and for the deep copies \<open>lawfulForeign\<close> and \<open>lawfulRange\<close>) and a
  hypothesis of the theorems that need it. A lawful client may fail at any call, and may
  fail after its write went through (a lost answer); its reads are current. \<open>main\<close> takes the
  client of the manager, which reads from a cache: the theorems about \<open>lawfulClient\<close> assume that
  this cache is up to date, and theory Hazards shows what can happen when it is not; the
  guarantees about what is written ask for \<open>lawfulWrites\<close> only, which leaves the reads open.
  The law of an upsert is that the server stores what the mutate function made; defaults that
  an API server fills into fields left empty are not modelled. Theory Memory has an API server
  in memory and a library that satisfy all of theirs; the witnesses run the operator on it.
  The theories with further parameters have concrete ones of their own.

  \<^bold>\<open>The theories\<close> and the code they model.
  \<^item> Prelude: errors, maps, the operations and their combinators, triples and \<open>keeps\<close> (what an
    operation keeps whatever its outcome); the locale of rounds that count down a measure.
  \<^item> Objects, Api_V1beta1: the objects of Kubernetes and KMM with the fields the code touches;
    api/v1beta1/deviceconfig_types.go with its two validation rules.
  \<^item> DeepCopy: api/v1beta1/zz_generated.deepcopy.go on an explicit store of slices, maps and
    pointers; the one theory about aliasing, and why the others may work with values.
  \<^item> Client, Memory: the parameters, their laws and the concrete instance.
  \<^item> Upgrade: internal/upgrade/upgrade.go, every function; the locale \<open>upgrade_api\<close> is what the
    reconciler relies on, interpreted on the implementation.
  \<^item> Desired, Configmap, KMMModule, CustomScheduler, NodeMetrics: the five set-as-desired
    operations of internal/configmap, kmmmodule, customscheduler and nodemetrics and the
    contract they share (locale \<open>desired_state\<close>, interpreted on each).
  \<^item> NodeFilter: internal/filter/filter.go.
  \<^item> Controller: internal/controllers/device_config_reconciler.go; \<open>Reconcile\<close> runs over any helper,
    \<open>operatorReconciler\<close> is the one that main puts together. Example: runs of it.
  \<^item> Startup: internal/config/config.go, internal/cmd/cmdutils.go, \<open>SetupWithManager\<close>, cmd/main.go.
  \<^item> Rollout: the abstract protocol of the upgrade and of its environment, and its invariant.
  \<^item> Reconciler, Finalize, Workloads, Converge, Liveness, Budget, System, Resilience, Failures: the
    properties that span components, below.
  \<^item> Calls: the same code over a client under interference (\<open>interfered\<close>: the environment may act
    before each call); which writes a single call can do (\<open>call_write\<close>), and that a predicate which
    the environment preserves and which survives these writes is kept by every operation.
  \<^item> Recording: the same code over a client that writes down the cluster before and after each
    call; a guarantee about every single call is stated of this list.
  \<^item> Interleaving, Fleet, Versions, Guarantees, Disruption: the invariant of the upgrade, for one
    and for several DeviceConfigs and for a wanted version that changes, what a reconciliation
    guarantees and how much it disrupts, under interference. Hazards: what interference, and a
    cache that lags behind, can break.

  \<^bold>\<open>What the theorems show.\<close>
  \<^item> The rolling upgrade. The handler refines the protocol on every outcome (theory Liveness). At
    most one targeted node is in upgrade in every reachable state, even when the environment acts
    between any two calls of a reconciliation: a rely/guarantee argument, in which what the handler
    knows of the nodes it listed is stable under every step of the environment (Interleaving); and
    this holds for each of several DeviceConfigs that are reconciled in any order (Fleet). When the
    wanted version changes during the rollout, the nodes on the way to a version are at most as
    many as the versions there have been (Versions). Every single call that a reconciliation makes
    under interference gives another version only to nodes that are new to the rollout or drained
    (Guarantees), and only while the Module loads this version (Disruption). One reconciliation
    writes to at most two nodes and moves at most one to another version, after the Module has been
    told of it (Budget); the bounds hold under interference, even when the list of nodes is old
    (Disruption).
  \<^item> The rollout ends. From a cluster with no node in upgrade, \<open>todo\<close> rounds (two per waiting node,
    one per node still to be uncordoned) of a successful call and of KMM's answer are enough, for
    the handler alone (Liveness) and for whole reconciliations (System), and KMM's answer wakes the
    controller again (System). From any state, \<open>work\<close> rounds are enough (at most three per node),
    where each round ends with KMM's answer and a success, after any number of failed
    reconciliations and partial answers (Resilience). The bounds are the values of the measures at
    the start; every round lowers them while they are not 0, and no failure raises \<open>work\<close>.
  \<^item> What concurrency costs (Hazards). The handler decides by the list of nodes it read, whatever
    the nodes are like by the time it writes, so a list from a stale cache can start a second node;
    stale reads can give the finalizer back while the Module exists; a taint or a finalizer that
    someone else adds between the read and the patch is lost; two DeviceConfigs for one node take each other's taint off.
  \<^item> The objects. A successful reconciliation leaves each object at a fixed point of its
    set-as-desired operation and further ones change nothing but nodes (Converge); the Module's
    references resolve, the stored Module is given field by field from the DeviceConfig, and the
    stored workloads are well-formed exactly when the DeviceConfig gives their images (Converge).
    The Module runs on targeted nodes and tolerates the upgrade's taint, and what it holds over a
    history of modes is given exactly (Workloads).
  \<^item> Isolation. A reconciliation touches only the objects named after its DeviceConfig (Reconciler).
    Call by call, whatever others do in between and however old its reads are, each of its writes
    changes at most one object, and it leaves the objects and labels of every other DeviceConfig
    alone (Guarantees).
  \<^item> The finalizer. It is set before anything is created and given back last; three
    successful reconciliations give it back when what they delete disappears: one deletes the
    metrics DaemonSet, one deletes the Module, one removes the labels and the finalizer (Finalize).
    Both ends hold under interference by anyone who leaves the finalizer to the operator and does
    not bring back what is gone (Guarantees).
  \<^item> Failures. A reconciliation stops at its first error and returns it wrapped; the operator's own
    code never panics (Failures). Start-up writes the joined CA before the manager is started,
    or ends the process (Configmap, Startup).
  \<^item> Copies. A deep copy of a DeviceConfig, or of a list of them, stands for the same value and
    shares no cell with the original (DeepCopy): the base of a patch stays what was read.
  \<^item> Upgrade, NodeFilter: the loops equal their specifications, cordon and uncordon are
    inverse, the node events that matter are not missed and wake exactly the DeviceConfigs concerned.

  \<^bold>\<open>Reading the model against the code.\<close> The code shares the label map of a node between the
  listed object and the copy it patches (the merge patch is computed against a deep copy). The
  node list is used once more after an uncordon, whose answer is decoded into the label map of
  the listed node. When nothing interferes the answer has the labels that were listed, so values
  are enough. Under interference only the node that was just uncordoned can look different, and
  as it was ready when it was listed, a node is still picked only if none was in upgrade then.
  \<open>setFinalizer\<close> and \<open>finalizeDeviceConfig\<close> patch through a pointer, and the patch decodes the
  server's answer into it, so they return the DeviceConfig. Loop variables are per iteration (Go 1.22 and later).
  A merge patch of a list replaces it: \<open>lawfulPatchNode\<close> and \<open>lawfulPatchDC\<close> say so, which is how
  a taint another controller adds in between can get lost. The environment of the protocol
  (theory Rollout) edits labels and taints of nodes, lets nodes join and leave and changes
  other objects at will; the one thing it may not do is take a node that was upgraded, or
  was out of the selector's reach, back to being in upgrade.

  \<^bold>\<open>Behaviour worth knowing\<close>, each stated by a theorem: a switch from DRA mode to device-plugin
  mode leaves the DRA driver in the Module (\<open>module_mode_history\<close>); DRA mode leaves the
  Deployments of device-plugin mode (\<open>dra_mode_leaves_deployments\<close>), and driver-only mode makes
  them with empty images (\<open>scheduler_images\<close>); a foreign taint with the upgrade's key stops
  all uncordoning (\<open>foreign_taint_starves\<close>); labels of earlier versions and the taint stay
  after deletion (\<open>RemoveUpgradeLabels_effect\<close>); without a selector the upgrade targets
  nodes that the Module does not select (\<open>module_nodes_targeted\<close>); the joined CA exists in the
  operator's namespace only (\<open>plugin_ca_resolves\<close>); deletions of nodes do wake the controller
  (\<open>no_relevant_event_missed\<close>); stale reads, concurrent taints and finalizers and shared nodes
  (\<open>node_list_decides\<close>, \<open>concurrent_taint_lost\<close>, \<open>concurrent_finalizer_lost\<close>,
  \<open>shared_taint_uncordons\<close>); the workloads of two DeviceConfigs in one namespace have the same
  selectors and pod labels (\<open>reconciled_workloads\<close>).

  \<^bold>\<open>Not modelled.\<close> The mocks (generated, used by tests only), groupversion_info.go and the
  scheme of the unit tests (registrations without behaviour). Within modelled files: log lines,
  contexts, command-line flags and signals. Quantities such as 500m are kept as the text that
  resource.MustParse reads. The time between calls, retries and the work queue are
  those of controller-runtime: the theorems speak of sequences of calls. What is left of the
  modelled files outside the definitions is licence headers, imports and blank lines.
\<close>

end
